(* ===== verification/Aegis_Prelude.thy ===== *)
theory Aegis_Prelude
  imports Main "HOL-Library.Multiset" "HOL-Library.Word"
begin

section \<open>Shared vocabulary and generic lemmas\<close>

text \<open>
  What every component of the development uses: the types that stand for Go's \<open>time.Time\<close>,
  \<open>time.Duration\<close> and \<open>uuid.UUID\<close>, saturating time subtraction, the locale of a
  mutex-guarded object (each exported method is one atomic step, so every interleaving of
  concurrent callers is a list of steps), and lemmas on lists and association lists.

  Time is an integer number of nanoseconds since Go's zero time; a duration is an integer
  number of nanoseconds. A UUID is its 16 bytes, read as one 128-bit value. A Go string is a
  list of bytes, which is what HOL's \<open>string\<close> is.
\<close>

type_synonym time = int
type_synonym duration = int
type_synonym uuid = "128 word"

named_theorems op_defs \<open>definitions of the operations of a component\<close>
named_theorems inv_defs \<open>definitions of component invariants\<close>

subsection \<open>Time\<close>

definition minDuration :: duration where
  "minDuration = - (2 ^ 63)"

definition maxDuration :: duration where
  "maxDuration = 2 ^ 63 - 1"

text \<open>\<open>time.Time.Sub\<close> saturates at the least and the greatest \<open>int64\<close>.\<close>

definition time_Sub :: "time \<Rightarrow> time \<Rightarrow> duration" where
  "time_Sub t u = max minDuration (min maxDuration (t - u))"

definition time_Before :: "time \<Rightarrow> time \<Rightarrow> bool" where
  "time_Before t u \<longleftrightarrow> t < u"

lemma time_Sub_less_iff:
  "d \<le> maxDuration \<Longrightarrow> minDuration < d \<Longrightarrow> time_Sub t u < d \<longleftrightarrow> t - u < d"
  by (auto simp: time_Sub_def minDuration_def maxDuration_def)

lemma time_Sub_self [simp]: "time_Sub t t = 0"
  by (simp add: time_Sub_def minDuration_def maxDuration_def)

subsection \<open>64-bit arithmetic\<close>

text \<open>The Go value of an \<open>int64\<close> expression whose mathematical value is \<open>i\<close>: it wraps around.\<close>

definition int64 :: "int \<Rightarrow> int" where
  "int64 i = sint (word_of_int i :: 64 word)"

lemma int64_id: "- (2 ^ 63) \<le> i \<Longrightarrow> i < 2 ^ 63 \<Longrightarrow> int64 i = i"
  by (simp add: int64_def signed_of_int signed_take_bit_int_eq_self)

lemma int64_range: "- (2 ^ 63) \<le> int64 i" "int64 i < 2 ^ 63"
  using sint_range_size [of "word_of_int i :: 64 word"] by (simp_all add: int64_def word_size)

subsection \<open>Strings\<close>

text \<open>\<open>strings.TrimRight\<close> with a one-character cutset.\<close>

definition TrimRight :: "char \<Rightarrow> string \<Rightarrow> string" where
  "TrimRight c s = rev (dropWhile (\<lambda>x. x = c) (rev s))"

subsection \<open>Mutex-guarded objects\<close>

text \<open>
  The Go objects modelled here are guarded by one mutex each (or are rows updated by one SQL
  statement), so a method call is one atomic step. A concurrent execution is then a list of
  steps in the order the mutex was taken, whoever took it. The locale states what a component
  owes (every step keeps its invariant) and what its clients get for all executions.
\<close>

locale guarded_object =
  fixes step :: "'s \<Rightarrow> 'e \<Rightarrow> 's"
    and inv :: "'s \<Rightarrow> bool"
  assumes step_inv: "inv s \<Longrightarrow> inv (step s e)"
begin

lemma run_inv: "inv s \<Longrightarrow> inv (foldl step s es)"
  by (induction es arbitrary: s) (simp_all add: step_inv)

lemma run_preorder:
  assumes step: "\<And>s e. inv s \<Longrightarrow> R s (step s e)"
    and refl: "\<And>s. R s s"
    and trans: "\<And>s t u. R s t \<Longrightarrow> R t u \<Longrightarrow> R s u"
  shows "inv s \<Longrightarrow> R s (foldl step s es)"
proof (induction es arbitrary: s)
  case Nil
  then show ?case by (simp add: refl)
next
  case (Cons e es)
  from Cons.prems have "R s (step s e)" by (rule step)
  moreover from Cons.prems have "R (step s e) (foldl step (step s e) es)"
    by (intro Cons.IH step_inv)
  ultimately show ?case by (auto intro: trans)
qed

lemma run_frame:
  assumes "\<And>s e. inv s \<Longrightarrow> Q e \<Longrightarrow> f (step s e) = f s"
  shows "inv s \<Longrightarrow> list_all Q es \<Longrightarrow> f (foldl step s es) = f s"
proof (induction es arbitrary: s)
  case Nil
  then show ?case by simp
next
  case (Cons e es)
  then show ?case using assms step_inv by simp
qed

end

subsection \<open>Lists\<close>

lemma list_update_nth_map:
  "i < length xs \<Longrightarrow> (map f xs)[i := f y] = map f (xs[i := y])"
  by (simp add: map_update)

lemma filter_list_update_length:
  assumes "i < length xs"
  shows "length (filter P (xs[i := y])) + (if P (xs ! i) then 1 else 0)
       = length (filter P xs) + (if P y then 1 else 0)"
  using assms
proof (induction xs arbitrary: i)
  case Nil
  then show ?case by simp
next
  case (Cons x xs)
  then show ?case by (cases i) auto
qed

lemma mset_take_drop_nth:
  "i < length xs \<Longrightarrow> mset (take i xs @ drop (Suc i) xs) + {#xs ! i#} = mset xs"
proof -
  assume i: "i < length xs"
  have "mset xs = mset (take i xs @ xs ! i # drop (Suc i) xs)"
    using i by (simp add: id_take_nth_drop [symmetric])
  then show ?thesis by simp
qed

lemma find_SomeD: "find P xs = Some x \<Longrightarrow> x \<in> set xs \<and> P x"
  by (induction xs) (auto split: if_splits)

lemma notin_imageD: "y \<notin> f ` A \<Longrightarrow> x \<in> A \<Longrightarrow> f x \<noteq> y"
  by blast

end
