(* ===== verification/Models.thy ===== *)
theory Models
  imports Aegis_Prelude
begin

section \<open>Domain types (internal/models)\<close>

text \<open>
  The typed enums of \<open>enums.go\<close> with their \<open>String\<close>, \<open>IsValid\<close> and
  \<open>Parse\<close> functions, and the row structs of \<open>models.go\<close>. A Go enum is a string
  type with a fixed vocabulary: the datatype holds the valid values, and \<open>IsValid\<close> and
  \<open>Parse\<close> work on the raw string. Raw JSON is a byte string; a pointer field is an option.
\<close>

subsection \<open>Enums\<close>

datatype JobStatus =
    JobStatusQueued
  | JobStatusRunning
  | JobStatusSucceeded
  | JobStatusPartiallyFailed
  | JobStatusFailed

fun JobStatus_String :: "JobStatus \<Rightarrow> string" where
  "JobStatus_String JobStatusQueued = ''queued''"
| "JobStatus_String JobStatusRunning = ''running''"
| "JobStatus_String JobStatusSucceeded = ''succeeded''"
| "JobStatus_String JobStatusPartiallyFailed = ''partially_failed''"
| "JobStatus_String JobStatusFailed = ''failed''"

definition JobStatus_IsValid :: "string \<Rightarrow> bool" where
  "JobStatus_IsValid s \<longleftrightarrow>
     s \<in> {''queued'', ''running'', ''succeeded'', ''partially_failed'', ''failed''}"

definition ParseJobStatus :: "string \<Rightarrow> JobStatus option" where
  "ParseJobStatus s =
     (if \<not> JobStatus_IsValid s then None
      else if s = ''queued'' then Some JobStatusQueued
      else if s = ''running'' then Some JobStatusRunning
      else if s = ''succeeded'' then Some JobStatusSucceeded
      else if s = ''partially_failed'' then Some JobStatusPartiallyFailed
      else Some JobStatusFailed)"

datatype ItemStatus =
    ItemStatusQueued
  | ItemStatusRunning
  | ItemStatusSucceeded
  | ItemStatusFailed

fun ItemStatus_String :: "ItemStatus \<Rightarrow> string" where
  "ItemStatus_String ItemStatusQueued = ''queued''"
| "ItemStatus_String ItemStatusRunning = ''running''"
| "ItemStatus_String ItemStatusSucceeded = ''succeeded''"
| "ItemStatus_String ItemStatusFailed = ''failed''"

definition ItemStatus_IsValid :: "string \<Rightarrow> bool" where
  "ItemStatus_IsValid s \<longleftrightarrow> s \<in> {''queued'', ''running'', ''succeeded'', ''failed''}"

definition ParseItemStatus :: "string \<Rightarrow> ItemStatus option" where
  "ParseItemStatus s =
     (if \<not> ItemStatus_IsValid s then None
      else if s = ''queued'' then Some ItemStatusQueued
      else if s = ''running'' then Some ItemStatusRunning
      else if s = ''succeeded'' then Some ItemStatusSucceeded
      else Some ItemStatusFailed)"

datatype BackendKind = BackendKindOpenAICompatible | BackendKindMock

fun BackendKind_String :: "BackendKind \<Rightarrow> string" where
  "BackendKind_String BackendKindOpenAICompatible = ''openai_compatible''"
| "BackendKind_String BackendKindMock = ''mock''"

definition BackendKind_IsValid :: "string \<Rightarrow> bool" where
  "BackendKind_IsValid s \<longleftrightarrow> s \<in> {''openai_compatible'', ''mock''}"

definition ParseBackendKind :: "string \<Rightarrow> BackendKind option" where
  "ParseBackendKind s =
     (if \<not> BackendKind_IsValid s then None
      else if s = ''mock'' then Some BackendKindMock
      else Some BackendKindOpenAICompatible)"

datatype CircuitState = CircuitStateClosed | CircuitStateOpen | CircuitStateHalfOpen

fun CircuitState_String :: "CircuitState \<Rightarrow> string" where
  "CircuitState_String CircuitStateClosed = ''closed''"
| "CircuitState_String CircuitStateOpen = ''open''"
| "CircuitState_String CircuitStateHalfOpen = ''half_open''"

definition CircuitState_IsValid :: "string \<Rightarrow> bool" where
  "CircuitState_IsValid s \<longleftrightarrow> s \<in> {''closed'', ''open'', ''half_open''}"

definition ParseCircuitState :: "string \<Rightarrow> CircuitState option" where
  "ParseCircuitState s =
     (if \<not> CircuitState_IsValid s then None
      else if s = ''closed'' then Some CircuitStateClosed
      else if s = ''open'' then Some CircuitStateOpen
      else Some CircuitStateHalfOpen)"

subsection \<open>Status vocabularies that stay plain strings\<close>

definition CacheResultHit :: string where "CacheResultHit = ''hit''"
definition CacheResultMiss :: string where "CacheResultMiss = ''miss''"
definition CacheResultBypass :: string where "CacheResultBypass = ''bypass''"
definition RequestStatusSucceeded :: string where "RequestStatusSucceeded = ''succeeded''"
definition RequestStatusFailed :: string where "RequestStatusFailed = ''failed''"
definition OutboxStatusPending :: string where "OutboxStatusPending = ''pending''"
definition OutboxStatusPublished :: string where "OutboxStatusPublished = ''published''"
definition OutboxStatusFailed :: string where "OutboxStatusFailed = ''failed''"
definition IdempotencyStatusPending :: string where "IdempotencyStatusPending = ''pending''"
definition IdempotencyStatusCompleted :: string where "IdempotencyStatusCompleted = ''completed''"
definition StrategyPriorityWeighted :: string where "StrategyPriorityWeighted = ''priority_weighted''"

lemmas status_strings = CacheResultHit_def CacheResultMiss_def CacheResultBypass_def
  RequestStatusSucceeded_def RequestStatusFailed_def OutboxStatusPending_def
  OutboxStatusPublished_def OutboxStatusFailed_def IdempotencyStatusPending_def
  IdempotencyStatusCompleted_def StrategyPriorityWeighted_def

subsection \<open>Row structs\<close>

record Tenant =
  tn_ID :: uuid
  tn_Name :: string
  tn_CreatedAt :: time
  tn_UpdatedAt :: time

record APIKey =
  ak_ID :: uuid
  ak_TenantID :: uuid
  ak_Name :: string
  ak_KeyHash :: string
  ak_CreatedAt :: time
  ak_UpdatedAt :: time

record ModelBackend =
  mb_ID :: uuid
  mb_Name :: string
  mb_BaseURL :: string
  mb_ModelName :: string
  mb_Kind :: BackendKind
  mb_Enabled :: bool
  mb_Priority :: int
  mb_Weight :: int
  mb_MaxInFlight :: int
  mb_CreatedAt :: time
  mb_UpdatedAt :: time

record RoutingPolicy =
  rp_ID :: uuid
  rp_Name :: string
  rp_ModelName :: string
  rp_Strategy :: string
  rp_Config :: string
  rp_Enabled :: bool
  rp_CreatedAt :: time
  rp_UpdatedAt :: time

record InferenceRequest =
  ir_ID :: uuid
  ir_TenantID :: uuid
  ir_APIKeyID :: uuid
  ir_Model :: string
  ir_BackendID :: "uuid option"
  ir_CacheResult :: "string option"
  ir_Status :: string
  ir_LatencyMS :: int
  ir_RequestHash :: string
  ir_CreatedAt :: time

record BatchJob =
  job_ID :: uuid
  job_TenantID :: uuid
  job_APIKeyID :: uuid
  job_Model :: string
  job_Status :: JobStatus
  job_TotalItems :: nat
  job_CompletedItems :: nat
  job_FailedItems :: nat
  job_CreatedAt :: time
  job_UpdatedAt :: time

record BatchJobItem =
  item_ID :: uuid
  item_JobID :: uuid
  item_CustomID :: string
  item_Request :: string
  item_Status :: ItemStatus
  item_Attempts :: int
  item_Response :: "string option"
  item_Error :: "string option"
  item_CreatedAt :: time
  item_UpdatedAt :: time

record BatchJobOutbox =
  ob_ID :: uuid
  ob_JobID :: uuid
  ob_Status :: string
  ob_Attempts :: int
  ob_LastError :: "string option"
  ob_PublishedAt :: "time option"
  ob_CreatedAt :: time
  ob_UpdatedAt :: time

record BackendHealthSnapshot =
  hs_ID :: uuid
  hs_BackendID :: uuid
  hs_CircuitState :: CircuitState
  hs_InFlight :: int
  hs_ObservedAt :: time

record IdempotencyRecord =
  idr_ID :: uuid
  idr_Scope :: string
  idr_IdemKey :: string
  idr_RequestHash :: string
  idr_Status :: string
  idr_LockedUntil :: "time option"
  idr_ResponseStatus :: "int option"
  idr_ResponseHeaders :: "string option"
  idr_ResponseBody :: "string option"
  idr_CreatedAt :: time
  idr_ExpiresAt :: time

subsection \<open>Printing and parsing the enums\<close>

lemma ParseJobStatus_String: "ParseJobStatus (JobStatus_String s) = Some s"
  by (cases s) (simp_all add: ParseJobStatus_def JobStatus_IsValid_def)

lemma ParseJobStatus_SomeD: "ParseJobStatus x = Some s \<Longrightarrow> JobStatus_String s = x"
  by (auto simp: ParseJobStatus_def JobStatus_IsValid_def split: if_splits)

lemma ParseItemStatus_String: "ParseItemStatus (ItemStatus_String s) = Some s"
  by (cases s) (simp_all add: ParseItemStatus_def ItemStatus_IsValid_def)

lemma ParseItemStatus_SomeD: "ParseItemStatus x = Some s \<Longrightarrow> ItemStatus_String s = x"
  by (auto simp: ParseItemStatus_def ItemStatus_IsValid_def split: if_splits)

lemma ParseBackendKind_String: "ParseBackendKind (BackendKind_String s) = Some s"
  by (cases s) (simp_all add: ParseBackendKind_def BackendKind_IsValid_def)

lemma ParseBackendKind_SomeD: "ParseBackendKind x = Some s \<Longrightarrow> BackendKind_String s = x"
  by (auto simp: ParseBackendKind_def BackendKind_IsValid_def split: if_splits)

lemma ParseCircuitState_String: "ParseCircuitState (CircuitState_String s) = Some s"
  by (cases s) (simp_all add: ParseCircuitState_def CircuitState_IsValid_def)

lemma ParseCircuitState_SomeD: "ParseCircuitState x = Some s \<Longrightarrow> CircuitState_String s = x"
  by (auto simp: ParseCircuitState_def CircuitState_IsValid_def split: if_splits)

lemmas enum_roundtrips = ParseJobStatus_String ParseItemStatus_String
  ParseBackendKind_String ParseCircuitState_String

lemmas enum_parse_dests = ParseJobStatus_SomeD ParseItemStatus_SomeD
  ParseBackendKind_SomeD ParseCircuitState_SomeD

text \<open>For each of the four enums, parsing accepts a column value exactly when it is the printed
  form of an enum value, and gives that value: nothing else passes and no two values print alike.\<close>

theorem enum_parse_iff:
  "(ParseJobStatus x = Some j \<longleftrightarrow> x = JobStatus_String j)
   \<and> (ParseItemStatus x = Some i \<longleftrightarrow> x = ItemStatus_String i)
   \<and> (ParseBackendKind x = Some k \<longleftrightarrow> x = BackendKind_String k)
   \<and> (ParseCircuitState x = Some c \<longleftrightarrow> x = CircuitState_String c)"
  by (intro conjI iffI) (auto simp: enum_roundtrips dest: enum_parse_dests)

end
