(* ===== verification/Circuit.thy ===== *)
theory Circuit
  imports Models
begin

section \<open>The circuit breaker (internal/routing/circuit.go)\<close>

text \<open>
  A \<open>Breaker\<close> keeps one \<open>circuit\<close> per backend name. Every exported method runs under the
  breaker's mutex, so each is one atomic step here; the clock the method reads (\<open>b.now()\<close>)
  is its \<open>time\<close> argument. The state listener \<open>onChange\<close> is a hook: \<open>onChange\<close> says
  whether one is registered and \<open>notified\<close> is the list of the calls made to it.
\<close>

subsection \<open>State\<close>

record circuit =
  circuit_state :: CircuitState
  failures :: int
  openedAt :: time
  probing :: bool

record Breaker =
  threshold :: int
  cooldown :: duration
  onChange :: bool
  circuits :: "string \<rightharpoonup> circuit"
  notified :: "(string \<times> CircuitState) list"

definition NewBreaker :: "int \<Rightarrow> duration \<Rightarrow> bool \<Rightarrow> Breaker" where
  "NewBreaker th cd listener =
     \<lparr>threshold = th, cooldown = cd, onChange = listener, circuits = Map.empty, notified = []\<rparr>"

definition new_circuit :: circuit where
  "new_circuit =
     \<lparr>circuit_state = CircuitStateClosed, failures = 0, openedAt = 0, probing = False\<rparr>"

text \<open>The Go map holds pointers: writing a field of \<open>c\<close> is a store back into the map.\<close>

definition put_circuit :: "string \<Rightarrow> circuit \<Rightarrow> Breaker \<Rightarrow> Breaker" where
  "put_circuit backend c b = b\<lparr>circuits := (circuits b)(backend \<mapsto> c)\<rparr>"

subsection \<open>Operations\<close>

definition circuit_of :: "string \<Rightarrow> Breaker \<Rightarrow> circuit \<times> Breaker" where
  "circuit_of backend b =
     (case circuits b backend of
        Some c \<Rightarrow> (c, b)
      | None \<Rightarrow> (new_circuit, put_circuit backend new_circuit b))"

definition transition ::
  "string \<Rightarrow> circuit \<Rightarrow> CircuitState \<Rightarrow> Breaker \<Rightarrow> circuit \<times> Breaker" where
  "transition backend c s b =
     (let c' = c\<lparr>circuit_state := s\<rparr>; b' = put_circuit backend c' b
      in (c', if onChange b' then b'\<lparr>notified := notified b' @ [(backend, s)]\<rparr> else b'))"

definition open_circuit :: "time \<Rightarrow> string \<Rightarrow> circuit \<Rightarrow> Breaker \<Rightarrow> Breaker" where
  "open_circuit now backend c b =
     snd (transition backend (c\<lparr>openedAt := now\<rparr>) CircuitStateOpen b)"

definition Allow :: "time \<Rightarrow> string \<Rightarrow> Breaker \<Rightarrow> bool \<times> Breaker" where
  "Allow now backend b =
     (let (c, b) = circuit_of backend b in
      case circuit_state c of
        CircuitStateClosed \<Rightarrow> (True, b)
      | CircuitStateOpen \<Rightarrow>
          (if time_Sub now (openedAt c) < cooldown b then (False, b)
           else let (c, b) = transition backend c CircuitStateHalfOpen b
                in (True, put_circuit backend (c\<lparr>probing := True\<rparr>) b))
      | CircuitStateHalfOpen \<Rightarrow>
          (if probing c then (False, b)
           else (True, put_circuit backend (c\<lparr>probing := True\<rparr>) b)))"

definition ReportSuccess :: "string \<Rightarrow> Breaker \<Rightarrow> Breaker" where
  "ReportSuccess backend b =
     (let (c, b) = circuit_of backend b in
      case circuit_state c of
        CircuitStateClosed \<Rightarrow> put_circuit backend (c\<lparr>failures := 0\<rparr>) b
      | CircuitStateHalfOpen \<Rightarrow>
          snd (transition backend (c\<lparr>failures := 0, probing := False\<rparr>) CircuitStateClosed b)
      | CircuitStateOpen \<Rightarrow> b)"

definition ReportCanceled :: "string \<Rightarrow> Breaker \<Rightarrow> Breaker" where
  "ReportCanceled backend b =
     (let (c, b) = circuit_of backend b in
      if circuit_state c = CircuitStateHalfOpen
      then put_circuit backend (c\<lparr>probing := False\<rparr>) b else b)"

definition ReportFailure :: "time \<Rightarrow> string \<Rightarrow> Breaker \<Rightarrow> Breaker" where
  "ReportFailure now backend b =
     (let (c, b) = circuit_of backend b in
      case circuit_state c of
        CircuitStateClosed \<Rightarrow>
          (let c = c\<lparr>failures := failures c + 1\<rparr> in
           if failures c \<ge> threshold b then open_circuit now backend c b
           else put_circuit backend c b)
      | CircuitStateHalfOpen \<Rightarrow> open_circuit now backend (c\<lparr>probing := False\<rparr>) b
      | CircuitStateOpen \<Rightarrow> b)"

definition Breaker_State :: "string \<Rightarrow> Breaker \<Rightarrow> CircuitState \<times> Breaker" where
  "Breaker_State backend b =
     (let (c, b) = circuit_of backend b in (circuit_state c, b))"

fun CircuitStateGaugeValue :: "CircuitState \<Rightarrow> nat" where
  "CircuitStateGaugeValue CircuitStateHalfOpen = 1"
| "CircuitStateGaugeValue CircuitStateOpen = 2"
| "CircuitStateGaugeValue CircuitStateClosed = 0"

subsection \<open>Executions\<close>

text \<open>One event is one method call; a list of events is any interleaving of callers.\<close>

datatype breaker_event =
    EvAllow time string
  | EvSuccess string
  | EvCanceled string
  | EvFailure time string
  | EvState string

fun event_backend :: "breaker_event \<Rightarrow> string" where
  "event_backend (EvAllow _ n) = n"
| "event_backend (EvSuccess n) = n"
| "event_backend (EvCanceled n) = n"
| "event_backend (EvFailure _ n) = n"
| "event_backend (EvState n) = n"

fun is_report :: "breaker_event \<Rightarrow> bool" where
  "is_report (EvAllow _ _) = False"
| "is_report (EvState _) = False"
| "is_report _ = True"

fun breaker_step :: "Breaker \<Rightarrow> breaker_event \<Rightarrow> Breaker" where
  "breaker_step b (EvAllow now n) = snd (Allow now n b)"
| "breaker_step b (EvSuccess n) = ReportSuccess n b"
| "breaker_step b (EvCanceled n) = ReportCanceled n b"
| "breaker_step b (EvFailure now n) = ReportFailure now n b"
| "breaker_step b (EvState n) = snd (Breaker_State n b)"

abbreviation breaker_run :: "Breaker \<Rightarrow> breaker_event list \<Rightarrow> Breaker" where
  "breaker_run \<equiv> foldl breaker_step"

text \<open>How many of a run's \<open>Allow\<close> calls for one backend were granted.\<close>

fun grants :: "string \<Rightarrow> Breaker \<Rightarrow> breaker_event list \<Rightarrow> nat" where
  "grants n b [] = 0"
| "grants n b (e # es) =
     (case e of
        EvAllow now m \<Rightarrow> (if m = n \<and> fst (Allow now m b) then 1 else 0)
      | _ \<Rightarrow> 0) + grants n (breaker_step b e) es"

text \<open>The circuit a backend has, or the fresh closed one it would be given.\<close>

definition circuit_view :: "Breaker \<Rightarrow> string \<Rightarrow> circuit" where
  "circuit_view b n = (case circuits b n of Some c \<Rightarrow> c | None \<Rightarrow> new_circuit)"

lemmas breaker_op_defs = circuit_of_def transition_def open_circuit_def put_circuit_def
  Allow_def ReportSuccess_def ReportCanceled_def ReportFailure_def Breaker_State_def
  circuit_view_def

subsection \<open>An abstract specification of one circuit\<close>

text \<open>
  What the breaker promises, backend by backend: a closed gate with a count of consecutive
  failures, an open gate with the time it opened, a half-open gate with or without its probe
  handed out. The concrete record carries stale values in the fields a state does not use;
  the abstraction forgets them.
\<close>

datatype gate = Gate_Closed int | Gate_Open time | Gate_Half bool

fun gate_allow :: "duration \<Rightarrow> time \<Rightarrow> gate \<Rightarrow> bool \<times> gate" where
  "gate_allow cd now (Gate_Closed k) = (True, Gate_Closed k)"
| "gate_allow cd now (Gate_Open t) =
     (if time_Sub now t < cd then (False, Gate_Open t) else (True, Gate_Half True))"
| "gate_allow cd now (Gate_Half p) = (\<not> p, Gate_Half True)"

fun gate_success :: "gate \<Rightarrow> gate" where
  "gate_success (Gate_Closed k) = Gate_Closed 0"
| "gate_success (Gate_Open t) = Gate_Open t"
| "gate_success (Gate_Half p) = Gate_Closed 0"

fun gate_canceled :: "gate \<Rightarrow> gate" where
  "gate_canceled (Gate_Half p) = Gate_Half False"
| "gate_canceled g = g"

fun gate_failure :: "int \<Rightarrow> time \<Rightarrow> gate \<Rightarrow> gate" where
  "gate_failure th now (Gate_Closed k) =
     (if k + 1 \<ge> th then Gate_Open now else Gate_Closed (k + 1))"
| "gate_failure th now (Gate_Open t) = Gate_Open t"
| "gate_failure th now (Gate_Half p) = Gate_Open now"

fun gate_step :: "int \<Rightarrow> duration \<Rightarrow> gate \<Rightarrow> breaker_event \<Rightarrow> gate" where
  "gate_step th cd g (EvAllow now _) = snd (gate_allow cd now g)"
| "gate_step th cd g (EvSuccess _) = gate_success g"
| "gate_step th cd g (EvCanceled _) = gate_canceled g"
| "gate_step th cd g (EvFailure now _) = gate_failure th now g"
| "gate_step th cd g (EvState _) = g"

definition abs_circuit :: "circuit \<Rightarrow> gate" where
  "abs_circuit c =
     (case circuit_state c of
        CircuitStateClosed \<Rightarrow> Gate_Closed (failures c)
      | CircuitStateOpen \<Rightarrow> Gate_Open (openedAt c)
      | CircuitStateHalfOpen \<Rightarrow> Gate_Half (probing c))"

abbreviation gate_of :: "Breaker \<Rightarrow> string \<Rightarrow> gate" where
  "gate_of b n \<equiv> abs_circuit (circuit_view b n)"

lemma breaker_step_params [simp]:
  "threshold (breaker_step b e) = threshold b"
  "cooldown (breaker_step b e) = cooldown b"
  "onChange (breaker_step b e) = onChange b"
  by (cases e; auto simp: breaker_op_defs Let_def split: option.splits CircuitState.splits)+

lemma breaker_run_params [simp]:
  "threshold (breaker_run b es) = threshold b"
  "cooldown (breaker_run b es) = cooldown b"
  "onChange (breaker_run b es) = onChange b"
  by (induction es arbitrary: b) simp_all

lemma Allow_gate:
  "fst (Allow now n b) = fst (gate_allow (cooldown b) now (gate_of b n))"
  by (auto simp: breaker_op_defs abs_circuit_def new_circuit_def Let_def
      split: option.splits CircuitState.splits)

lemma breaker_step_gate_self:
  "event_backend e = n \<Longrightarrow>
     gate_of (breaker_step b e) n = gate_step (threshold b) (cooldown b) (gate_of b n) e"
  by (cases e)
    (auto simp: breaker_op_defs abs_circuit_def new_circuit_def Let_def
      split: option.splits CircuitState.splits)

lemma breaker_step_other:
  "event_backend e \<noteq> n \<Longrightarrow> circuits (breaker_step b e) n = circuits b n"
  by (cases e) (auto simp: breaker_op_defs Let_def split: option.splits CircuitState.splits)

lemma breaker_step_gate:
  "gate_of (breaker_step b e) n =
     (if event_backend e = n then gate_step (threshold b) (cooldown b) (gate_of b n) e
      else gate_of b n)"
  using breaker_step_gate_self breaker_step_other
  by (simp add: circuit_view_def)


subsection \<open>The field invariant and the state listener\<close>

text \<open>
  In every state the fields agree: a circuit that is not half-open has no probe out, a closed
  circuit is below the threshold, and an open or half-open one sits at it. Where a listener
  is registered, the last value it was given is the state the circuit is in, so the gauge
  \<open>aegisroute_circuit_breaker_state\<close> that the listener writes never lags.
\<close>

definition circuit_ok :: "int \<Rightarrow> circuit \<Rightarrow> bool" where
  "circuit_ok th c \<longleftrightarrow>
     0 \<le> failures c \<and>
     (circuit_state c \<noteq> CircuitStateHalfOpen \<longrightarrow> \<not> probing c) \<and>
     (circuit_state c = CircuitStateClosed \<longrightarrow> failures c < th) \<and>
     (circuit_state c \<noteq> CircuitStateClosed \<longrightarrow> failures c = th)"

definition last_notified :: "Breaker \<Rightarrow> string \<Rightarrow> CircuitState" where
  "last_notified b n =
     (case map_of (rev (notified b)) n of Some s \<Rightarrow> s | None \<Rightarrow> CircuitStateClosed)"

definition breaker_inv :: "Breaker \<Rightarrow> bool" where
  "breaker_inv b \<longleftrightarrow>
     1 \<le> threshold b \<and>
     (\<forall>n. circuit_ok (threshold b) (circuit_view b n)) \<and>
     (onChange b \<longrightarrow> (\<forall>n. last_notified b n = circuit_state (circuit_view b n)))"

lemma breaker_inv_New: "1 \<le> th \<Longrightarrow> breaker_inv (NewBreaker th cd listener)"
  by (simp add: breaker_inv_def NewBreaker_def circuit_view_def circuit_ok_def new_circuit_def
      last_notified_def)

lemma circuit_view_put [simp]:
  "circuit_view (put_circuit n c b) m = (if m = n then c else circuit_view b m)"
  by (simp add: circuit_view_def put_circuit_def)

lemma circuit_view_notified [simp]: "circuit_view (b\<lparr>notified := l\<rparr>) n = circuit_view b n"
  by (simp add: circuit_view_def)

lemma put_circuit_fields [simp]:
  "threshold (put_circuit n c b) = threshold b" "cooldown (put_circuit n c b) = cooldown b"
  "onChange (put_circuit n c b) = onChange b" "notified (put_circuit n c b) = notified b"
  by (simp_all add: put_circuit_def)

lemma last_notified_cong [simp]: "last_notified (put_circuit n c b) = last_notified b"
  by (simp add: last_notified_def fun_eq_iff)

lemma last_notified_append [simp]:
  "last_notified (b\<lparr>notified := l @ [(m, s)]\<rparr>) n =
     (if n = m then s else last_notified (b\<lparr>notified := l\<rparr>) n)"
  by (simp add: last_notified_def)

lemma circuit_of_view [simp]: "fst (circuit_of n b) = circuit_view b n"
  by (simp add: circuit_of_def circuit_view_def split: option.splits)

lemma breaker_invD: "breaker_inv b \<Longrightarrow> circuit_ok (threshold b) (circuit_view b n)"
  by (simp add: breaker_inv_def)

lemma breaker_inv_put:
  "breaker_inv b \<Longrightarrow> circuit_ok (threshold b) c \<Longrightarrow>
     circuit_state c = circuit_state (circuit_view b n) \<Longrightarrow> breaker_inv (put_circuit n c b)"
  by (simp add: breaker_inv_def)

lemma circuit_of_inv: "breaker_inv b \<Longrightarrow> breaker_inv (snd (circuit_of n b))"
  using breaker_invD [of b n]
  by (auto simp: circuit_of_def circuit_view_def split: option.splits intro!: breaker_inv_put)

lemma breaker_inv_transition:
  "breaker_inv b \<Longrightarrow> circuit_ok (threshold b) (c\<lparr>circuit_state := s\<rparr>) \<Longrightarrow>
     breaker_inv (snd (transition n c s b))"
  by (auto simp: breaker_inv_def transition_def Let_def last_notified_def)

lemma circuit_of_snd [simp]:
  "threshold (snd (circuit_of n b)) = threshold b"
  "cooldown (snd (circuit_of n b)) = cooldown b"
  "circuit_view (snd (circuit_of n b)) m = circuit_view b m"
  by (auto simp: circuit_of_def circuit_view_def put_circuit_def split: option.splits)

lemma transition_fst [simp]: "fst (transition n c s b) = c\<lparr>circuit_state := s\<rparr>"
  by (simp add: transition_def Let_def)

lemma transition_snd [simp]:
  "threshold (snd (transition n c s b)) = threshold b"
  "circuit_view (snd (transition n c s b)) m =
     (if m = n then c\<lparr>circuit_state := s\<rparr> else circuit_view b m)"
  by (auto simp: transition_def Let_def)

lemma Allow_inv:
  assumes "breaker_inv b" shows "breaker_inv (snd (Allow now n b))"
proof -
  note ok = breaker_invD [OF assms, of n]
  note base = circuit_of_inv [OF assms, of n]
  from ok base show ?thesis
    by (auto simp: Allow_def case_prod_unfold Let_def circuit_ok_def split: CircuitState.splits
        intro!: breaker_inv_put breaker_inv_transition)
qed

lemma ReportSuccess_inv:
  assumes "breaker_inv b" shows "breaker_inv (ReportSuccess n b)"
proof -
  have th: "1 \<le> threshold b" using assms by (simp add: breaker_inv_def)
  note ok = breaker_invD [OF assms, of n]
  note base = circuit_of_inv [OF assms, of n]
  from th ok base show ?thesis
    by (auto simp: ReportSuccess_def case_prod_unfold Let_def circuit_ok_def
        split: CircuitState.splits intro!: breaker_inv_put breaker_inv_transition)
qed

lemma ReportCanceled_inv:
  assumes "breaker_inv b" shows "breaker_inv (ReportCanceled n b)"
  using breaker_invD [OF assms, of n] circuit_of_inv [OF assms, of n]
  by (auto simp: ReportCanceled_def case_prod_unfold Let_def circuit_ok_def intro!: breaker_inv_put)

lemma ReportFailure_inv:
  assumes "breaker_inv b" shows "breaker_inv (ReportFailure now n b)"
  using breaker_invD [OF assms, of n] circuit_of_inv [OF assms, of n]
  by (auto simp: ReportFailure_def open_circuit_def case_prod_unfold Let_def circuit_ok_def
      split: CircuitState.splits intro!: breaker_inv_put breaker_inv_transition)

lemma breaker_step_inv: "breaker_inv b \<Longrightarrow> breaker_inv (breaker_step b e)"
  by (cases e) (simp_all add: Allow_inv ReportSuccess_inv ReportCanceled_inv ReportFailure_inv
      Breaker_State_def case_prod_unfold circuit_of_inv)

interpretation breaker: guarded_object breaker_step breaker_inv
  by unfold_locales (rule breaker_step_inv)

subsection \<open>Properties of every execution\<close>

lemma gate_closed_iff:
  "(\<exists>k. gate_of b n = Gate_Closed k) \<longleftrightarrow> circuit_state (circuit_view b n) = CircuitStateClosed"
  by (auto simp: abs_circuit_def split: CircuitState.splits)

lemma breaker_run_gate:
  "gate_of (breaker_run b es) n =
     foldl (gate_step (threshold b) (cooldown b)) (gate_of b n)
       (filter (\<lambda>e. event_backend e = n) es)"
  by (induction es arbitrary: b) (simp_all add: breaker_step_gate)

text \<open>C1: The breaker refines one independent abstract gate per backend: after any
  interleaving of \<open>Allow\<close>, \<open>ReportSuccess\<close>, \<open>ReportFailure\<close>, \<open>ReportCanceled\<close> and
  \<open>State\<close> calls, the circuit of a backend is what the gate makes of that backend's own calls
  alone, and the next \<open>Allow\<close> answers as the gate does. Calls for other backends never matter.\<close>

theorem breaker_refines_gate:
  "gate_of (breaker_run b es) n =
     foldl (gate_step (threshold b) (cooldown b)) (gate_of b n)
       (filter (\<lambda>e. event_backend e = n) es)
   \<and> fst (Allow now n (breaker_run b es)) =
       fst (gate_allow (cooldown b) now (gate_of (breaker_run b es) n))"
  by (simp add: breaker_run_gate Allow_gate)

text \<open>In every execution from a new breaker with a positive threshold the field invariant
  holds; in particular a registered listener has last been told the state each circuit is in,
  so the exported gauge value is the gauge value of the current state.\<close>

theorem breaker_inv_reachable:
  assumes "1 \<le> th"
  shows "breaker_inv (breaker_run (NewBreaker th cd listener) es)
    \<and> (listener \<longrightarrow> CircuitStateGaugeValue (last_notified (breaker_run (NewBreaker th cd listener) es) n)
        = CircuitStateGaugeValue (fst (Breaker_State n (breaker_run (NewBreaker th cd listener) es))))"
proof -
  let ?b = "breaker_run (NewBreaker th cd listener) es"
  have inv: "breaker_inv ?b"
    using breaker_inv_New [OF assms] by (rule breaker.run_inv)
  have "onChange ?b = listener" by (simp add: NewBreaker_def)
  with inv show ?thesis
    by (auto simp: breaker_inv_def Breaker_State_def case_prod_unfold)
qed

theorem breaker_inv_reachable_witness:
  "CircuitStateGaugeValue (last_notified
     (breaker_run (NewBreaker 1 10 True) [EvFailure 0 ''a'', EvAllow 20 ''a'']) ''a'')
   = CircuitStateGaugeValue (fst (Breaker_State ''a''
     (breaker_run (NewBreaker 1 10 True) [EvFailure 0 ''a'', EvAllow 20 ''a''])))"
  using breaker_inv_reachable [of 1 10 True "[EvFailure 0 ''a'', EvAllow 20 ''a'']" "''a''"] by simp

subsubsection \<open>The failure threshold\<close>

fun is_failure :: "breaker_event \<Rightarrow> bool" where
  "is_failure (EvFailure _ _) = True"
| "is_failure _ = False"

fun is_success :: "breaker_event \<Rightarrow> bool" where
  "is_success (EvSuccess _) = True"
| "is_success _ = False"

definition failure_count :: "string \<Rightarrow> breaker_event list \<Rightarrow> nat" where
  "failure_count n es = length (filter (\<lambda>e. is_failure e \<and> event_backend e = n) es)"

lemma gate_not_closed_stays:
  "list_all (\<lambda>e. \<not> is_success e) es \<Longrightarrow> \<nexists>k. g = Gate_Closed k \<Longrightarrow>
     \<nexists>k. foldl (gate_step th cd) g es = Gate_Closed k"
proof (induction es arbitrary: g)
  case Nil
  then show ?case by simp
next
  case (Cons e es)
  then show ?case by (cases e; cases g) auto
qed

lemma gate_threshold:
  assumes "list_all (\<lambda>e. \<not> is_success e) es" and "k < th"
  shows "(if k + int (length (filter is_failure es)) < th
          then foldl (gate_step th cd) (Gate_Closed k) es
             = Gate_Closed (k + int (length (filter is_failure es)))
          else \<nexists>j. foldl (gate_step th cd) (Gate_Closed k) es = Gate_Closed j)"
  using assms
proof (induction es arbitrary: k)
  case Nil
  then show ?case by simp
next
  case (Cons e es)
  show ?case
  proof (cases "is_failure e")
    case True
    then obtain now m where e: "e = EvFailure now m" by (cases e) auto
    show ?thesis
    proof (cases "k + 1 < th")
      case True
      with Cons e show ?thesis using Cons.IH [of "k + 1"] by (auto simp: algebra_simps)
    next
      case False
      with Cons.prems e show ?thesis
        using gate_not_closed_stays [of es "Gate_Open now" th cd] by auto
    qed
  next
    case False
    with Cons.prems have "gate_step th cd (Gate_Closed k) e = Gate_Closed k"
      by (cases e) auto
    with False Cons show ?thesis by simp
  qed
qed

text \<open>A circuit that has just been closed (or was never used) opens exactly when the
  threshold is reached: as long as no success is reported for the backend, it is closed after
  a run if and only if the run reported fewer than \<open>threshold\<close> transient failures for it,
  however the calls interleave with \<open>Allow\<close>, cancellations and other backends.\<close>

theorem breaker_opens_at_threshold:
  assumes "gate_of b n = Gate_Closed 0" and "1 \<le> threshold b"
    and "\<forall>e \<in> set es. event_backend e = n \<longrightarrow> \<not> is_success e"
  shows "fst (Breaker_State n (breaker_run b es)) = CircuitStateClosed
     \<longleftrightarrow> int (failure_count n es) < threshold b"
proof -
  let ?own = "filter (\<lambda>e. event_backend e = n) es"
  have own: "list_all (\<lambda>e. \<not> is_success e) ?own"
    using assms(3) by (auto simp: list_all_iff)
  have count: "length (filter is_failure ?own) = failure_count n es"
    by (simp add: failure_count_def conj_commute)
  have "(\<exists>k. gate_of (breaker_run b es) n = Gate_Closed k) \<longleftrightarrow> int (failure_count n es) < threshold b"
    using gate_threshold [OF own, of 0 "threshold b" "cooldown b"] assms(1,2) count
    by (auto simp: breaker_run_gate split: if_splits)
  then show ?thesis
    unfolding gate_closed_iff by (simp add: Breaker_State_def case_prod_unfold)
qed

theorem breaker_opens_at_threshold_witness:
  "(fst (Breaker_State ''a'' (breaker_run (NewBreaker 2 10 False)
       [EvFailure 0 ''a'', EvFailure 5 ''b'', EvFailure 7 ''a''])) = CircuitStateClosed)
   = (int (failure_count ''a'' [EvFailure 0 ''a'', EvFailure 5 ''b'', EvFailure 7 ''a'']) < 2)"
  using breaker_opens_at_threshold [of "NewBreaker 2 10 False" "''a''"
      "[EvFailure 0 ''a'', EvFailure 5 ''b'', EvFailure 7 ''a'']"]
  by (simp add: NewBreaker_def circuit_view_def abs_circuit_def new_circuit_def)

subsubsection \<open>Open circuits and the single probe\<close>

lemma grants_step:
  "grants n b (e # es) =
     (if event_backend e = n \<and> (\<exists>now. e = EvAllow now n \<and>
          fst (gate_allow (cooldown b) now (gate_of b n))) then 1 else 0)
     + grants n (breaker_step b e) es"
  by (cases e) (auto simp: Allow_gate)

lemma grants_half_probing:
  assumes "\<forall>e \<in> set es. event_backend e = n \<longrightarrow> \<not> is_report e"
  shows "gate_of b n = Gate_Half True \<Longrightarrow> grants n b es = 0"
  using assms
proof (induction es arbitrary: b)
  case Nil
  then show ?case by simp
next
  case (Cons e es)
  have "gate_of (breaker_step b e) n = Gate_Half True"
    unfolding breaker_step_gate using Cons.prems by (cases e) auto
  with Cons show ?case by (auto simp: grants_step simp del: grants.simps)
qed

text \<open>C14: A tripped circuit admits at most one probe: from any state in which the backend's
  circuit is not closed, a run with no report for that backend grants at most one of its
  \<open>Allow\<close> calls, whatever the clock readings and the other backends' calls.\<close>

theorem at_most_one_probe:
  assumes "circuit_state (circuit_view b n) \<noteq> CircuitStateClosed"
    and "\<forall>e \<in> set es. event_backend e = n \<longrightarrow> \<not> is_report e"
  shows "grants n b es \<le> 1"
  using assms
proof (induction es arbitrary: b)
  case Nil
  then show ?case by simp
next
  case (Cons e es)
  from Cons.prems(1) have nc: "\<nexists>k. gate_of b n = Gate_Closed k"
    by (simp add: gate_closed_iff)
  show ?case
  proof (cases "gate_of (breaker_step b e) n = Gate_Half True")
    case True
    with Cons.prems(2) have "grants n (breaker_step b e) es = 0"
      by (intro grants_half_probing) auto
    then show ?thesis by (simp add: grants_step del: grants.simps)
  next
    case False
    have "\<nexists>k. gate_of (breaker_step b e) n = Gate_Closed k"
      unfolding breaker_step_gate using Cons.prems(2) nc
      by (cases e; cases "gate_of b n") auto
    then have "grants n (breaker_step b e) es \<le> 1"
      using Cons by (simp add: gate_closed_iff)
    moreover have "grants n b (e # es) = grants n (breaker_step b e) es"
      using False nc unfolding breaker_step_gate
      by (cases e; cases "gate_of b n") (auto simp: Allow_gate split: if_splits)
    ultimately show ?thesis by simp
  qed
qed

theorem at_most_one_probe_witness:
  "grants ''a'' (breaker_run (NewBreaker 1 10 False) [EvFailure 0 ''a''])
     [EvAllow 5 ''a'', EvAllow 20 ''a'', EvSuccess ''b'', EvAllow 30 ''a''] \<le> 1"
proof (rule at_most_one_probe)
  let ?b = "breaker_run (NewBreaker 1 10 False) [EvFailure 0 ''a'']"
  show "circuit_state (circuit_view ?b ''a'') \<noteq> CircuitStateClosed" by code_simp
  show "\<forall>e \<in> set [EvAllow 5 ''a'', EvAllow 20 ''a'', EvSuccess ''b'', EvAllow 30 ''a''].
      event_backend e = ''a'' \<longrightarrow> \<not> is_report e"
    by code_simp
qed

fun allow_before :: "string \<Rightarrow> time \<Rightarrow> duration \<Rightarrow> breaker_event \<Rightarrow> bool" where
  "allow_before n t cd (EvAllow now m) \<longleftrightarrow> (m = n \<longrightarrow> time_Sub now t < cd)"
| "allow_before n t cd _ \<longleftrightarrow> True"

text \<open>While the cooldown runs, an open circuit lets nothing through and nothing moves it:
  if every \<open>Allow\<close> for the backend reads the clock before the cooldown has elapsed, none is
  granted and the circuit is still open with its original opening time, even though straggling
  successes, failures and cancellations are reported meanwhile (they cannot close it, and they
  cannot extend the cooldown).\<close>

theorem open_until_cooldown:
  assumes "gate_of b n = Gate_Open t"
    and "\<forall>e \<in> set es. allow_before n t (cooldown b) e"
  shows "grants n b es = 0 \<and> gate_of (breaker_run b es) n = Gate_Open t"
  using assms
proof (induction es arbitrary: b)
  case Nil
  then show ?case by simp
next
  case (Cons e es)
  have "gate_of (breaker_step b e) n = Gate_Open t"
    unfolding breaker_step_gate using Cons.prems by (cases e) auto
  moreover have "grants n b (e # es) = grants n (breaker_step b e) es"
    using Cons.prems by (cases e) (auto simp: Allow_gate)
  ultimately show ?case using Cons by simp
qed

theorem open_until_cooldown_witness:
  "grants ''a'' (breaker_run (NewBreaker 1 10 False) [EvFailure 3 ''a''])
     [EvAllow 5 ''a'', EvSuccess ''a'', EvFailure 9 ''a'', EvAllow 12 ''a''] = 0
   \<and> gate_of (breaker_run (breaker_run (NewBreaker 1 10 False) [EvFailure 3 ''a''])
     [EvAllow 5 ''a'', EvSuccess ''a'', EvFailure 9 ''a'', EvAllow 12 ''a'']) ''a'' = Gate_Open 3"
proof (rule open_until_cooldown)
  let ?b = "breaker_run (NewBreaker 1 10 False) [EvFailure 3 ''a'']"
  show "gate_of ?b ''a'' = Gate_Open 3" by code_simp
  show "\<forall>e \<in> set [EvAllow 5 ''a'', EvSuccess ''a'', EvFailure 9 ''a'', EvAllow 12 ''a''].
      allow_before ''a'' 3 (cooldown ?b) e"
    by code_simp
qed

text \<open>C28: A tripped circuit can always recover: once the cooldown has elapsed the next
  \<open>Allow\<close> is granted as the probe; a reported success then closes the circuit with its
  failure count reset, a reported failure opens it again from the time of the failure, and a
  cancellation hands the probe slot back so that the following \<open>Allow\<close> is granted.\<close>

theorem breaker_recovers:
  assumes "gate_of b n = Gate_Open t" and "cooldown b \<le> time_Sub now t"
  shows "fst (Allow now n b)
    \<and> gate_of (ReportSuccess n (snd (Allow now n b))) n = Gate_Closed 0
    \<and> gate_of (ReportFailure later n (snd (Allow now n b))) n = Gate_Open later
    \<and> fst (Allow later n (ReportCanceled n (snd (Allow now n b))))"
proof -
  let ?b = "breaker_step b (EvAllow now n)"
  have granted: "fst (Allow now n b)" using assms by (simp add: Allow_gate)
  have half: "gate_of ?b n = Gate_Half True"
    using assms breaker_step_gate_self [of "EvAllow now n" n b] by simp
  have "gate_of (breaker_step ?b (EvSuccess n)) n = Gate_Closed 0"
    and "gate_of (breaker_step ?b (EvFailure later n)) n = Gate_Open later"
    and cancel: "gate_of (breaker_step ?b (EvCanceled n)) n = Gate_Half False"
    using half by (simp_all add: breaker_step_gate_self del: breaker_step.simps)
  moreover have "fst (Allow later n (breaker_step ?b (EvCanceled n)))"
    unfolding Allow_gate cancel by simp
  ultimately show ?thesis using granted by simp
qed

theorem breaker_recovers_witness:
  "fst (Allow 20 ''a'' (breaker_run (NewBreaker 1 10 False) [EvFailure 0 ''a'']))"
proof -
  let ?b = "breaker_run (NewBreaker 1 10 False) [EvFailure 0 ''a'']"
  have "gate_of ?b ''a'' = Gate_Open 0" and "cooldown ?b \<le> time_Sub 20 0"
    by code_simp+
  then show ?thesis by (rule breaker_recovers [THEN conjunct1])
qed

end
