(* ===== verification/Db.thy ===== *)
theory Db
  imports Models Go_Strings
begin

section \<open>What the repositories share (internal/db/errors.go, routingpolicy_repo.go)\<close>

text \<open>
  Driver errors and the two sentinels the repositories map them to, the faults a statement can meet,
  and the normalisation of JSON arguments. A statement is atomic: it may fail before it ran, or its
  answer may be lost after it committed.
\<close>

datatype pg_error = PgxErrNoRows | SqlErrNoRows | PgCode string | PgOther string

datatype db_error = DB_ErrNotFound | DB_Err pg_error

definition uniqueViolationCode :: string where "uniqueViolationCode = ''23505''"

definition IsUniqueViolation :: "db_error \<Rightarrow> bool" where
  "IsUniqueViolation err = (case err of DB_Err (PgCode c) \<Rightarrow> c = uniqueViolationCode | _ \<Rightarrow> False)"

definition mapNotFound :: "pg_error \<Rightarrow> db_error" where
  "mapNotFound err =
     (if err = PgxErrNoRows \<or> err = SqlErrNoRows then DB_ErrNotFound else DB_Err err)"

datatype fault = NoFault | FailBefore string | FailAfter string

text \<open>Run one statement (or transaction) \<open>f\<close> against the table \<open>t\<close> under a fault.\<close>

fun exec_sql :: "fault \<Rightarrow> ('t \<Rightarrow> (pg_error + 'a) \<times> 't) \<Rightarrow> 't \<Rightarrow> (pg_error + 'a) \<times> 't" where
  "exec_sql NoFault f t = f t"
| "exec_sql (FailBefore m) f t = (Inl (PgOther m), t)"
| "exec_sql (FailAfter m) f t = (Inl (PgOther m), snd (f t))"

lemma exec_sql_Inr: "exec_sql fl f t = (Inr x, t') \<longleftrightarrow> fl = NoFault \<and> f t = (Inr x, t')"
  by (cases fl) auto

lemma exec_sql_NoRows: "exec_sql fl f t = (Inl PgxErrNoRows, t') \<longleftrightarrow> fl = NoFault \<and> f t = (Inl PgxErrNoRows, t')"
  by (cases fl) auto

lemma exec_sql_snd: "snd (exec_sql fl f t) = t \<or> snd (exec_sql fl f t) = snd (f t)"
  by (cases fl) auto

lemma exec_sql_keeps: "P t \<Longrightarrow> P (snd (f t)) \<Longrightarrow> P (snd (exec_sql fl f t))"
  by (cases fl) auto

text \<open>\<open>nil\<close> is \<open>None\<close>.\<close>

definition normalizeJSONB :: "string \<Rightarrow> string option" where
  "normalizeJSONB raw = (if length (TrimSpace raw) = 0 then None else Some raw)"

text \<open>
  What Postgres does with a bound JSON text and with an interval given in seconds: the stored and
  printed form of a \<open>jsonb\<close> value (\<open>None\<close> when the text is rejected), and the interval that
  \<open>make_interval(secs => d.Seconds())\<close> denotes.
\<close>

record postgres =
  pg_jsonb :: "string \<Rightarrow> string option"
  pg_interval :: "duration \<Rightarrow> duration"

text \<open>Binding an optional JSON argument: rejected, NULL, or the stored form.\<close>

definition bind_jsonb :: "postgres \<Rightarrow> string option \<Rightarrow> pg_error + string option" where
  "bind_jsonb pg a =
     (case a of
        None \<Rightarrow> Inr None
      | Some raw \<Rightarrow> (case pg_jsonb pg raw of None \<Rightarrow> Inl (PgCode ''22P02'') | Some j \<Rightarrow> Inr (Some j)))"

end
