(* ===== verification/Selector.thy ===== *)
theory Selector
  imports Circuit Db
begin

section \<open>Backend selection (internal/routing/selector.go)\<close>

text \<open>
  The \<open>Selector\<close> filters the enabled backends of a model, orders them by priority with a
  weighted random order inside a priority, and hands out the first one that has a free
  in-flight slot and whose circuit allows it.

  Code outside the repository is a parameter: the two stores' answers (\<open>policies\<close>,
  \<open>backends\<close>) and the random generator \<open>intn\<close> (\<open>rand.Rand.Intn\<close>: a state to a draw and
  the next state). Semaphores are Go pointers that requests keep after the map entry has been
  replaced, so they live in an explicit heap \<open>sem_heap\<close> and \<open>sems\<close> maps a backend id to an
  address. The release closure with its \<open>sync.Once\<close> is a handle: the semaphore address and
  the backend name it captured and whether it has run.
\<close>

subsection \<open>Errors, stores and results\<close>

datatype select_error =
    ErrNoBackends
  | ErrNoCapacity
  | LoadPolicyErr db_error
  | ListBackendsErr db_error

type_synonym policy_store = "string \<Rightarrow> db_error + RoutingPolicy"
type_synonym backend_store = "string \<Rightarrow> db_error + ModelBackend list"
type_synonym 'r intn = "'r \<Rightarrow> int \<Rightarrow> int \<times> 'r"

definition fallbackPolicyName :: string where "fallbackPolicyName = ''default''"
definition fallbackStrategy :: string where "fallbackStrategy = StrategyPriorityWeighted"

record Selection =
  sel_Backend :: ModelBackend
  sel_PolicyName :: string
  sel_Strategy :: string

subsection \<open>Semaphores\<close>

record semaphore =
  capacity :: int
  slots :: nat

definition newSemaphore :: "int \<Rightarrow> semaphore" where
  "newSemaphore c = \<lparr>capacity = c, slots = 0\<rparr>"

definition tryAcquire :: "semaphore \<Rightarrow> bool \<times> semaphore" where
  "tryAcquire sem =
     (if int (slots sem) < capacity sem then (True, sem\<lparr>slots := Suc (slots sem)\<rparr>)
      else (False, sem))"

definition sem_release :: "semaphore \<Rightarrow> semaphore" where
  "sem_release sem = (if slots sem = 0 then sem else sem\<lparr>slots := slots sem - 1\<rparr>)"

record release_handle =
  rh_sem :: nat
  rh_backend :: string
  rh_done :: bool

record 'r Selector =
  has_metrics :: bool
  rng :: 'r
  sems :: "uuid \<rightharpoonup> nat"
  sem_heap :: "semaphore list"
  handles :: "release_handle list"
  BackendInFlight :: "string \<Rightarrow> int"
  CircuitShortCircuitsTotal :: "string \<Rightarrow> nat"

definition NewSelector :: "bool \<Rightarrow> 'r \<Rightarrow> 'r Selector" where
  "NewSelector m r =
     \<lparr>has_metrics = m, rng = r, sems = Map.empty, sem_heap = [], handles = [],
      BackendInFlight = (\<lambda>_. 0), CircuitShortCircuitsTotal = (\<lambda>_. 0)\<rparr>"

definition semaphoreFor :: "ModelBackend \<Rightarrow> 'r Selector \<Rightarrow> nat \<times> 'r Selector" where
  "semaphoreFor b s =
     (let fresh = (length (sem_heap s),
                   s\<lparr>sem_heap := sem_heap s @ [newSemaphore (mb_MaxInFlight b)],
                     sems := (sems s)(mb_ID b \<mapsto> length (sem_heap s))\<rparr>)
      in case sems s (mb_ID b) of
           None \<Rightarrow> fresh
         | Some a \<Rightarrow> (if capacity (sem_heap s ! a) \<noteq> mb_MaxInFlight b then fresh else (a, s)))"

definition observeShortCircuit :: "string \<Rightarrow> 'r Selector \<Rightarrow> 'r Selector" where
  "observeShortCircuit n s =
     (if has_metrics s
      then s\<lparr>CircuitShortCircuitsTotal :=
               (CircuitShortCircuitsTotal s)(n := CircuitShortCircuitsTotal s n + 1)\<rparr>
      else s)"

definition observeInFlight :: "string \<Rightarrow> int \<Rightarrow> 'r Selector \<Rightarrow> 'r Selector" where
  "observeInFlight n delta s =
     (if has_metrics s
      then s\<lparr>BackendInFlight := (BackendInFlight s)(n := BackendInFlight s n + delta)\<rparr>
      else s)"

definition InFlight :: "uuid \<Rightarrow> 'r Selector \<Rightarrow> nat" where
  "InFlight i s = (case sems s i of None \<Rightarrow> 0 | Some a \<Rightarrow> slots (sem_heap s ! a))"

text \<open>Running the release closure with handle \<open>h\<close>: \<open>once.Do\<close> runs its body the first time only.\<close>

definition release_call :: "nat \<Rightarrow> 'r Selector \<Rightarrow> 'r Selector" where
  "release_call h s =
     (if h < length (handles s) \<and> \<not> rh_done (handles s ! h)
      then let r = handles s ! h; a = rh_sem r
           in observeInFlight (rh_backend r) (- 1)
                (s\<lparr>sem_heap := (sem_heap s)[a := sem_release (sem_heap s ! a)],
                   handles := (handles s)[h := r\<lparr>rh_done := True\<rparr>]\<rparr>)
      else s)"

subsection \<open>Ordering the candidates\<close>

text \<open>The inner loop of \<open>weightedShuffle\<close>: subtract weights until the draw goes negative.\<close>

fun pick :: "int \<Rightarrow> ModelBackend list \<Rightarrow> (ModelBackend \<times> ModelBackend list) option" where
  "pick n [] = None"
| "pick n (b # bs) =
     (if n - mb_Weight b < 0 then Some (b, bs)
      else map_option (\<lambda>(x, rest). (x, b # rest)) (pick (n - mb_Weight b) bs))"

definition total_weight :: "ModelBackend list \<Rightarrow> int" where
  "total_weight pool = sum_list (map mb_Weight pool)"

text \<open>
  The outer loop. \<open>Intn\<close> panics on a bound that is not positive, and a draw that picks nothing
  makes the loop go round again: \<open>None\<close> is "does not return normally".
\<close>

partial_function (option) draw_loop ::
  "'r intn \<Rightarrow> 'r \<Rightarrow> ModelBackend list \<Rightarrow> ModelBackend list \<Rightarrow> ('r \<times> ModelBackend list) option"
where
  "draw_loop intn r pool out =
     (if pool = [] then Some (r, out)
      else if total_weight pool \<le> 0 then None
      else case intn r (total_weight pool) of (n, r') \<Rightarrow>
        (case pick n pool of
           Some (b, pool') \<Rightarrow> draw_loop intn r' pool' (out @ [b])
         | None \<Rightarrow> draw_loop intn r' pool out))"

definition weightedShuffle ::
  "'r intn \<Rightarrow> 'r \<Rightarrow> ModelBackend list \<Rightarrow> ('r \<times> ModelBackend list) option" where
  "weightedShuffle intn r tier =
     (if length tier = 1 then Some (r, tier) else draw_loop intn r tier [])"

text \<open>The tier loop of \<open>order\<close>, over the list that \<open>sort.SliceStable\<close> has sorted by priority.\<close>

function order_tiers ::
  "'r intn \<Rightarrow> 'r \<Rightarrow> ModelBackend list \<Rightarrow> ('r \<times> ModelBackend list) option" where
  "order_tiers intn r [] = Some (r, [])"
| "order_tiers intn r (b # bs) =
     (let tier = b # takeWhile (\<lambda>x. mb_Priority x = mb_Priority b) bs;
          rest = dropWhile (\<lambda>x. mb_Priority x = mb_Priority b) bs
      in case weightedShuffle intn r tier of
           None \<Rightarrow> None
         | Some (r', out) \<Rightarrow>
             map_option (\<lambda>(r'', out'). (r'', out @ out')) (order_tiers intn r' rest))"
  by pat_completeness auto
termination
  by (relation "measure (\<lambda>(_, _, xs). length xs)")
    (auto simp: le_imp_less_Suc length_dropWhile_le)

definition order ::
  "'r intn \<Rightarrow> 'r \<Rightarrow> ModelBackend list \<Rightarrow> ('r \<times> ModelBackend list) option" where
  "order intn r candidates = order_tiers intn r (sort_key mb_Priority candidates)"

subsection \<open>Select\<close>

definition routable :: "ModelBackend \<Rightarrow> bool" where
  "routable b \<longleftrightarrow>
     \<not> (\<not> mb_Enabled b \<or> mb_Weight b \<le> 0 \<or> mb_Priority b < 0 \<or> mb_MaxInFlight b \<le> 0)"

text \<open>
  The candidate loop. \<open>clk i\<close> is what the breaker's clock reads when the candidate with id
  \<open>i\<close> is consulted. The result is the chosen backend with the handle of its release closure.
\<close>

fun select_loop ::
  "(uuid \<Rightarrow> time) \<Rightarrow> uuid list \<Rightarrow> ModelBackend list \<Rightarrow> 'r Selector \<Rightarrow> Breaker
     \<Rightarrow> (ModelBackend \<times> nat) option \<times> 'r Selector \<times> Breaker" where
  "select_loop clk excluded [] s br = (None, s, br)"
| "select_loop clk excluded (b # bs) s br =
     (if mb_ID b \<in> set excluded then select_loop clk excluded bs s br
      else
        let (a, s) = semaphoreFor b s;
            (ok, sem) = tryAcquire (sem_heap s ! a);
            s = s\<lparr>sem_heap := (sem_heap s)[a := sem]\<rparr>
        in if \<not> ok then select_loop clk excluded bs s br
           else
             let (allowed, br) = Allow (clk (mb_ID b)) (mb_Name b) br
             in if \<not> allowed
                then let s = observeShortCircuit (mb_Name b) s;
                         s = s\<lparr>sem_heap := (sem_heap s)[a := sem_release (sem_heap s ! a)]\<rparr>
                     in select_loop clk excluded bs s br
                else let s = observeInFlight (mb_Name b) 1 s;
                         s' = s\<lparr>handles := handles s @
                                 [\<lparr>rh_sem = a, rh_backend = mb_Name b, rh_done = False\<rparr>]\<rparr>
                     in (Some (b, length (handles s)), s', br))"

definition policy_of :: "policy_store \<Rightarrow> string \<Rightarrow> select_error + string \<times> string" where
  "policy_of policies model =
     (case policies model of
        Inr p \<Rightarrow> Inr (rp_Name p, rp_Strategy p)
      | Inl DB_ErrNotFound \<Rightarrow> Inr (fallbackPolicyName, fallbackStrategy)
      | Inl e \<Rightarrow> Inl (LoadPolicyErr e))"

text \<open>\<open>None\<close> is "does not return normally" (see \<open>draw_loop\<close>).\<close>

definition Select ::
  "'r intn \<Rightarrow> policy_store \<Rightarrow> backend_store \<Rightarrow> (uuid \<Rightarrow> time) \<Rightarrow> string \<Rightarrow> uuid list
     \<Rightarrow> 'r Selector \<Rightarrow> Breaker
     \<Rightarrow> ((select_error + Selection \<times> nat) \<times> 'r Selector \<times> Breaker) option" where
  "Select intn policies backends clk model exclude s br =
     (case policy_of policies model of
        Inl e \<Rightarrow> Some (Inl e, s, br)
      | Inr (policyName, strategy) \<Rightarrow>
          (case backends model of
             Inl e \<Rightarrow> Some (Inl (ListBackendsErr e), s, br)
           | Inr list \<Rightarrow>
               (let candidates = filter routable list in
                if candidates = [] then Some (Inl ErrNoBackends, s, br)
                else case order intn (rng s) candidates of
                  None \<Rightarrow> None
                | Some (r', ordered) \<Rightarrow>
                    (case select_loop clk exclude ordered (s\<lparr>rng := r'\<rparr>) br of
                       (Some (b, h), s', br') \<Rightarrow>
                         Some (Inr (\<lparr>sel_Backend = b, sel_PolicyName = policyName,
                                     sel_Strategy = strategy\<rparr>, h), s', br')
                     | (None, s', br') \<Rightarrow> Some (Inl ErrNoCapacity, s', br')))))"


subsection \<open>The order is a permutation, sorted by priority\<close>

text \<open>What the code relies on of \<open>rand.Rand.Intn\<close>: a draw lies in \<open>[0, n)\<close> for a positive \<open>n\<close>.\<close>

definition intn_ok :: "'r intn \<Rightarrow> bool" where
  "intn_ok intn \<longleftrightarrow> (\<forall>r n. 0 < n \<longrightarrow> 0 \<le> fst (intn r n) \<and> fst (intn r n) < n)"

lemma total_weight_simps [simp]:
  "total_weight [] = 0" "total_weight (b # bs) = mb_Weight b + total_weight bs"
  by (simp_all add: total_weight_def)

lemma total_weight_pos:
  "\<forall>b \<in> set pool. 0 < mb_Weight b \<Longrightarrow> pool \<noteq> [] \<Longrightarrow> 0 < total_weight pool"
proof (induction pool)
  case (Cons b bs)
  then show ?case by (cases bs) auto
qed simp

lemma pick_Some:
  "0 \<le> n \<Longrightarrow> n < total_weight pool \<Longrightarrow> \<exists>b rest. pick n pool = Some (b, rest)"
proof (induction pool arbitrary: n)
  case (Cons b bs)
  then show ?case using Cons.IH [of "n - mb_Weight b"] by auto
qed simp

lemma pick_mset: "pick n pool = Some (b, rest) \<Longrightarrow> mset pool = add_mset b (mset rest)"
  by (induction pool arbitrary: n rest) (auto split: if_splits)

lemma draw_loop_permutes:
  assumes "intn_ok intn"
  shows "\<forall>b \<in> set pool. 0 < mb_Weight b \<Longrightarrow>
     \<exists>r' out'. draw_loop intn r pool out = Some (r', out') \<and> mset out' = mset out + mset pool"
proof (induction "length pool" arbitrary: pool r out)
  case 0
  then show ?case by (simp add: draw_loop.simps)
next
  case (Suc k)
  then have ne: "pool \<noteq> []" by auto
  with Suc.prems have pos: "0 < total_weight pool" by (rule total_weight_pos)
  obtain n r1 where draw: "intn r (total_weight pool) = (n, r1)" by fastforce
  with assms pos have "0 \<le> n" and "n < total_weight pool"
    unfolding intn_ok_def by (metis fst_conv)+
  then obtain b rest where pk: "pick n pool = Some (b, rest)" using pick_Some by blast
  note ms = pick_mset [OF pk]
  then have "length pool = Suc (length rest)" by (metis size_add_mset size_mset)
  with Suc.hyps(2) have len: "k = length rest" by simp
  have "set pool = insert b (set rest)"
    using ms by (metis set_mset_add_mset_insert set_mset_mset)
  with Suc.prems have "\<forall>b \<in> set rest. 0 < mb_Weight b" by simp
  then obtain r' out' where "draw_loop intn r1 rest (out @ [b]) = Some (r', out')"
    and "mset out' = mset (out @ [b]) + mset rest"
    using Suc.hyps(1) [OF len] by blast
  then have "draw_loop intn r pool out = Some (r', out') \<and> mset out' = mset out + mset pool"
    using ne pos draw pk ms by (subst draw_loop.simps) simp
  then show ?case by blast
qed

lemma weightedShuffle_permutes:
  assumes "intn_ok intn" and "\<forall>b \<in> set tier. 0 < mb_Weight b"
  obtains r' out where "weightedShuffle intn r tier = Some (r', out)" "mset out = mset tier"
proof (cases "length tier = 1")
  case True
  then show ?thesis using that by (simp add: weightedShuffle_def)
next
  case False
  then show ?thesis using draw_loop_permutes [OF assms, of r "[]"] that
    by (auto simp: weightedShuffle_def)
qed

lemma order_tiers_correct:
  assumes "intn_ok intn"
  shows "\<forall>b \<in> set bs. 0 < mb_Weight b \<Longrightarrow> sorted (map mb_Priority bs) \<Longrightarrow>
     \<exists>r' out. order_tiers intn r bs = Some (r', out) \<and> mset out = mset bs
           \<and> sorted (map mb_Priority out)"
proof (induction "length bs" arbitrary: bs r rule: less_induct)
  case less
  show ?case
  proof (cases bs)
    case Nil
    then show ?thesis by simp
  next
    case (Cons b cs)
    let ?same = "\<lambda>x. mb_Priority x = mb_Priority b"
    let ?tier = "b # takeWhile ?same cs" and ?rest = "dropWhile ?same cs"
    have split: "bs = ?tier @ ?rest" using Cons by simp
    then have parts: "set ?tier \<subseteq> set bs" "set ?rest \<subseteq> set bs" and "sorted (map mb_Priority ?rest)"
      using less.prems(2) by (metis Un_upper1 Un_upper2 map_append set_append sorted_append)+
    moreover have "length ?rest < length bs"
      using Cons length_dropWhile_le [of ?same cs] by simp
    ultimately have rest: "\<exists>r' out. order_tiers intn r1 ?rest = Some (r', out)
        \<and> mset out = mset ?rest \<and> sorted (map mb_Priority out)" for r1
      using less.hyps less.prems(1) by blast
    obtain r1 out1 where o1: "weightedShuffle intn r ?tier = Some (r1, out1)" "mset out1 = mset ?tier"
      using weightedShuffle_permutes [OF assms] parts(1) less.prems(1) by blast
    obtain r2 out2 where o2: "order_tiers intn r1 ?rest = Some (r2, out2)" "mset out2 = mset ?rest"
      "sorted (map mb_Priority out2)" using rest by blast
    have "set out1 = set ?tier" using o1(2) by (rule mset_eq_setD)
    then have same: "mb_Priority x = mb_Priority b" if "x \<in> set out1" for x
      using that by (auto dest: set_takeWhileD)
    have "set out2 = set ?rest" using o2(2) by (rule mset_eq_setD)
    then have above: "mb_Priority b \<le> mb_Priority x" if "x \<in> set out2" for x
      using that less.prems(2) Cons parts(2) by auto
    have "map mb_Priority out1 = replicate (length out1) (mb_Priority b)"
      using same by (simp add: map_replicate_const [symmetric])
    then have "sorted (map mb_Priority (out1 @ out2))"
      using o2(3) above by (simp add: sorted_append)
    moreover have "order_tiers intn r bs = Some (r2, out1 @ out2)"
      using Cons o1(1) o2(1) by simp
    moreover have "mset (out1 @ out2) = mset bs"
      using o1(2) o2(2) split by (metis mset_append)
    ultimately show ?thesis by blast
  qed
qed

lemma order_correct:
  assumes "intn_ok intn" and "\<forall>b \<in> set cs. 0 < mb_Weight b"
  shows "\<exists>r' out. order intn r cs = Some (r', out) \<and> mset out = mset cs
           \<and> sorted (map mb_Priority out)"
  using order_tiers_correct [OF assms(1), of "sort_key mb_Priority cs" r] assms(2)
  by (simp add: order_def)


text \<open>Ordering the candidates always terminates and loses nobody: for any random generator
  that honours \<open>Intn\<close>'s contract and candidates of positive weight, \<open>order\<close> returns, its
  result is a permutation of the candidates, and it is sorted by priority (lower first), so
  the weighted draw only ever reorders backends of equal priority.\<close>

theorem order_permutes_and_sorts:
  assumes "intn_ok intn" and "\<forall>b \<in> set cs. 0 < mb_Weight b"
  shows "\<exists>r' out. order intn r cs = Some (r', out) \<and> mset out = mset cs
           \<and> sorted (map mb_Priority out)"
  using assms by (rule order_correct)

definition sample_backend :: "uuid \<Rightarrow> string \<Rightarrow> int \<Rightarrow> int \<Rightarrow> ModelBackend" where
  "sample_backend i n p w =
     \<lparr>mb_ID = i, mb_Name = n, mb_BaseURL = ''http://h'', mb_ModelName = ''m'', mb_Kind = BackendKindMock,
      mb_Enabled = True, mb_Priority = p, mb_Weight = w, mb_MaxInFlight = 1, mb_CreatedAt = 0,
      mb_UpdatedAt = 0\<rparr>"

definition zero_intn :: "unit intn" where
  "zero_intn r n = (0, r)"

lemma intn_ok_zero: "intn_ok zero_intn"
  by (simp add: intn_ok_def zero_intn_def)

theorem order_permutes_and_sorts_witness:
  "\<exists>r' out. order zero_intn () [sample_backend 1 ''a'' 20 1, sample_backend 2 ''b'' 10 3] = Some (r', out)
     \<and> mset out = mset [sample_backend 1 ''a'' 20 1, sample_backend 2 ''b'' 10 3]
     \<and> sorted (map mb_Priority out)"
  by (rule order_permutes_and_sorts [OF intn_ok_zero]) (simp add: sample_backend_def)

subsection \<open>The weighted draw\<close>

lemma total_weight_nonneg: "\<forall>b \<in> set pool. 0 < mb_Weight b \<Longrightarrow> 0 \<le> total_weight pool"
  using total_weight_pos by (cases "pool = []") (auto simp: less_imp_le)

lemma pick_interval:
  assumes "\<forall>b \<in> set pool. 0 < mb_Weight b" and "distinct pool" and "i < length pool" and "0 \<le> n"
  shows "(\<exists>rest. pick n pool = Some (pool ! i, rest)) \<longleftrightarrow>
     total_weight (take i pool) \<le> n \<and> n < total_weight (take i pool) + mb_Weight (pool ! i)"
  using assms
proof (induction pool arbitrary: n i)
  case Nil
  then show ?case by simp
next
  case (Cons b bs)
  show ?case
  proof (cases i)
    case 0
    have "b \<noteq> x" if "pick m bs = Some (x, rest)" for m x rest
      using pick_mset [OF that] Cons.prems(2) by (metis distinct.simps(2) set_mset_mset union_single_eq_member set_mset_add_mset_insert insertI1)
    with 0 Cons.prems show ?thesis by (auto split: if_splits)
  next
    case (Suc j)
    have "b \<noteq> bs ! j" using Suc Cons.prems by auto
    moreover have "0 \<le> total_weight (take j bs)"
      using Cons.prems(1) by (intro total_weight_nonneg) (auto dest: in_set_takeD)
    ultimately show ?thesis
      using Cons.IH [of j "n - mb_Weight b"] Cons.prems Suc by (auto split: if_splits)
  qed
qed

text \<open>The tie-break is weighted exactly as documented: of the \<open>total\<close> equally likely
  values of \<open>Intn(total)\<close>, exactly \<open>weight\<close> many make the backend the first pick of its tier,
  so a weight-3 backend is drawn first three times as often as a weight-1 peer.\<close>

theorem first_pick_weight:
  assumes "\<forall>b \<in> set pool. 0 < mb_Weight b" and "distinct pool" and "i < length pool"
  shows "card {n. 0 \<le> n \<and> n < total_weight pool \<and> (\<exists>rest. pick n pool = Some (pool ! i, rest))}
     = nat (mb_Weight (pool ! i))"
proof -
  let ?lo = "total_weight (take i pool)" and ?w = "mb_Weight (pool ! i)"
  have lo: "0 \<le> ?lo"
    using assms(1) by (intro total_weight_nonneg) (auto dest: in_set_takeD)
  have "pool = take i pool @ pool ! i # drop (Suc i) pool"
    using assms(3) by (simp add: id_take_nth_drop)
  then have "total_weight pool = total_weight (take i pool @ pool ! i # drop (Suc i) pool)"
    by simp
  also have "\<dots> = ?lo + ?w + total_weight (drop (Suc i) pool)"
    by (simp add: total_weight_def)
  finally have "?lo + ?w \<le> total_weight pool"
    using assms(1) total_weight_nonneg [of "drop (Suc i) pool"] by (auto dest: in_set_dropD)
  moreover have "(\<exists>rest. pick n pool = Some (pool ! i, rest)) \<longleftrightarrow> ?lo \<le> n \<and> n < ?lo + ?w" if "0 \<le> n" for n
    using pick_interval [OF assms that] .
  ultimately have "0 \<le> n \<and> n < total_weight pool \<and> (\<exists>rest. pick n pool = Some (pool ! i, rest))
     \<longleftrightarrow> n \<in> {?lo ..< ?lo + ?w}" for n
    using lo by (cases "0 \<le> n") auto
  then have "{n. 0 \<le> n \<and> n < total_weight pool \<and> (\<exists>rest. pick n pool = Some (pool ! i, rest))}
     = {?lo ..< ?lo + ?w}" by blast
  then show ?thesis by simp
qed

theorem first_pick_weight_witness:
  "card {n. 0 \<le> n \<and> n < total_weight [sample_backend 1 ''a'' 5 3, sample_backend 2 ''b'' 5 1]
       \<and> (\<exists>rest. pick n [sample_backend 1 ''a'' 5 3, sample_backend 2 ''b'' 5 1]
            = Some ([sample_backend 1 ''a'' 5 3, sample_backend 2 ''b'' 5 1] ! 0, rest))}
   = nat (mb_Weight ([sample_backend 1 ''a'' 5 3, sample_backend 2 ''b'' 5 1] ! 0))"
  by (rule first_pick_weight) (simp_all add: sample_backend_def)

subsection \<open>The candidate loop\<close>

text \<open>
  Whether a candidate could be taken in a given state: its semaphore has a free slot and its
  circuit would allow the call.
\<close>

definition avail_slot :: "ModelBackend \<Rightarrow> 'r Selector \<Rightarrow> bool" where
  "avail_slot b s = (case semaphoreFor b s of (a, s') \<Rightarrow> fst (tryAcquire (sem_heap s' ! a)))"

definition available :: "(uuid \<Rightarrow> time) \<Rightarrow> 'r Selector \<Rightarrow> Breaker \<Rightarrow> ModelBackend \<Rightarrow> bool" where
  "available clk s br b \<longleftrightarrow> avail_slot b s \<and> fst (Allow (clk (mb_ID b)) (mb_Name b) br)"

definition sems_ok :: "'r Selector \<Rightarrow> bool" where
  "sems_ok s \<longleftrightarrow> (\<forall>i a. sems s i = Some a \<longrightarrow> a < length (sem_heap s))"

text \<open>The selector after a candidate was taken.\<close>

definition taken :: "ModelBackend \<Rightarrow> 'r Selector \<Rightarrow> 'r Selector" where
  "taken b s =
     (let (a, s1) = semaphoreFor b s;
          s2 = observeInFlight (mb_Name b) 1
                 (s1\<lparr>sem_heap := (sem_heap s1)[a := snd (tryAcquire (sem_heap s1 ! a))]\<rparr>)
      in s2\<lparr>handles := handles s2 @
              [\<lparr>rh_sem = a, rh_backend = mb_Name b, rh_done = False\<rparr>]\<rparr>)"

lemma observe_fields [simp]:
  "sem_heap (observeShortCircuit n s) = sem_heap s" "sems (observeShortCircuit n s) = sems s"
  "handles (observeShortCircuit n s) = handles s"
  "BackendInFlight (observeShortCircuit n s) = BackendInFlight s"
  "has_metrics (observeShortCircuit n s) = has_metrics s"
  "sem_heap (observeInFlight n d s) = sem_heap s" "sems (observeInFlight n d s) = sems s"
  "handles (observeInFlight n d s) = handles s"
  "has_metrics (observeInFlight n d s) = has_metrics s"
  by (simp_all add: observeShortCircuit_def observeInFlight_def)

lemma semaphoreFor_fields [simp]:
  "handles (snd (semaphoreFor b s)) = handles s"
  "BackendInFlight (snd (semaphoreFor b s)) = BackendInFlight s"
  "has_metrics (snd (semaphoreFor b s)) = has_metrics s"
  by (auto simp: semaphoreFor_def Let_def split: option.splits)

lemma observeShortCircuit_heap:
  "(observeShortCircuit n s)\<lparr>sem_heap := h\<rparr> = observeShortCircuit n (s\<lparr>sem_heap := h\<rparr>)"
  by (simp add: observeShortCircuit_def)

lemma acquire_release: "fst (tryAcquire sem) \<Longrightarrow> sem_release (snd (tryAcquire sem)) = sem"
  by (simp add: tryAcquire_def sem_release_def split: if_splits)

lemma acquire_full: "\<not> fst (tryAcquire sem) \<Longrightarrow> snd (tryAcquire sem) = sem"
  by (simp add: tryAcquire_def split: if_splits)

lemma heap_acquire_release:
  assumes "fst (tryAcquire (h ! a))"
  shows "h[a := sem_release (h[a := snd (tryAcquire (h ! a))] ! a)] = h"
proof (cases "a < length h")
  case True
  then show ?thesis using acquire_release [OF assms] by simp
next
  case False
  then show ?thesis by (simp add: list_update_beyond)
qed

text \<open>One turn of the loop, with the acquire-then-release of a refused candidate cancelled out.\<close>

lemma select_loop_Cons:
  "select_loop clk ex (b # bs) s br =
     (if mb_ID b \<in> set ex then select_loop clk ex bs s br
      else if \<not> avail_slot b s then select_loop clk ex bs (snd (semaphoreFor b s)) br
      else if \<not> fst (Allow (clk (mb_ID b)) (mb_Name b) br)
      then select_loop clk ex bs (observeShortCircuit (mb_Name b) (snd (semaphoreFor b s)))
             (snd (Allow (clk (mb_ID b)) (mb_Name b) br))
      else (Some (b, length (handles s)), taken b s, snd (Allow (clk (mb_ID b)) (mb_Name b) br)))"
proof -
  obtain a s1 where sf: "semaphoreFor b s = (a, s1)" by fastforce
  have hs: "handles s1 = handles s" using semaphoreFor_fields(1) [of b s] sf by simp
  show ?thesis
    using sf hs
    by (simp add: avail_slot_def taken_def case_prod_unfold Let_def acquire_full
        observeShortCircuit_heap heap_acquire_release)
qed

lemma semaphoreFor_heap_nth:
  "sems_ok s \<Longrightarrow> a < length (sem_heap s) \<Longrightarrow> sem_heap (snd (semaphoreFor b s)) ! a = sem_heap s ! a"
  by (auto simp: semaphoreFor_def Let_def nth_append split: option.splits)

lemma semaphoreFor_sems_ok:
  "sems_ok s \<Longrightarrow> sems_ok (snd (semaphoreFor b s)) \<and>
     fst (semaphoreFor b s) < length (sem_heap (snd (semaphoreFor b s)))"
  by (force simp: semaphoreFor_def sems_ok_def Let_def split: option.splits if_splits)

lemma avail_slot_iff:
  "avail_slot b s \<longleftrightarrow>
     (case sems s (mb_ID b) of
        None \<Rightarrow> 0 < mb_MaxInFlight b
      | Some a \<Rightarrow> (if capacity (sem_heap s ! a) \<noteq> mb_MaxInFlight b then 0 < mb_MaxInFlight b
                   else int (slots (sem_heap s ! a)) < capacity (sem_heap s ! a)))"
  by (simp add: avail_slot_def semaphoreFor_def newSemaphore_def tryAcquire_def Let_def
      split: option.splits)

lemma avail_slot_stable:
  assumes "sems_ok s" and "mb_ID c \<noteq> mb_ID b"
  shows "avail_slot c (snd (semaphoreFor b s)) = avail_slot c s"
proof -
  have "sems (snd (semaphoreFor b s)) (mb_ID c) = sems s (mb_ID c)"
    using assms(2) by (auto simp: semaphoreFor_def Let_def split: option.splits)
  then show ?thesis
    using assms(1) semaphoreFor_heap_nth [OF assms(1), of _ b]
    by (auto simp: avail_slot_iff sems_ok_def split: option.splits)
qed

lemma avail_slot_observe [simp]: "avail_slot c (observeShortCircuit n s) = avail_slot c s"
  by (simp add: avail_slot_iff split: option.splits)

lemma sems_ok_observe [simp]: "sems_ok (observeShortCircuit n s) = sems_ok s"
  by (simp add: sems_ok_def)

lemma Allow_other:
  "m \<noteq> n \<Longrightarrow> fst (Allow t m (snd (Allow t' n br))) = fst (Allow t m br)"
  using breaker_step_gate [of br "EvAllow t' n" m] breaker_step_params(2) [of br "EvAllow t' n"]
  by (simp add: Allow_gate)

lemma select_loop_spec:
  fixes s :: "'r Selector"
  assumes "sems_ok s" and "distinct (map mb_ID bs)" and "distinct (map mb_Name bs)"
  shows "map_option fst (fst (select_loop clk ex bs s br)) =
     find (\<lambda>b. mb_ID b \<notin> set ex \<and> available clk s br b) bs"
  using assms
proof (induction bs arbitrary: s br)
  case Nil
  then show ?case by simp
next
  case (Cons b bs)
  let ?s1 = "snd (semaphoreFor b s)" and ?br1 = "snd (Allow (clk (mb_ID b)) (mb_Name b) br)"
  let ?sel = "\<lambda>s br c. mb_ID c \<notin> set ex \<and> available clk s br c"
  have ok1: "sems_ok ?s1" using semaphoreFor_sems_ok Cons.prems(1) by blast
  have stable: "avail_slot c ?s1 = avail_slot c s" if "c \<in> set bs" for c
    using that Cons.prems by (intro avail_slot_stable) (auto simp: image_iff)
  have allow: "fst (Allow t (mb_Name c) ?br1) = fst (Allow t (mb_Name c) br)" if "c \<in> set bs" for c t
    using that Cons.prems(3) by (intro Allow_other) (auto simp: image_iff)
  have IH: "map_option fst (fst (select_loop clk ex bs s' br')) = find (?sel s br) bs"
    if "sems_ok s'" and "\<And>c. c \<in> set bs \<Longrightarrow> available clk s' br' c = available clk s br c" for s' :: "'r Selector" and br'
  proof -
    have "map_option fst (fst (select_loop clk ex bs s' br')) = find (?sel s' br') bs"
      using Cons.IH [OF that(1)] Cons.prems by auto
    also have "\<dots> = find (?sel s br) bs" using that(2) by (intro find_cong) auto
    finally show ?thesis .
  qed
  show ?case
    unfolding select_loop_Cons
    using Cons.prems(1) ok1 stable allow
    by (auto simp: IH available_def)
qed

lemma select_loop_handle:
  "fst (select_loop clk ex bs s br) = Some (b, h) \<Longrightarrow> h = length (handles s)"
proof (induction bs arbitrary: s br)
  case (Cons a bs)
  then show ?case
    using Cons.IH [of "snd (semaphoreFor a s)"]
      Cons.IH [of "observeShortCircuit (mb_Name a) (snd (semaphoreFor a s))"]
    by (auto simp: select_loop_Cons simp del: select_loop.simps(2) split: if_splits)
qed simp

lemma find_Some_least:
  assumes "find P xs = Some x" and "sorted (map f xs)"
  shows "P x \<and> x \<in> set xs \<and> (\<forall>y \<in> set xs. f y < f x \<longrightarrow> \<not> P y)"
  using assms
proof (induction xs)
  case Nil
  then show ?case by simp
next
  case (Cons y ys)
  then show ?case by (cases "P y") auto
qed

lemma sems_ok_rng [simp]: "sems_ok (s\<lparr>rng := r\<rparr>) = sems_ok s"
  by (simp add: sems_ok_def)

lemma available_rng [simp]: "available clk (s\<lparr>rng := r\<rparr>) br = available clk s br"
  by (rule ext) (simp add: available_def avail_slot_iff split: option.splits)

text \<open>What \<open>Select\<close> returns once policy and backends have loaded: the result of \<open>find\<close> over a
  priority-sorted permutation of the routable rows.\<close>

definition distinct_backends :: "ModelBackend list \<Rightarrow> bool" where
  "distinct_backends list \<longleftrightarrow> distinct (map mb_ID list) \<and> distinct (map mb_Name list)"

lemma distinct_map_mset: "mset xs = mset ys \<Longrightarrow> distinct (map f xs) = distinct (map f ys)"
  by (metis mset_map mset_eq_imp_distinct_iff)

lemma Select_loaded:
  assumes "intn_ok intn" and "sems_ok s"
    and "policy_of policies model = Inr (pn, st)" and "backends model = Inr list"
    and "distinct_backends list" and "filter routable list \<noteq> []"
  shows "\<exists>ordered s' br'.
     mset ordered = mset (filter routable list) \<and> sorted (map mb_Priority ordered)
     \<and> Select intn policies backends clk model exclude s br =
         Some (case find (\<lambda>b. mb_ID b \<notin> set exclude \<and> available clk s br b) ordered of
                 None \<Rightarrow> Inl ErrNoCapacity
               | Some b \<Rightarrow> Inr (\<lparr>sel_Backend = b, sel_PolicyName = pn, sel_Strategy = st\<rparr>, length (handles s)),
               s', br')"
proof -
  have "\<forall>b \<in> set (filter routable list). 0 < mb_Weight b" by (auto simp: routable_def)
  from order_correct [OF assms(1) this, of "rng s"] obtain r' ordered where
    ord: "order intn (rng s) (filter routable list) = Some (r', ordered)"
    "mset ordered = mset (filter routable list)" "sorted (map mb_Priority ordered)" by blast
  have "distinct (map mb_ID (filter routable list))" "distinct (map mb_Name (filter routable list))"
    using assms(5) by (auto simp: distinct_backends_def intro: distinct_map_filter)
  then have d: "distinct (map mb_ID ordered)" "distinct (map mb_Name ordered)"
    using ord(2) distinct_map_mset by blast+
  let ?sel = "select_loop clk exclude ordered (s\<lparr>rng := r'\<rparr>) br"
  let ?fd = "find (\<lambda>b. mb_ID b \<notin> set exclude \<and> available clk s br b) ordered"
  have f: "map_option fst (fst ?sel) = ?fd"
    using select_loop_spec [of "s\<lparr>rng := r'\<rparr>", OF _ d] assms(2) by simp
  have h: "h = length (handles s)" if "fst ?sel = Some (b, h)" for b h
    using that select_loop_handle [of clk exclude ordered "s\<lparr>rng := r'\<rparr>" br] by simp
  have fs: "fst ?sel = map_option (\<lambda>b. (b, length (handles s))) ?fd"
    using f [symmetric] h by (cases "fst ?sel") auto
  obtain s' br' where sel: "?sel = (map_option (\<lambda>b. (b, length (handles s))) ?fd, s', br')"
    using fs by (cases ?sel) simp
  have "Select intn policies backends clk model exclude s br =
     (case ?sel of
        (Some (b, h), s', br') \<Rightarrow>
          Some (Inr (\<lparr>sel_Backend = b, sel_PolicyName = pn, sel_Strategy = st\<rparr>, h), s', br')
      | (None, s', br') \<Rightarrow> Some (Inl ErrNoCapacity, s', br'))"
    unfolding Select_def assms(3,4) sum.case prod.case Let_def ord(1) option.case
    using assms(6) by (simp only: if_False)
  also have "\<dots> = Some (case ?fd of
       None \<Rightarrow> Inl ErrNoCapacity
     | Some b \<Rightarrow> Inr (\<lparr>sel_Backend = b, sel_PolicyName = pn, sel_Strategy = st\<rparr>, length (handles s)), s', br')"
    unfolding sel by (cases ?fd; simp only: option.case option.map prod.case)
  finally show ?thesis using ord(2,3) by blast
qed

text \<open>C7: What \<open>Select\<close> hands out is right. Given the loaded policy and backend rows (with distinct
  ids and names), a returned \<open>Selection\<close> names an enabled, routable row of the store that the
  caller did not exclude, whose semaphore had a free slot and whose circuit allowed the call, under
  the policy's name and strategy; and every row of strictly better priority was excluded or
  unavailable.\<close>

theorem Select_sound:
  assumes "intn_ok intn" and "sems_ok s"
    and "policy_of policies model = Inr (pn, st)" and "backends model = Inr list"
    and "distinct_backends list"
    and "Select intn policies backends clk model exclude s br = Some (Inr (sel, h), s', br')"
  shows "sel_Backend sel \<in> set list \<and> routable (sel_Backend sel)
     \<and> mb_ID (sel_Backend sel) \<notin> set exclude \<and> available clk s br (sel_Backend sel)
     \<and> sel_PolicyName sel = pn \<and> sel_Strategy sel = st
     \<and> (\<forall>c \<in> set list. routable c \<and> mb_Priority c < mb_Priority (sel_Backend sel)
          \<longrightarrow> mb_ID c \<in> set exclude \<or> \<not> available clk s br c)"
proof -
  have ne: "filter routable list \<noteq> []" using assms(3,4,6) by (auto simp: Select_def Let_def split: if_splits)
  from Select_loaded [where backends = backends and model = model and clk = clk
      and exclude = exclude and br = br, OF assms(1-5) ne]
  obtain ordered b where ord: "mset ordered = mset (filter routable list)" "sorted (map mb_Priority ordered)"
    and b: "find (\<lambda>b. mb_ID b \<notin> set exclude \<and> available clk s br b) ordered = Some b"
    and sel: "sel = \<lparr>sel_Backend = b, sel_PolicyName = pn, sel_Strategy = st\<rparr>"
    using assms(6) by (elim exE conjE) (simp split: option.splits)
  have "set ordered = {c \<in> set list. routable c}" using mset_eq_setD [OF ord(1)] by simp
  with find_Some_least [OF b ord(2)] sel show ?thesis by auto
qed


text \<open>A small store for the concrete runs: two backends of model \<open>m\<close>, no policy row.\<close>

definition sample_rows :: "ModelBackend list" where
  "sample_rows = [sample_backend 1 ''a'' 20 1, sample_backend 2 ''b'' 10 3]"

definition sample_policies :: policy_store where
  "sample_policies m = Inl DB_ErrNotFound"

definition sample_backends :: backend_store where
  "sample_backends m = Inr sample_rows"

definition sample_breaker :: Breaker where
  "sample_breaker = NewBreaker 3 1000 False"

lemma sems_ok_New [simp]: "sems_ok (NewSelector m r)"
  by (simp add: sems_ok_def NewSelector_def)

lemma sample_distinct: "distinct_backends sample_rows"
  by (simp add: distinct_backends_def sample_rows_def sample_backend_def)

lemma sample_policy: "policy_of sample_policies ''m'' = Inr (fallbackPolicyName, fallbackStrategy)"
  by (simp add: policy_of_def sample_policies_def)

lemma sample_load: "sample_backends ''m'' = Inr sample_rows"
  by (simp add: sample_backends_def)

definition sample_select ::
  "uuid list \<Rightarrow> ((select_error + Selection \<times> nat) \<times> unit Selector \<times> Breaker) option" where
  "sample_select ex =
     Select zero_intn sample_policies sample_backends (\<lambda>_. 5) ''m'' ex (NewSelector True ()) sample_breaker"

definition sample_selection :: Selection where
  "sample_selection = \<lparr>sel_Backend = sample_backend 2 ''b'' 10 3,
     sel_PolicyName = fallbackPolicyName, sel_Strategy = fallbackStrategy\<rparr>"

lemma sample_select_result: "map_option fst (sample_select []) = Some (Inr (sample_selection, 0))"
  by code_simp

theorem Select_sound_witness:
  "sel_Backend sample_selection \<in> set sample_rows \<and> routable (sel_Backend sample_selection)
     \<and> available (\<lambda>_. 5) (NewSelector True ()) sample_breaker (sel_Backend sample_selection)
     \<and> sel_PolicyName sample_selection = fallbackPolicyName
     \<and> (\<nexists>c. c \<in> set sample_rows \<and> routable c \<and> mb_Priority c < mb_Priority (sel_Backend sample_selection)
          \<and> available (\<lambda>_. 5) (NewSelector True ()) sample_breaker c)"
proof -
  obtain s' br' where
    "Select zero_intn sample_policies sample_backends (\<lambda>_. 5) ''m'' [] (NewSelector True ()) sample_breaker
       = Some (Inr (sample_selection, 0), s', br')"
    using sample_select_result unfolding sample_select_def by (auto simp: prod_eq_iff)
  from Select_sound [where backends = sample_backends,
      OF intn_ok_zero sems_ok_New sample_policy sample_load sample_distinct this]
  show ?thesis by auto
qed


subsection \<open>Accounting: slots, release closures and the gauge\<close>

definition live :: "(release_handle \<Rightarrow> bool) \<Rightarrow> 'r Selector \<Rightarrow> nat" where
  "live P s = length (filter (\<lambda>h. P h \<and> \<not> rh_done h) (handles s))"

text \<open>
  The accounting invariant. Every semaphore holds exactly one slot per release closure that was
  handed out for it and has not run, never more than its capacity; with metrics wired in, the
  in-flight gauge of a backend is the number of its closures that have not run.
\<close>

definition selector_inv :: "'r Selector \<Rightarrow> bool" where
  [inv_defs]: "selector_inv s \<longleftrightarrow>
     sems_ok s \<and> (\<forall>h \<in> set (handles s). rh_sem h < length (sem_heap s))
     \<and> (\<forall>a < length (sem_heap s). slots (sem_heap s ! a) = live (\<lambda>h. rh_sem h = a) s
          \<and> int (slots (sem_heap s ! a)) \<le> capacity (sem_heap s ! a))
     \<and> (has_metrics s \<longrightarrow> (\<forall>n. BackendInFlight s n = int (live (\<lambda>h. rh_backend h = n) s)))"

lemma live_empty: "\<forall>h \<in> set (handles s). \<not> P h \<Longrightarrow> live P s = 0"
  by (simp add: live_def)

lemma selector_inv_New: "selector_inv (NewSelector m r)"
  by (simp add: selector_inv_def NewSelector_def live_def sems_ok_def)

lemma selector_inv_semaphoreFor:
  assumes "selector_inv s" and "0 \<le> mb_MaxInFlight b"
  shows "selector_inv (snd (semaphoreFor b s))"
proof -
  have ok: "sems_ok (snd (semaphoreFor b s))"
    using assms(1) semaphoreFor_sems_ok by (auto simp: selector_inv_def)
  have "snd (semaphoreFor b s) = s
    \<or> snd (semaphoreFor b s) = s\<lparr>sem_heap := sem_heap s @ [newSemaphore (mb_MaxInFlight b)],
                     sems := (sems s)(mb_ID b \<mapsto> length (sem_heap s))\<rparr>"
    unfolding semaphoreFor_def Let_def by (cases "sems s (mb_ID b)") simp_all
  then consider "snd (semaphoreFor b s) = s"
    | "snd (semaphoreFor b s) = s\<lparr>sem_heap := sem_heap s @ [newSemaphore (mb_MaxInFlight b)],
                     sems := (sems s)(mb_ID b \<mapsto> length (sem_heap s))\<rparr>" by blast
  then show ?thesis
  proof cases
    case 1
    then show ?thesis using assms(1) by simp
  next
    case 2
    have new: "live (\<lambda>h. rh_sem h = length (sem_heap s)) s = 0"
      using assms(1) by (intro live_empty) (auto simp: selector_inv_def)
    have fr: "live P (s\<lparr>sem_heap := hp, sems := m\<rparr>) = live P s" for P hp m by (simp add: live_def)
    show ?thesis
      using assms ok new unfolding 2
      by (auto simp: selector_inv_def fr newSemaphore_def nth_append less_Suc_eq)
  qed
qed

lemma selector_inv_observe [simp]: "selector_inv (observeShortCircuit n s) = selector_inv s"
  by (simp add: selector_inv_def live_def)

lemma live_append:
  "handles s' = handles s @ [h] \<Longrightarrow>
     live P s' = live P s + (if P h \<and> \<not> rh_done h then 1 else 0)"
  by (simp add: live_def)

lemma selector_inv_taken:
  assumes "selector_inv s" and "0 \<le> mb_MaxInFlight b" and "avail_slot b s"
  shows "selector_inv (taken b s)"
proof -
  obtain a s1 where sf: "semaphoreFor b s = (a, s1)" by fastforce
  have i1: "selector_inv s1" using selector_inv_semaphoreFor [OF assms(1,2)] sf by simp
  have a: "a < length (sem_heap s1)"
    using semaphoreFor_sems_ok [of s b] assms(1) sf by (simp add: selector_inv_def)
  have free: "int (slots (sem_heap s1 ! a)) < capacity (sem_heap s1 ! a)"
    using assms(3) sf by (simp add: avail_slot_def tryAcquire_def split: if_splits)
  have fields: "handles (taken b s) = handles s1 @ [\<lparr>rh_sem = a, rh_backend = mb_Name b, rh_done = False\<rparr>]"
    "sem_heap (taken b s) = (sem_heap s1)[a := (sem_heap s1 ! a)\<lparr>slots := Suc (slots (sem_heap s1 ! a))\<rparr>]"
    "sems (taken b s) = sems s1" "has_metrics (taken b s) = has_metrics s1"
    "has_metrics s1 \<Longrightarrow> BackendInFlight (taken b s) n =
       BackendInFlight s1 n + (if n = mb_Name b then 1 else 0)" for n
    using sf free by (simp_all add: taken_def tryAcquire_def observeInFlight_def Let_def)
  show ?thesis
    using i1 a free
    by (auto simp: selector_inv_def fields sems_ok_def live_append [OF fields(1)] nth_list_update)
qed

lemma live_update:
  assumes "h < length (handles s)" and "handles s' = (handles s)[h := r\<lparr>rh_done := True\<rparr>]"
    and "r = handles s ! h" and "\<not> rh_done r"
  shows "live P s = live P s' + (if P r then 1 else 0)"
  using filter_list_update_length [OF assms(1), of "\<lambda>h. P h \<and> \<not> rh_done h" "r\<lparr>rh_done := True\<rparr>"] assms
  by (auto simp: live_def)

lemma selector_inv_release:
  assumes "selector_inv s"
  shows "selector_inv (release_call h s)"
proof (cases "h < length (handles s) \<and> \<not> rh_done (handles s ! h)")
  case False
  then show ?thesis using assms by (auto simp: release_call_def)
next
  case True
  let ?r = "handles s ! h"
  let ?a = "rh_sem ?r" and ?s' = "release_call h s"
  have fields: "handles ?s' = (handles s)[h := ?r\<lparr>rh_done := True\<rparr>]"
    "sem_heap ?s' = (sem_heap s)[?a := sem_release (sem_heap s ! ?a)]"
    "sems ?s' = sems s" "has_metrics ?s' = has_metrics s"
    "has_metrics s \<Longrightarrow> BackendInFlight ?s' n = BackendInFlight s n - (if n = rh_backend ?r then 1 else 0)" for n
    using True by (simp_all add: release_call_def observeInFlight_def Let_def)
  have lv: "live P s = live P ?s' + (if P ?r then 1 else 0)" for P
    using live_update [OF _ fields(1)] True by blast
  have a: "?a < length (sem_heap s)" using assms True by (auto simp: selector_inv_def)
  have sub: "set (handles ?s') \<subseteq> insert (?r\<lparr>rh_done := True\<rparr>) (set (handles s))"
    using fields(1) by (simp add: set_update_subset_insert)
  then have rng: "\<forall>g \<in> set (handles ?s'). rh_sem g < length (sem_heap s)"
    using assms a by (force simp: selector_inv_def)
  show ?thesis
    using assms a rng
    by (auto simp: selector_inv_def fields sems_ok_def lv nth_list_update sem_release_def)
qed

lemma selector_inv_select_loop:
  "selector_inv s \<Longrightarrow> \<forall>b \<in> set bs. 0 \<le> mb_MaxInFlight b \<Longrightarrow>
     selector_inv (fst (snd (select_loop clk ex bs s br)))"
proof (induction bs arbitrary: s br)
  case (Cons b bs)
  then show ?case
    by (simp add: select_loop_Cons selector_inv_semaphoreFor selector_inv_taken del: select_loop.simps(2))
qed simp

lemma order_set:
  assumes "intn_ok intn" and "\<forall>b \<in> set cs. 0 < mb_Weight b" and "order intn r cs = Some (r', out)"
  shows "set out = set cs"
  using order_correct [OF assms(1,2), of r] assms(3) by (auto dest: mset_eq_setD)

lemma selector_inv_rng [simp]: "selector_inv (s\<lparr>rng := r\<rparr>) = selector_inv s"
  by (simp add: selector_inv_def live_def)

lemma Select_outcome:
  assumes "Select intn policies backends clk model exclude s br = Some (res, s', br')"
  shows "(\<exists>e. res = Inl e) \<and> s' = s \<and> br' = br
     \<or> (\<exists>list r' ordered. order intn (rng s) (filter routable list) = Some (r', ordered)
          \<and> (s', br') = snd (select_loop clk exclude ordered (s\<lparr>rng := r'\<rparr>) br)
          \<and> ((\<exists>e. res = Inl e) \<longleftrightarrow> fst (select_loop clk exclude ordered (s\<lparr>rng := r'\<rparr>) br) = None))"
proof (cases "policy_of policies model")
  case (Inl e)
  then show ?thesis using assms by (auto simp: Select_def)
next
  case pol: (Inr p)
  show ?thesis
  proof (cases "backends model")
    case (Inl e)
    then show ?thesis using assms pol by (cases p) (auto simp: Select_def)
  next
    case bs: (Inr list)
    show ?thesis
    proof (cases "filter routable list = [] \<or> order intn (rng s) (filter routable list) = None")
      case True
      then show ?thesis using assms pol bs
        by (cases p; cases "filter routable list = []") (auto simp: Select_def Let_def)
    next
      case False
      then obtain r' ordered where ord: "order intn (rng s) (filter routable list) = Some (r', ordered)"
        by auto
      obtain o1 s1 br1 where sl: "select_loop clk exclude ordered (s\<lparr>rng := r'\<rparr>) br = (o1, s1, br1)"
        by (cases "select_loop clk exclude ordered (s\<lparr>rng := r'\<rparr>) br")
      from assms pol bs False ord sl have "(s', br') = (s1, br1) \<and> ((\<exists>e. res = Inl e) \<longleftrightarrow> o1 = None)"
        by (cases p; cases o1) (auto simp: Select_def)
      with ord sl show ?thesis by (metis fst_conv snd_conv)
    qed
  qed
qed

lemma selector_inv_Select:
  assumes "intn_ok intn" and "selector_inv s"
    and "Select intn policies backends clk model exclude s br = Some (res, s', br')"
  shows "selector_inv s'"
proof -
  from Select_outcome [OF assms(3)] consider "s' = s"
    | list r' ordered where "order intn (rng s) (filter routable list) = Some (r', ordered)"
      "s' = fst (snd (select_loop clk exclude ordered (s\<lparr>rng := r'\<rparr>) br))" by (metis fst_conv)
  then show ?thesis
  proof cases
    case 1
    then show ?thesis using assms(2) by simp
  next
    case 2
    have "set ordered = set (filter routable list)"
      by (rule order_set [OF assms(1) _ 2(1)]) (simp add: routable_def)
    then show ?thesis unfolding 2(2)
      using assms(2) by (intro selector_inv_select_loop) (auto simp: routable_def)
  qed
qed

text \<open>
  The events of a selector: a whole \<open>Select\<close> by some caller, and a caller running its release closure.
  A \<open>Select\<close> that panics (\<open>None\<close>) leaves the accounting alone.
\<close>

datatype selector_event =
    EvSelect policy_store backend_store "uuid \<Rightarrow> time" string "uuid list"
  | EvRelease nat

fun selector_step :: "'r intn \<Rightarrow> 'r Selector \<times> Breaker \<Rightarrow> selector_event \<Rightarrow> 'r Selector \<times> Breaker" where
  "selector_step intn (s, br) (EvSelect pol bs clk m ex) =
     (case Select intn pol bs clk m ex s br of Some (_, s', br') \<Rightarrow> (s', br') | None \<Rightarrow> (s, br))"
| "selector_step intn (s, br) (EvRelease h) = (release_call h s, br)"

definition selector_sys_inv :: "'r intn \<Rightarrow> 'r Selector \<times> Breaker \<Rightarrow> bool" where
  [inv_defs]: "selector_sys_inv intn st \<longleftrightarrow> (intn_ok intn \<longrightarrow> selector_inv (fst st))"

lemma selector_step_inv:
  "selector_sys_inv intn st \<Longrightarrow> selector_sys_inv intn (selector_step intn st e)"
  by (cases "(intn, st, e)" rule: selector_step.cases)
    (auto simp: selector_sys_inv_def selector_inv_release intro: selector_inv_Select split: option.splits)

interpretation selector: guarded_object "selector_step intn" "selector_sys_inv intn" for intn
  by unfold_locales (rule selector_step_inv)

text \<open>C8: No slot is leaked or double-counted, whatever the callers do: after any sequence of \<open>Select\<close>
  calls and release-closure calls (also repeated ones, and across \<open>max_in_flight\<close> changes that replace a
  semaphore), every semaphore holds exactly one slot per handed-out closure that has not run, never
  exceeds its capacity, and the in-flight gauge of every backend equals its running requests.\<close>

theorem selector_accounting:
  assumes "intn_ok intn"
  shows "selector_inv (fst (foldl (selector_step intn) (NewSelector m r, br) es))"
  using selector.run_inv [of intn "(NewSelector m r, br)" es] assms selector_inv_New [of m r]
  by (simp add: selector_sys_inv_def)

theorem selector_accounting_witness:
  "selector_inv (fst (foldl (selector_step zero_intn) (NewSelector True (), sample_breaker)
     [EvSelect sample_policies sample_backends (\<lambda>_. 5) ''m'' [],
      EvSelect sample_policies sample_backends (\<lambda>_. 6) ''m'' [], EvRelease 0, EvRelease 0]))"
  by (rule selector_accounting [OF intn_ok_zero])

lemma select_loop_None:
  assumes "fst (select_loop clk ex bs s br) = None"
  shows "handles (fst (snd (select_loop clk ex bs s br))) = handles s
    \<and> BackendInFlight (fst (snd (select_loop clk ex bs s br))) = BackendInFlight s
    \<and> (\<forall>n. gate_of (snd (snd (select_loop clk ex bs s br))) n = gate_of br n)"
  using assms
proof (induction bs arbitrary: s br)
  case (Cons b bs)
  have refused: "gate_of (snd (Allow t n br)) m = gate_of br m" if "\<not> fst (Allow t n br)" for t n m
    using that breaker_step_gate [of br "EvAllow t n" m]
    by (cases "gate_of br n") (auto simp: Allow_gate split: if_splits bool.splits)
  show ?case
    using Cons.prems Cons.IH [of "snd (semaphoreFor b s)" br] Cons.IH [of s br]
      Cons.IH [of "observeShortCircuit (mb_Name b) (snd (semaphoreFor b s))"
        "snd (Allow (clk (mb_ID b)) (mb_Name b) br)"]
    by (simp add: select_loop_Cons refused del: select_loop.simps(2) split: if_splits)
qed simp

lemma select_loop_Some:
  assumes "fst (select_loop clk ex bs s br) = Some (b, h)"
  shows "mb_ID b \<notin> set ex \<and> b \<in> set bs \<and> h = length (handles s)
    \<and> (\<exists>a. handles (fst (snd (select_loop clk ex bs s br))) =
           handles s @ [\<lparr>rh_sem = a, rh_backend = mb_Name b, rh_done = False\<rparr>])"
  using assms
proof (induction bs arbitrary: s br)
  case (Cons c bs)
  have "\<exists>a. handles (taken b s) = handles s @ [\<lparr>rh_sem = a, rh_backend = mb_Name b, rh_done = False\<rparr>]" for b
    using semaphoreFor_fields(1) [of b s] by (cases "semaphoreFor b s") (simp add: taken_def)
  then show ?case
    using Cons.prems Cons.IH [of "snd (semaphoreFor c s)" br] Cons.IH [of s br]
      Cons.IH [of "observeShortCircuit (mb_Name c) (snd (semaphoreFor c s))"
        "snd (Allow (clk (mb_ID c)) (mb_Name c) br)"]
    by (auto simp: select_loop_Cons simp del: select_loop.simps(2) split: if_splits)
qed simp

text \<open>What a returning \<open>Select\<close> does to the closures, and whom it may choose.\<close>

lemma Select_Inl_handles:
  assumes "Select intn policies backends clk model exclude s br = Some (Inl e, s', br')"
  shows "handles s' = handles s"
  using Select_outcome [OF assms]
proof (elim disjE exE conjE)
  fix list r' ordered
  assume eq: "(s', br') = snd (select_loop clk exclude ordered (s\<lparr>rng := r'\<rparr>) br)"
    and "(\<exists>e'. Inl e = Inl e') = (fst (select_loop clk exclude ordered (s\<lparr>rng := r'\<rparr>) br) = None)"
  then have "fst (select_loop clk exclude ordered (s\<lparr>rng := r'\<rparr>) br) = None" by blast
  from select_loop_None [OF this] eq [symmetric] show ?thesis by simp
qed simp

lemma Select_Inr_handles:
  assumes "Select intn policies backends clk model exclude s br = Some (Inr (sel, h), s', br')"
  shows "h = length (handles s)
    \<and> (\<exists>a. handles s' = handles s @ [\<lparr>rh_sem = a, rh_backend = mb_Name (sel_Backend sel), rh_done = False\<rparr>])
    \<and> mb_ID (sel_Backend sel) \<notin> set exclude"
proof -
  obtain pn st list where pol: "policy_of policies model = Inr (pn, st)" and bs: "backends model = Inr list"
    using assms by (auto simp: Select_def split: sum.splits)
  then obtain r' ordered where ord: "order intn (rng s) (filter routable list) = Some (r', ordered)"
    using assms by (auto simp: Select_def Let_def split: if_splits option.splits)
  obtain o1 s1 br1 where sl: "select_loop clk exclude ordered (s\<lparr>rng := r'\<rparr>) br = (o1, s1, br1)"
    by (cases "select_loop clk exclude ordered (s\<lparr>rng := r'\<rparr>) br")
  have "o1 = Some (sel_Backend sel, h)" "s' = s1"
    using assms pol bs ord sl by (auto simp: Select_def Let_def split: if_splits option.splits)
  then show ?thesis using select_loop_Some [of clk exclude ordered "s\<lparr>rng := r'\<rparr>" br "sel_Backend sel" h] sl by simp
qed

text \<open>A failed \<open>Select\<close> leaves nothing behind: it returns no closure, changes no gauge, and reserves
  no half-open probe (every circuit's gate is as before), so an error path of a caller has nothing to undo.\<close>

theorem Select_error_no_effect:
  assumes "Select intn policies backends clk model exclude s br = Some (Inl e, s', br')"
  shows "handles s' = handles s \<and> BackendInFlight s' = BackendInFlight s
     \<and> (\<forall>n. gate_of br' n = gate_of br n)"
  using Select_outcome [OF assms]
proof (elim disjE exE conjE)
  fix list r' ordered
  assume eq: "(s', br') = snd (select_loop clk exclude ordered (s\<lparr>rng := r'\<rparr>) br)"
    and "(\<exists>e'. Inl e = Inl e') = (fst (select_loop clk exclude ordered (s\<lparr>rng := r'\<rparr>) br) = None)"
  then have "fst (select_loop clk exclude ordered (s\<lparr>rng := r'\<rparr>) br) = None" by blast
  from select_loop_None [OF this] eq [symmetric] show ?thesis by simp
qed simp

theorem Select_error_no_effect_witness:
  "\<exists>s' br'. sample_select [1, 2] = Some (Inl ErrNoCapacity, s', br')
     \<and> handles s' = [] \<and> (\<forall>n. BackendInFlight s' n = 0) \<and> (\<forall>n. gate_of br' n = gate_of sample_breaker n)"
proof -
  have "map_option fst (sample_select [1, 2]) = Some (Inl ErrNoCapacity)" by code_simp
  then obtain s' br' where r: "sample_select [1, 2] = Some (Inl ErrNoCapacity, s', br')"
    by (auto simp: prod_eq_iff)
  from Select_error_no_effect [OF this [unfolded sample_select_def]] r show ?thesis
    by (simp add: NewSelector_def)
qed

end
