(* ===== verification/Inference.thy ===== *)
theory Inference
  imports Models
begin

section \<open>The backend client (internal/inference/client.go)\<close>

text \<open>
  \<open>Client.Do\<close> sends one request to a chosen backend with bounded retries. The network and the
  caller's context are outside the program: an \<open>attempt_env\<close> holds, for one attempt, what
  \<open>http.NewRequestWithContext\<close>, \<open>http.Client.Do\<close>, the body stream and \<open>ctx.Err()\<close> answer, and
  what the sleep before the attempt returned. The jitter draw is the parameter \<open>int63n\<close>.
  The metrics are the log of observations the client made.
\<close>

datatype go_error =
    ContextCanceled
  | ContextDeadlineExceeded
  | ErrResponseTooLarge
  | OtherErr string

datatype outcome = outcomeSuccess | outcomeTransientError | outcomePermanentError | outcomeCanceled

fun outcome_label :: "outcome \<Rightarrow> string" where
  "outcome_label outcomeSuccess = ''success''"
| "outcome_label outcomeTransientError = ''transient_error''"
| "outcome_label outcomePermanentError = ''permanent_error''"
| "outcome_label outcomeCanceled = ''canceled''"

definition completionsPath :: string where "completionsPath = ''/v1/chat/completions''"

record Response =
  resp_StatusCode :: int
  resp_Body :: string

record Error =
  err_Backend :: string
  err_Status :: int
  err_Transient :: bool
  err_Err :: "go_error option"

definition IsTransient :: "Error option \<Rightarrow> bool" where
  "IsTransient err = (case err of None \<Rightarrow> False | Some e \<Rightarrow> err_Transient e)"

definition DefaultMaxResponseBytes :: int where
  "DefaultMaxResponseBytes = push_bit 20 10"

text \<open>The fields of \<open>Config\<close> and \<open>Client\<close> that are data; the injected objects are parameters.\<close>

record Config =
  Timeout :: duration
  MaxAttempts :: int
  BackoffBase :: duration
  BackoffMax :: duration
  Metrics :: bool
  MaxResponseBytes :: int

record Client =
  timeout :: duration
  maxAttempts :: int
  backoffBase :: duration
  backoffMax :: duration
  maxResponseBytes :: int
  metrics :: bool

definition New :: "Config \<Rightarrow> Client" where
  "New cfg =
     (let c = \<lparr>timeout = Timeout cfg, maxAttempts = MaxAttempts cfg, backoffBase = BackoffBase cfg,
               backoffMax = BackoffMax cfg, maxResponseBytes = MaxResponseBytes cfg,
               metrics = Metrics cfg\<rparr>;
          c = (if maxAttempts c < 1 then c\<lparr>maxAttempts := 1\<rparr> else c)
      in if maxResponseBytes c \<le> 0 then c\<lparr>maxResponseBytes := DefaultMaxResponseBytes\<rparr> else c)"

subsection \<open>The world of one attempt\<close>

text \<open>
  An upstream reply: status, the bytes its body delivers before ending, how the stream ends
  (\<open>None\<close> is EOF) and what \<open>Close\<close> returns.
\<close>

record upstream =
  up_Status :: int
  up_Bytes :: string
  up_ReadErr :: "go_error option"
  up_CloseErr :: "go_error option"

record attempt_env =
  env_Sleep :: "go_error option"
  env_NewRequest :: "go_error option"
  env_Do :: "go_error + upstream"
  env_CtxErr :: "go_error option"
  env_CtxErrAfter :: "go_error option"
  env_Elapsed :: duration

datatype observation =
    ObsRequest string outcome duration
  | ObsRetry string

text \<open>\<open>io.ReadAll(io.LimitReader(body, n))\<close>: at most \<open>n\<close> bytes; the stream's own end is seen only
  when the limit was not reached first.\<close>

definition ReadAll_LimitReader :: "int \<Rightarrow> upstream \<Rightarrow> string \<times> go_error option" where
  "ReadAll_LimitReader n u =
     (if int (length (up_Bytes u)) < n then (up_Bytes u, up_ReadErr u)
      else (take (nat n) (up_Bytes u), None))"

definition observe :: "Client \<Rightarrow> string \<Rightarrow> outcome \<Rightarrow> duration \<Rightarrow> observation list \<Rightarrow> observation list" where
  "observe c backend out elapsed lg =
     (if \<not> metrics c then lg else lg @ [ObsRequest backend out elapsed])"

text \<open>One attempt: the \<open>(*Response, error)\<close> pair and the log.\<close>

definition attempt ::
  "Client \<Rightarrow> attempt_env \<Rightarrow> ModelBackend \<Rightarrow> observation list
     \<Rightarrow> (Response option \<times> Error option) \<times> observation list" where
  "attempt c env backend lg =
     (let fail = (\<lambda>status tr cause out.
            ((None, Some \<lparr>err_Backend = mb_Name backend, err_Status = status, err_Transient = tr,
                          err_Err = cause\<rparr>),
             observe c (mb_Name backend) out (env_Elapsed env) lg))
      in case env_NewRequest env of
           Some e \<Rightarrow>
             ((None, Some \<lparr>err_Backend = mb_Name backend, err_Status = 0, err_Transient = False,
                           err_Err = Some e\<rparr>), lg)
         | None \<Rightarrow>
             (case env_Do env of
                Inl err \<Rightarrow>
                  (if env_CtxErr env \<noteq> None then fail 0 False (env_CtxErr env) outcomeCanceled
                   else fail 0 True (Some err) outcomeTransientError)
              | Inr resp \<Rightarrow>
                  (let (respBody, readErr) = ReadAll_LimitReader (int64 (maxResponseBytes c + 1)) resp;
                       status = up_Status resp
                   in if readErr \<noteq> None
                      then (if env_CtxErr env \<noteq> None
                            then fail status False (env_CtxErr env) outcomeCanceled
                            else fail status True readErr outcomeTransientError)
                      else if up_CloseErr resp \<noteq> None
                      then fail status True (up_CloseErr resp) outcomeTransientError
                      else if int (length respBody) > maxResponseBytes c
                      then fail status False (Some ErrResponseTooLarge) outcomePermanentError
                      else if status \<ge> 200 \<and> status < 300
                      then ((Some \<lparr>resp_StatusCode = status, resp_Body = respBody\<rparr>, None),
                            observe c (mb_Name backend) outcomeSuccess (env_Elapsed env) lg)
                      else if status = 502 \<or> status = 503 \<or> status = 504
                      then fail status True None outcomeTransientError
                      else fail status False None outcomePermanentError)))"

subsection \<open>Backoff\<close>

type_synonym 'r int63n = "'r \<Rightarrow> int \<Rightarrow> int \<times> 'r"

text \<open>
  The ceiling of the jitter. \<open>backoffBase << shift\<close> is a 64-bit shift and wraps; the guard is
  the code's.
\<close>

definition backoff_ceil :: "Client \<Rightarrow> int \<Rightarrow> duration" where
  "backoff_ceil c n =
     (let ceil = backoffMax c; shift = n - 1
      in if shift < 63
         then let exp = sint (push_bit (nat shift) (word_of_int (backoffBase c) :: 64 word))
              in if exp > 0 \<and> exp < ceil then exp else ceil
         else ceil)"

text \<open>\<open>Int63n\<close> panics on a bound that is not positive, here when \<open>int64(ceil) + 1\<close> wraps.\<close>

definition backoff :: "'r int63n \<Rightarrow> Client \<Rightarrow> int \<Rightarrow> 'r \<Rightarrow> (duration \<times> 'r) option" where
  "backoff int63n c n r =
     (if backoffBase c \<le> 0 then Some (0, r)
      else let ceil = backoff_ceil c n in
           if ceil \<le> 0 then Some (0, r)
           else let bound = int64 (ceil + 1) in
                if bound \<le> 0 then None else Some (int63n r bound))"

subsection \<open>Do\<close>

definition backend_url :: "ModelBackend \<Rightarrow> string" where
  "backend_url backend = TrimRight (CHR ''/'') (mb_BaseURL backend) @ completionsPath"

text \<open>
  The attempt loop. \<open>env i\<close> is the world of attempt \<open>i\<close>; \<open>None\<close> is a panic of the jitter draw.
  The result carries the \<open>(*Response, error)\<close> pair, the log and the generator.
\<close>

function do_loop ::
  "'r int63n \<Rightarrow> Client \<Rightarrow> (int \<Rightarrow> attempt_env) \<Rightarrow> ModelBackend \<Rightarrow> int \<Rightarrow> Error option
     \<Rightarrow> observation list \<Rightarrow> 'r
     \<Rightarrow> ((Response option \<times> Error option) \<times> observation list \<times> 'r) option" where
  "do_loop int63n c env backend k lastErr lg r =
     (if k > maxAttempts c then Some ((None, lastErr), lg, r)
      else case (if k > 1 then map_option snd (backoff int63n c (k - 1) r) else Some r) of
        None \<Rightarrow> None
      | Some r \<Rightarrow>
          (if k > 1 \<and> env_Sleep (env k) \<noteq> None
           then Some ((None, Some \<lparr>err_Backend = mb_Name backend, err_Status = 0,
                                   err_Transient = False, err_Err = env_Sleep (env k)\<rparr>), lg, r)
           else
             let lg = (if k > 1 \<and> metrics c then lg @ [ObsRetry (mb_Name backend)] else lg);
                 (res, lg) = attempt c (env k) backend lg
             in if snd res = None then Some ((fst res, None), lg, r)
                else if \<not> IsTransient (snd res) then Some ((None, snd res), lg, r)
                else if env_CtxErrAfter (env k) \<noteq> None then Some ((None, snd res), lg, r)
                else do_loop int63n c env backend (k + 1) (snd res) lg r))"
  by pat_completeness auto
termination
  by (relation "measure (\<lambda>(_, c, _, _, k, _). nat (maxAttempts c + 1 - k))") auto

declare do_loop.simps [simp del]

definition Do ::
  "'r int63n \<Rightarrow> Client \<Rightarrow> (int \<Rightarrow> attempt_env) \<Rightarrow> ModelBackend \<Rightarrow> 'r
     \<Rightarrow> ((Response option \<times> Error option) \<times> observation list \<times> 'r) option" where
  "Do int63n c env backend r = do_loop int63n c env backend 1 None [] r"

text \<open>What \<open>inference.Do\<close> did: it returned, or it panicked and the panic unwinds through the defers.\<close>

datatype do_result = DoReturned "Response option \<times> Error option" | DoPanicked

subsection \<open>Backoff bounds\<close>

text \<open>What the code relies on of \<open>rand.Rand.Int63n\<close>.\<close>

definition int63n_ok :: "'r int63n \<Rightarrow> bool" where
  "int63n_ok f \<longleftrightarrow> (\<forall>r n. 0 < n \<longrightarrow> 0 \<le> fst (f r n) \<and> fst (f r n) < n)"

lemma shifted_int64:
  "sint (push_bit k (word_of_int b :: 64 word)) = int64 (b * 2 ^ k)"
  by (simp add: int64_def push_bit_eq_mult)

lemma backoff_ceil_exact:
  assumes "0 < backoffBase c" and "1 \<le> n" and "backoffMax c < 2 ^ 63"
    and "backoffBase c * 2 ^ nat (n - 1) < 2 ^ 63"
  shows "backoff_ceil c n = min (backoffMax c) (backoffBase c * 2 ^ nat (n - 1))"
proof -
  let ?e = "backoffBase c * 2 ^ nat (n - 1)"
  have pos: "0 < ?e" using assms(1) by simp
  have "n - 1 < 63"
  proof (rule ccontr)
    assume "\<not> n - 1 < 63"
    then have "(2::int) ^ 63 \<le> 2 ^ nat (n - 1)" by (intro power_increasing) simp_all
    also have "\<dots> \<le> ?e" using assms(1) by (simp add: mult_le_cancel_right1)
    finally show False using assms(4) by simp
  qed
  moreover have "int64 ?e = ?e" using pos assms(4) by (intro int64_id) simp_all
  ultimately show ?thesis using pos by (simp add: backoff_ceil_def shifted_int64 Let_def)
qed

lemma backoff_ceil_le:
  assumes "0 < backoffBase c" and "1 \<le> n" and "backoffMax c < 2 ^ 63"
  shows "backoff_ceil c n \<le> min (backoffMax c) (backoffBase c * 2 ^ nat (n - 1))"
proof (cases "backoffBase c * 2 ^ nat (n - 1) < 2 ^ 63")
  case True
  then show ?thesis using backoff_ceil_exact [OF assms] by simp
next
  case False
  have "backoff_ceil c n \<le> backoffMax c" by (simp add: backoff_ceil_def Let_def)
  with False assms(3) show ?thesis by simp
qed

lemma backoff_Some:
  assumes "int63n_ok int63n" and "1 \<le> n" and "backoffMax c < 2 ^ 63 - 1"
  shows "\<exists>d r'. backoff int63n c n r = Some (d, r')"
proof (cases "0 < backoffBase c \<and> 0 < backoff_ceil c n")
  case True
  have "backoff_ceil c n \<le> backoffMax c" by (simp add: backoff_ceil_def Let_def)
  then have "int64 (backoff_ceil c n + 1) = backoff_ceil c n + 1"
    using True assms(3) by (intro int64_id) auto
  with True show ?thesis by (cases "int63n r (backoff_ceil c n + 1)") (simp add: backoff_def Let_def)
next
  case False
  then show ?thesis by (auto simp: backoff_def Let_def)
qed

text \<open>The wait before retry \<open>n\<close> is always drawn (the jitter never panics) and lies in
  \<open>[0, min(BackoffMax, BackoffBase * 2^(n-1))]\<close>, although the shift is done in 64 bits and may
  wrap around; while it does not wrap, that interval is exactly the one drawn from.\<close>

theorem backoff_bounds:
  assumes "int63n_ok int63n" and "1 \<le> n" and "backoffMax c < 2 ^ 63 - 1"
  shows "\<exists>d r'. backoff int63n c n r = Some (d, r')
     \<and> 0 \<le> d \<and> d \<le> max 0 (min (backoffMax c) (backoffBase c * 2 ^ nat (n - 1)))
     \<and> (0 < backoffBase c \<and> 0 < backoffMax c \<and> backoffBase c * 2 ^ nat (n - 1) < 2 ^ 63
        \<longrightarrow> (d, r') = int63n r (min (backoffMax c) (backoffBase c * 2 ^ nat (n - 1)) + 1))"
proof (cases "0 < backoffBase c \<and> 0 < backoff_ceil c n")
  case True
  let ?ceil = "backoff_ceil c n"
  have le: "?ceil \<le> min (backoffMax c) (backoffBase c * 2 ^ nat (n - 1))"
    using True assms(2,3) by (intro backoff_ceil_le) auto
  have bound: "int64 (?ceil + 1) = ?ceil + 1" using True le assms(3) by (intro int64_id) auto
  have "backoff int63n c n r = Some (int63n r (?ceil + 1))"
    using True bound by (simp add: backoff_def Let_def)
  moreover have "0 \<le> fst (int63n r (?ceil + 1)) \<and> fst (int63n r (?ceil + 1)) < ?ceil + 1"
    using assms(1) True unfolding int63n_ok_def by (metis add_pos_pos zero_less_one)
  moreover have "?ceil = min (backoffMax c) (backoffBase c * 2 ^ nat (n - 1))"
    if "backoffBase c * 2 ^ nat (n - 1) < 2 ^ 63"
    using that True assms(2,3) by (intro backoff_ceil_exact) auto
  ultimately show ?thesis using le
    by (intro exI [of _ "fst (int63n r (?ceil + 1))"] exI [of _ "snd (int63n r (?ceil + 1))"]) auto
next
  case False
  have "0 < backoff_ceil c n"
    if "0 < backoffBase c" "0 < backoffMax c"
    using that by (auto simp: backoff_ceil_def Let_def)
  with False show ?thesis by (auto simp: backoff_def Let_def)
qed

definition sample_config :: Config where
  "sample_config = \<lparr>Timeout = 1000000000, MaxAttempts = 3, BackoffBase = 50000000,
     BackoffMax = 2000000000, Metrics = True, MaxResponseBytes = 0\<rparr>"

definition zero_int63n :: "unit int63n" where
  "zero_int63n r n = (n - 1, r)"

lemma int63n_ok_zero: "int63n_ok zero_int63n"
  by (simp add: int63n_ok_def zero_int63n_def)

lemma sample_client_max: "backoffMax (New sample_config) < 2 ^ 63 - 1"
  by code_simp

theorem backoff_bounds_witness:
  "\<exists>d r'. backoff zero_int63n (New sample_config) 3 () = Some (d, r') \<and> 0 \<le> d
     \<and> d \<le> max 0 (min (backoffMax (New sample_config)) (backoffBase (New sample_config) * 2 ^ nat (3 - 1)))"
  using backoff_bounds [OF int63n_ok_zero _ sample_client_max, of 3 "()"] by auto

subsection \<open>The retry loop\<close>

lemma attempt_append:
  "attempt c e backend lg = (fst (attempt c e backend []), lg @ snd (attempt c e backend []))"
  by (cases "metrics c"; cases "env_NewRequest e"; cases "env_Do e")
    (simp_all add: attempt_def observe_def Let_def case_prod_unfold)

definition attempt_result :: "Client \<Rightarrow> (int \<Rightarrow> attempt_env) \<Rightarrow> ModelBackend \<Rightarrow> int \<Rightarrow> Response option \<times> Error option" where
  "attempt_result c env backend i = fst (attempt c (env i) backend [])"

text \<open>Attempt \<open>i\<close> failed in a way worth a retry and the caller is still there.\<close>

definition retryable :: "Client \<Rightarrow> (int \<Rightarrow> attempt_env) \<Rightarrow> ModelBackend \<Rightarrow> int \<Rightarrow> bool" where
  "retryable c env backend i \<longleftrightarrow>
     IsTransient (snd (attempt_result c env backend i)) \<and> env_CtxErrAfter (env i) = None"

text \<open>Attempt \<open>i\<close> is followed by attempt \<open>i + 1\<close>.\<close>

definition goes_on :: "Client \<Rightarrow> (int \<Rightarrow> attempt_env) \<Rightarrow> ModelBackend \<Rightarrow> int \<Rightarrow> bool" where
  "goes_on c env backend i \<longleftrightarrow>
     retryable c env backend i \<and> i < maxAttempts c \<and> env_Sleep (env (i + 1)) = None"

text \<open>The result when attempt \<open>k\<close> is the last: the interrupted sleep's error, or the attempt's own.\<close>

definition final_result :: "Client \<Rightarrow> (int \<Rightarrow> attempt_env) \<Rightarrow> ModelBackend \<Rightarrow> int \<Rightarrow> Response option \<times> Error option" where
  "final_result c env backend k =
     (if retryable c env backend k \<and> k < maxAttempts c
      then (None, Some \<lparr>err_Backend = mb_Name backend, err_Status = 0, err_Transient = False,
                        err_Err = env_Sleep (env (k + 1))\<rparr>)
      else attempt_result c env backend k)"

definition attempt_log :: "Client \<Rightarrow> (int \<Rightarrow> attempt_env) \<Rightarrow> ModelBackend \<Rightarrow> int \<Rightarrow> observation list" where
  "attempt_log c env backend i =
     (if i > 1 \<and> metrics c then [ObsRetry (mb_Name backend)] else [])
     @ snd (attempt c (env i) backend [])"

lemma attempt_dichotomy:
  "fst (attempt_result c env backend i) = None \<longleftrightarrow> snd (attempt_result c env backend i) \<noteq> None"
  by (simp add: attempt_result_def attempt_def Let_def case_prod_unfold split: option.splits sum.splits)

lemma do_loop_attempt:
  assumes "k \<le> maxAttempts c" and "k > 1 \<Longrightarrow> env_Sleep (env k) = None"
    and "(if k > 1 then map_option snd (backoff int63n c (k - 1) r) else Some r) = Some r1"
  shows "do_loop int63n c env backend k lastErr lg r =
     (let lg' = lg @ attempt_log c env backend k; res = attempt_result c env backend k in
      if retryable c env backend k then do_loop int63n c env backend (k + 1) (snd res) lg' r1
      else Some (res, lg', r1))"
proof -
  obtain res lg0 where at: "attempt c (env k) backend [] = (res, lg0)" by fastforce
  have res: "attempt_result c env backend k = res" using at by (simp add: attempt_result_def)
  have di: "fst res = None \<longleftrightarrow> snd res \<noteq> None" using attempt_dichotomy [of c env backend k] res by simp
  have "attempt c (env k) backend l = (res, l @ lg0)" for l by (subst attempt_append) (simp add: at)
  then show ?thesis
    using assms di res at
    by (cases res)
      (auto simp: do_loop.simps [of int63n c env backend k] attempt_log_def retryable_def IsTransient_def)
qed

lemma do_loop_end:
  "k > maxAttempts c \<Longrightarrow> do_loop int63n c env backend k lastErr lg r = Some ((None, lastErr), lg, r)"
  by (simp add: do_loop.simps [of int63n c env backend k])

lemma do_loop_sleep_fails:
  assumes "1 < k" and "k \<le> maxAttempts c" and "env_Sleep (env k) = Some e"
    and "backoff int63n c (k - 1) r = Some (d, r1)"
  shows "do_loop int63n c env backend k lastErr lg r =
     Some ((None, Some \<lparr>err_Backend = mb_Name backend, err_Status = 0, err_Transient = False,
                        err_Err = Some e\<rparr>), lg, r1)"
  using assms by (simp add: do_loop.simps [of int63n c env backend k])

lemma do_loop_spec:
  assumes "int63n_ok int63n" and "backoffMax c < 2 ^ 63 - 1" and "1 \<le> j" and "j \<le> maxAttempts c"
    and "j > 1 \<Longrightarrow> env_Sleep (env j) = None"
  shows "\<exists>k r'. j \<le> k \<and> k \<le> maxAttempts c \<and> (\<forall>i. j \<le> i \<and> i < k \<longrightarrow> goes_on c env backend i)
     \<and> \<not> goes_on c env backend k
     \<and> do_loop int63n c env backend j lastErr lg r =
         Some (final_result c env backend k, lg @ concat (map (attempt_log c env backend) [j..k]), r')"
  using assms(3-)
proof (induction "nat (maxAttempts c - j)" arbitrary: j lastErr lg r rule: less_induct)
  case less
  have draw: "\<exists>d r1. backoff int63n c n r = Some (d, r1)" if "1 \<le> n" for n r
    using backoff_Some [OF assms(1) that assms(2)] by blast
  obtain r1 where r1: "(if j > 1 then map_option snd (backoff int63n c (j - 1) r) else Some r) = Some r1"
    using draw [of "j - 1" r] by fastforce
  let ?lg = "lg @ attempt_log c env backend j" and ?res = "attempt_result c env backend j"
  note step = do_loop_attempt [where env = env and lastErr = lastErr and lg = lg and backend = backend,
      OF less.prems(2,3) r1]
  consider (stop) "\<not> retryable c env backend j"
    | (last) "retryable c env backend j" "j = maxAttempts c"
    | (sleep) e where "retryable c env backend j" "j < maxAttempts c" "env_Sleep (env (j + 1)) = Some e"
    | (again) "retryable c env backend j" "j < maxAttempts c" "env_Sleep (env (j + 1)) = None"
    using less.prems(2) by fastforce
  then show ?case
  proof cases
    case stop
    then show ?thesis using step less.prems
      by (intro exI [of _ j] exI [of _ r1]) (auto simp: goes_on_def final_result_def Let_def)
  next
    case last
    have "?res = (None, snd ?res)"
      using last(1) attempt_dichotomy [of c env backend j]
      by (cases ?res) (auto simp: retryable_def IsTransient_def split: option.splits)
    with last step less.prems show ?thesis
      by (intro exI [of _ j] exI [of _ r1])
        (auto simp: goes_on_def final_result_def Let_def do_loop_end)
  next
    case sleep
    obtain d r2 where "backoff int63n c j r1 = Some (d, r2)" using draw less.prems(1) by blast
    with sleep have "do_loop int63n c env backend (j + 1) (snd ?res) ?lg r1 =
       Some (final_result c env backend j, ?lg, r2)"
      using less.prems(1) by (subst do_loop_sleep_fails) (auto simp: final_result_def)
    with sleep step less.prems show ?thesis
      by (intro exI [of _ j] exI [of _ r2]) (auto simp: goes_on_def Let_def)
  next
    case again
    have "nat (maxAttempts c - (j + 1)) < nat (maxAttempts c - j)" using again(2) by simp
    from less.hyps [OF this, of "snd ?res" ?lg r1] again less.prems(1) obtain k r' where
      k: "j + 1 \<le> k" "k \<le> maxAttempts c" "\<And>i. j + 1 \<le> i \<Longrightarrow> i < k \<Longrightarrow> goes_on c env backend i"
        "\<not> goes_on c env backend k"
        "do_loop int63n c env backend (j + 1) (snd ?res) ?lg r1 =
           Some (final_result c env backend k, ?lg @ concat (map (attempt_log c env backend) [j + 1..k]), r')"
      by auto
    have "goes_on c env backend i" if "j \<le> i" "i < k" for i
      using that k(3) [of i] again by (cases "i = j") (auto simp: goes_on_def)
    moreover have "[j..k] = j # [j + 1..k]" using k(1) by (simp add: upto_rec1)
    ultimately show ?thesis using k again step
      by (intro exI [of _ k] exI [of _ r']) (auto simp: Let_def)
  qed
qed

lemma New_maxAttempts: "1 \<le> maxAttempts (New cfg)"
  by (simp add: New_def Let_def)

lemma New_backoff [simp]: "backoffMax (New cfg) = BackoffMax cfg"
  by (simp add: New_def Let_def)

text \<open>\<open>Do\<close> on a client built by \<open>New\<close> always returns, after between one and \<open>MaxAttempts\<close>
  attempts. Attempt \<open>i\<close> is followed by another exactly when it failed transiently, the caller's context
  was still alive, attempts were left and the backoff sleep was not interrupted; the result is the last
  attempt's own (or the interrupted sleep's context error), and the metrics log holds one request
  observation per attempt made and one retry observation per attempt after the first.\<close>

theorem Do_retries:
  assumes "int63n_ok int63n" and "BackoffMax cfg < 2 ^ 63 - 1"
  shows "\<exists>k r'. 1 \<le> k \<and> k \<le> maxAttempts (New cfg)
     \<and> (\<forall>i. 1 \<le> i \<and> i < k \<longrightarrow> goes_on (New cfg) env backend i) \<and> \<not> goes_on (New cfg) env backend k
     \<and> Do int63n (New cfg) env backend r =
         Some (final_result (New cfg) env backend k,
               concat (map (attempt_log (New cfg) env backend) [1..k]), r')"
  unfolding Do_def
  using do_loop_spec [OF assms(1), of "New cfg" 1 env backend None "[]" r] assms(2) New_maxAttempts [of cfg]
  by simp

definition sample_env :: "int \<Rightarrow> attempt_env" where
  "sample_env i =
     \<lparr>env_Sleep = None, env_NewRequest = None,
      env_Do = (if i = 1 then Inl (OtherErr ''connection refused'')
                else Inr \<lparr>up_Status = (if i = 2 then 503 else 200), up_Bytes = ''{}'',
                          up_ReadErr = None, up_CloseErr = None\<rparr>),
      env_CtxErr = None, env_CtxErrAfter = None, env_Elapsed = 7\<rparr>"

definition sample_mb :: ModelBackend where
  "sample_mb = \<lparr>mb_ID = 1, mb_Name = ''a'', mb_BaseURL = ''http://h/'', mb_ModelName = ''m'',
     mb_Kind = BackendKindMock, mb_Enabled = True, mb_Priority = 1, mb_Weight = 1, mb_MaxInFlight = 1,
     mb_CreatedAt = 0, mb_UpdatedAt = 0\<rparr>"

theorem Do_retries_witness:
  "\<exists>k r'. 1 \<le> k \<and> k \<le> maxAttempts (New sample_config)
     \<and> \<not> goes_on (New sample_config) sample_env sample_mb k
     \<and> Do zero_int63n (New sample_config) sample_env sample_mb () =
         Some (final_result (New sample_config) sample_env sample_mb k,
               concat (map (attempt_log (New sample_config) sample_env sample_mb) [1..k]), r')"
proof -
  have "BackoffMax sample_config < 2 ^ 63 - 1" by (simp add: sample_config_def)
  from Do_retries [OF int63n_ok_zero this, of sample_env sample_mb "()"] show ?thesis by blast
qed

text \<open>The verdict of an attempt, as the documentation of \<open>Error\<close> classifies it.\<close>

definition transient_failure :: "Client \<Rightarrow> attempt_env \<Rightarrow> bool" where
  "transient_failure c e \<longleftrightarrow> env_NewRequest e = None \<and>
     (case env_Do e of
        Inl _ \<Rightarrow> env_CtxErr e = None
      | Inr u \<Rightarrow>
          (case ReadAll_LimitReader (int64 (maxResponseBytes c + 1)) u of
             (_, Some _) \<Rightarrow> env_CtxErr e = None
           | (bs, None) \<Rightarrow> up_CloseErr u \<noteq> None
               \<or> int (length bs) \<le> maxResponseBytes c \<and> up_Status u \<in> {502, 503, 504}))"

text \<open>Only transient failures are retried, and the classification is the documented one: an
  attempt's error is transient exactly for a connection or read failure that the caller's own context
  did not cause, a failed close, or a 502/503/504 reply; a success is exactly a fully read 2xx reply,
  whose body is handed over whole and within the size limit.\<close>

theorem attempt_classification:
  assumes "0 < maxResponseBytes c" and "maxResponseBytes c < 2 ^ 63 - 1"
  shows "(IsTransient (snd (attempt_result c env backend i)) \<longleftrightarrow> transient_failure c (env i))
     \<and> (attempt_result c env backend i = (Some rsp, None) \<longleftrightarrow>
          (\<exists>u. env_NewRequest (env i) = None \<and> env_Do (env i) = Inr u \<and> up_ReadErr u = None
             \<and> up_CloseErr u = None \<and> int (length (up_Bytes u)) \<le> maxResponseBytes c
             \<and> 200 \<le> up_Status u \<and> up_Status u < 300
             \<and> rsp = \<lparr>resp_StatusCode = up_Status u, resp_Body = up_Bytes u\<rparr>))"
proof (cases "env_NewRequest (env i)")
  case (Some e)
  then show ?thesis
    by (simp add: attempt_result_def attempt_def transient_failure_def IsTransient_def Let_def)
next
  case None
  have lim: "int64 (maxResponseBytes c + 1) = maxResponseBytes c + 1"
    using assms by (intro int64_id) auto
  show ?thesis
  proof (cases "env_Do (env i)")
    case (Inl e)
    with None show ?thesis
      by (auto simp: attempt_result_def attempt_def transient_failure_def IsTransient_def Let_def)
  next
    case (Inr u)
    have "int (length (take (nat (maxResponseBytes c + 1)) (up_Bytes u))) > maxResponseBytes c"
      if "\<not> int (length (up_Bytes u)) < maxResponseBytes c + 1"
      using that assms(1) by simp
    with None Inr assms lim show ?thesis
      by (cases "int (length (up_Bytes u)) < maxResponseBytes c + 1"; cases "up_ReadErr u")
        (auto simp: attempt_result_def attempt_def transient_failure_def IsTransient_def Let_def
          ReadAll_LimitReader_def)
  qed
qed

theorem attempt_classification_witness:
  "IsTransient (snd (attempt_result (New sample_config) sample_env sample_mb 2))
   \<and> attempt_result (New sample_config) sample_env sample_mb 3 =
       (Some \<lparr>resp_StatusCode = 200, resp_Body = ''{}''\<rparr>, None)"
proof -
  have b: "0 < maxResponseBytes (New sample_config)" "maxResponseBytes (New sample_config) < 2 ^ 63 - 1"
    by code_simp+
  have "transient_failure (New sample_config) (sample_env 2)" by code_simp
  then show ?thesis
    using attempt_classification [OF b, of sample_env sample_mb 2]
      attempt_classification [OF b, of sample_env sample_mb 3 "\<lparr>resp_StatusCode = 200, resp_Body = ''{}''\<rparr>"]
    by (simp add: sample_env_def sample_config_def New_def DefaultMaxResponseBytes_def Let_def)
qed

end
