(* ===== verification/Idempotency.thy ===== *)
theory Idempotency
  imports Db
begin

section \<open>Idempotency (internal/idempotency/idempotency.go, internal/db/idempotency_repo.go)\<close>

text \<open>
  The \<open>Coordinator\<close> over an \<open>IdempotencyStore\<close>, and the Postgres store as operations on the table
  \<open>idempotency_records\<close>, a list of rows. Time is read from two clocks: the application's
  (\<open>Classify\<close> in \<open>Lookup\<close>) and the database's (\<open>now()\<close> in \<open>Begin\<close>). JSON text conversion of the
  header map and Postgres' treatment of \<open>jsonb\<close> are parameters.
\<close>

subsection \<open>Classification\<close>

definition Header :: string where "Header = ''Idempotency-Key''"

datatype Outcome =
    OutcomeAbsent | OutcomeReplay | OutcomeConflictBody | OutcomeInProgress | OutcomeStale

definition Classify :: "IdempotencyRecord option \<Rightarrow> string \<Rightarrow> time \<Rightarrow> Outcome" where
  "Classify rec requestHash now =
     (case rec of
        None \<Rightarrow> OutcomeAbsent
      | Some r \<Rightarrow>
          (if \<not> time_Before now (idr_ExpiresAt r) then OutcomeAbsent
           else if idr_RequestHash r \<noteq> requestHash then OutcomeConflictBody
           else if idr_Status r = IdempotencyStatusCompleted then OutcomeReplay
           else case idr_LockedUntil r of
             Some l \<Rightarrow> (if time_Before now l then OutcomeInProgress else OutcomeStale)
           | None \<Rightarrow> OutcomeStale))"

record LookupResult =
  lr_Outcome :: Outcome
  lr_Record :: "IdempotencyRecord option"

datatype begin_error = ErrRecordActive | BeginDbErr db_error

text \<open>The store interface: every method takes what it reads of the world as its first argument.\<close>

record ('e, 's) IdempotencyStore =
  st_Lookup :: "'e \<Rightarrow> string \<Rightarrow> string \<Rightarrow> string \<Rightarrow> 's \<Rightarrow> (db_error + LookupResult) \<times> 's"
  st_Begin :: "'e \<Rightarrow> string \<Rightarrow> string \<Rightarrow> string \<Rightarrow> duration \<Rightarrow> duration \<Rightarrow> 's \<Rightarrow> (begin_error + uuid) \<times> 's"
  st_Complete :: "'e \<Rightarrow> uuid \<Rightarrow> int \<Rightarrow> string \<Rightarrow> string \<Rightarrow> 's \<Rightarrow> (db_error + unit) \<times> 's"
  st_Release :: "'e \<Rightarrow> uuid \<Rightarrow> 's \<Rightarrow> (db_error + unit) \<times> 's"

text \<open>The scope string; \<open>uuid_String\<close> is the UUID library's printed form.\<close>

definition Scope :: "(uuid \<Rightarrow> string) \<Rightarrow> uuid \<Rightarrow> uuid \<Rightarrow> string \<Rightarrow> string \<Rightarrow> string" where
  "Scope uuid_String tenantID apiKeyID method routePattern =
     ''tenant:'' @ uuid_String tenantID @ '':key:'' @ uuid_String apiKeyID @ '':'' @ method
     @ '':'' @ routePattern"

subsection \<open>The Coordinator\<close>

type_synonym headers = "(string \<times> string) list"

record StoredResponse =
  sr_Status :: int
  sr_Headers :: headers
  sr_Body :: string

datatype Action =
    ActionProceed | ActionStarted | ActionReplay | ActionConflictBody | ActionInProgress

record Decision =
  d_Action :: Action
  d_RecordID :: uuid
  d_Stored :: "StoredResponse option"

datatype idem_error =
    LookupErr db_error
  | BeginErr db_error
  | LookupAfterRaceErr db_error
  | NoStoredResponse
  | HeadersCorrupt string
  | ReleaseErr db_error
  | CompleteErr db_error

text \<open>\<open>json.Marshal\<close> and \<open>json.Unmarshal\<close> of a \<open>map[string]string\<close>.\<close>

record header_json =
  hj_Marshal :: "headers \<Rightarrow> string"
  hj_Unmarshal :: "string \<Rightarrow> string + headers"

record ('e, 's) Coordinator =
  co_store :: "('e, 's) IdempotencyStore"
  co_ttl :: duration
  co_lockTTL :: duration

definition NewCoordinator :: "('e, 's) IdempotencyStore \<Rightarrow> duration \<Rightarrow> duration \<Rightarrow> ('e, 's) Coordinator" where
  "NewCoordinator store ttl lockTTL = \<lparr>co_store = store, co_ttl = ttl, co_lockTTL = lockTTL\<rparr>"

definition decision :: "Action \<Rightarrow> Decision" where
  "decision a = \<lparr>d_Action = a, d_RecordID = 0, d_Stored = None\<rparr>"

definition strip_request_id :: "headers \<Rightarrow> headers" where
  "strip_request_id hs = filter (\<lambda>(k, _). \<not> EqualFold k ''X-Request-ID'') hs"

definition replayFromRecord :: "header_json \<Rightarrow> IdempotencyRecord option \<Rightarrow> idem_error + StoredResponse" where
  "replayFromRecord hj rec =
     (case rec of
        None \<Rightarrow> Inl NoStoredResponse
      | Some r \<Rightarrow>
          (case idr_ResponseStatus r of
             None \<Rightarrow> Inl NoStoredResponse
           | Some st \<Rightarrow>
               (let raw = (case idr_ResponseHeaders r of None \<Rightarrow> [] | Some h \<Rightarrow> h)
                in case (if length raw > 0 then hj_Unmarshal hj raw else Inr []) of
                     Inl e \<Rightarrow> Inl (HeadersCorrupt e)
                   | Inr hs \<Rightarrow>
                       Inr \<lparr>sr_Status = st, sr_Headers = strip_request_id hs,
                            sr_Body = (case idr_ResponseBody r of None \<Rightarrow> [] | Some b \<Rightarrow> b)\<rparr>)))"

definition decideFromLookup :: "header_json \<Rightarrow> LookupResult \<Rightarrow> Action \<Rightarrow> idem_error + Decision" where
  "decideFromLookup hj res whenNew =
     (case lr_Outcome res of
        OutcomeReplay \<Rightarrow>
          (case replayFromRecord hj (lr_Record res) of
             Inl e \<Rightarrow> Inl e
           | Inr stored \<Rightarrow> Inr ((decision ActionReplay)\<lparr>d_Stored := Some stored\<rparr>))
      | OutcomeConflictBody \<Rightarrow> Inr (decision ActionConflictBody)
      | OutcomeInProgress \<Rightarrow> Inr (decision ActionInProgress)
      | _ \<Rightarrow> Inr (decision whenNew))"

definition Check ::
  "header_json \<Rightarrow> ('e, 's) Coordinator \<Rightarrow> 'e \<Rightarrow> string \<Rightarrow> string \<Rightarrow> string \<Rightarrow> 's
     \<Rightarrow> (idem_error + Decision) \<times> 's" where
  "Check hj c e scope key requestHash s =
     (if key = [] then (Inr (decision ActionProceed), s)
      else case st_Lookup (co_store c) e scope key requestHash s of
        (Inl err, s) \<Rightarrow> (Inl (LookupErr err), s)
      | (Inr res, s) \<Rightarrow> (decideFromLookup hj res ActionProceed, s))"

text \<open>\<open>e\<close> is the world of the store's \<open>Begin\<close>, \<open>e'\<close> that of the re-read after a lost race.\<close>

definition Begin ::
  "header_json \<Rightarrow> ('e, 's) Coordinator \<Rightarrow> 'e \<Rightarrow> 'e \<Rightarrow> string \<Rightarrow> string \<Rightarrow> string \<Rightarrow> 's
     \<Rightarrow> (idem_error + Decision) \<times> 's" where
  "Begin hj c e e' scope key requestHash s =
     (if key = [] then (Inr (decision ActionProceed), s)
      else case st_Begin (co_store c) e scope key requestHash (co_ttl c) (co_lockTTL c) s of
        (Inr i, s) \<Rightarrow> (Inr ((decision ActionStarted)\<lparr>d_RecordID := i\<rparr>), s)
      | (Inl (BeginDbErr err), s) \<Rightarrow> (Inl (BeginErr err), s)
      | (Inl ErrRecordActive, s) \<Rightarrow>
          (case st_Lookup (co_store c) e' scope key requestHash s of
             (Inl err, s) \<Rightarrow> (Inl (LookupAfterRaceErr err), s)
           | (Inr res, s) \<Rightarrow> (decideFromLookup hj res ActionInProgress, s)))"

definition Release :: "('e, 's) Coordinator \<Rightarrow> 'e \<Rightarrow> uuid \<Rightarrow> 's \<Rightarrow> (idem_error + unit) \<times> 's" where
  "Release c e recordID s =
     (case st_Release (co_store c) e recordID s of
        (Inl err, s) \<Rightarrow> (Inl (ReleaseErr err), s)
      | (Inr _, s) \<Rightarrow> (Inr (), s))"

definition Complete ::
  "header_json \<Rightarrow> ('e, 's) Coordinator \<Rightarrow> 'e \<Rightarrow> uuid \<Rightarrow> int \<Rightarrow> headers \<Rightarrow> string \<Rightarrow> 's
     \<Rightarrow> (idem_error + unit) \<times> 's" where
  "Complete hj c e recordID status hs body s =
     (case st_Complete (co_store c) e recordID status (hj_Marshal hj (strip_request_id hs)) body s of
        (Inl err, s) \<Rightarrow> (Inl (CompleteErr err), s)
      | (Inr _, s) \<Rightarrow> (Inr (), s))"

subsection \<open>The Postgres store\<close>

type_synonym idem_table = "IdempotencyRecord list"

text \<open>What one statement reads of the world: a fault, the two clocks, \<open>gen_random_uuid()\<close>.\<close>

record idem_env =
  ie_fault :: fault
  ie_db_now :: time
  ie_app_now :: time
  ie_new_id :: uuid

definition row_for :: "string \<Rightarrow> string \<Rightarrow> idem_table \<Rightarrow> IdempotencyRecord option" where
  "row_for scope key t = find (\<lambda>r. idr_Scope r = scope \<and> idr_IdemKey r = key) t"

definition repo_Lookup ::
  "idem_env \<Rightarrow> string \<Rightarrow> string \<Rightarrow> string \<Rightarrow> idem_table \<Rightarrow> (db_error + LookupResult) \<times> idem_table" where
  "repo_Lookup e scope key requestHash t =
     (case exec_sql (ie_fault e)
             (\<lambda>t. (case row_for scope key t of None \<Rightarrow> Inl PgxErrNoRows | Some r \<Rightarrow> Inr r, t)) t of
        (Inl err, t) \<Rightarrow>
          (if mapNotFound err = DB_ErrNotFound
           then (Inr \<lparr>lr_Outcome = OutcomeAbsent, lr_Record = None\<rparr>, t)
           else (Inl (mapNotFound err), t))
      | (Inr r, t) \<Rightarrow>
          (Inr \<lparr>lr_Outcome = Classify (Some r) requestHash (ie_app_now e), lr_Record = Some r\<rparr>, t))"

text \<open>The \<open>WHERE\<close> of the conflict branch: the row may be taken over.\<close>

definition reclaimable :: "time \<Rightarrow> IdempotencyRecord \<Rightarrow> bool" where
  "reclaimable now r \<longleftrightarrow>
     idr_ExpiresAt r \<le> now
     \<or> (idr_Status r = ''pending'' \<and> (case idr_LockedUntil r of None \<Rightarrow> True | Some l \<Rightarrow> l \<le> now))"

text \<open>The row the statement writes, inserted or in place of the one taken over.\<close>

definition pending_row ::
  "postgres \<Rightarrow> idem_env \<Rightarrow> string \<Rightarrow> string \<Rightarrow> string \<Rightarrow> duration \<Rightarrow> duration \<Rightarrow> IdempotencyRecord" where
  "pending_row pg e scope key requestHash ttl lockTTL =
     (let now = ie_db_now e in
      \<lparr>idr_ID = ie_new_id e, idr_Scope = scope, idr_IdemKey = key, idr_RequestHash = requestHash,
       idr_Status = ''pending'', idr_LockedUntil = Some (now + pg_interval pg lockTTL),
       idr_ResponseStatus = None, idr_ResponseHeaders = None, idr_ResponseBody = None,
       idr_CreatedAt = now, idr_ExpiresAt = now + pg_interval pg ttl\<rparr>)"

definition begin_sql ::
  "postgres \<Rightarrow> idem_env \<Rightarrow> string \<Rightarrow> string \<Rightarrow> string \<Rightarrow> duration \<Rightarrow> duration
     \<Rightarrow> idem_table \<Rightarrow> (pg_error + uuid) \<times> idem_table" where
  "begin_sql pg e scope key requestHash ttl lockTTL t =
     (let now = ie_db_now e;
          i = ie_new_id e;
          fresh = pending_row pg e scope key requestHash ttl lockTTL
      in case row_for scope key t of
           None \<Rightarrow>
             (if i \<in> idr_ID ` set t then (Inl (PgCode uniqueViolationCode), t)
              else (Inr i, t @ [fresh]))
         | Some r \<Rightarrow>
             (if \<not> reclaimable now r then (Inl PgxErrNoRows, t)
              else if i \<in> idr_ID ` set t then (Inl (PgCode uniqueViolationCode), t)
              else (Inr i, map (\<lambda>x. if idr_Scope x = scope \<and> idr_IdemKey x = key then fresh else x) t)))"

definition repo_Begin ::
  "postgres \<Rightarrow> idem_env \<Rightarrow> string \<Rightarrow> string \<Rightarrow> string \<Rightarrow> duration \<Rightarrow> duration
     \<Rightarrow> idem_table \<Rightarrow> (begin_error + uuid) \<times> idem_table" where
  "repo_Begin pg e scope key requestHash ttl lockTTL t =
     (case exec_sql (ie_fault e) (begin_sql pg e scope key requestHash ttl lockTTL) t of
        (Inl err, t) \<Rightarrow>
          (if err = PgxErrNoRows then (Inl ErrRecordActive, t) else (Inl (BeginDbErr (DB_Err err)), t))
      | (Inr i, t) \<Rightarrow> (Inr i, t))"

definition owned :: "uuid \<Rightarrow> IdempotencyRecord \<Rightarrow> bool" where
  "owned i r \<longleftrightarrow> idr_ID r = i \<and> idr_Status r = ''pending''"

definition complete_sql ::
  "postgres \<Rightarrow> uuid \<Rightarrow> int \<Rightarrow> string option \<Rightarrow> string option
     \<Rightarrow> idem_table \<Rightarrow> (pg_error + uuid) \<times> idem_table" where
  "complete_sql pg recordID status hs body t =
     (case bind_jsonb pg hs of
        Inl err \<Rightarrow> (Inl err, t)
      | Inr h \<Rightarrow>
          (case bind_jsonb pg body of
             Inl err \<Rightarrow> (Inl err, t)
           | Inr b \<Rightarrow>
               (if \<not> list_ex (owned recordID) t then (Inl PgxErrNoRows, t)
                else (Inr recordID,
                      map (\<lambda>r. if owned recordID r
                               then r\<lparr>idr_Status := ''completed'', idr_LockedUntil := None,
                                      idr_ResponseStatus := Some status,
                                      idr_ResponseHeaders := Some (case h of None \<Rightarrow> ''{}'' | Some x \<Rightarrow> x),
                                      idr_ResponseBody := b\<rparr>
                               else r) t))))"

definition repo_Complete ::
  "postgres \<Rightarrow> idem_env \<Rightarrow> uuid \<Rightarrow> int \<Rightarrow> string \<Rightarrow> string \<Rightarrow> idem_table \<Rightarrow> (db_error + unit) \<times> idem_table" where
  "repo_Complete pg e recordID status hs body t =
     (case exec_sql (ie_fault e)
             (complete_sql pg recordID status (normalizeJSONB hs) (normalizeJSONB body)) t of
        (Inl err, t) \<Rightarrow> (Inl (mapNotFound err), t)
      | (Inr _, t) \<Rightarrow> (Inr (), t))"

definition repo_Release :: "idem_env \<Rightarrow> uuid \<Rightarrow> idem_table \<Rightarrow> (db_error + unit) \<times> idem_table" where
  "repo_Release e recordID t =
     (case exec_sql (ie_fault e) (\<lambda>t. (Inr (), filter (\<lambda>r. \<not> owned recordID r) t)) t of
        (Inl err, t) \<Rightarrow> (Inl (DB_Err err), t)
      | (Inr _, t) \<Rightarrow> (Inr (), t))"

definition IdempotencyRepo :: "postgres \<Rightarrow> (idem_env, idem_table) IdempotencyStore" where
  "IdempotencyRepo pg =
     \<lparr>st_Lookup = repo_Lookup, st_Begin = repo_Begin pg, st_Complete = repo_Complete pg,
      st_Release = repo_Release\<rparr>"

subsection \<open>Executions of the store\<close>

datatype idem_event =
    EvLookup idem_env string string string
  | EvBegin idem_env string string string duration duration
  | EvComplete idem_env uuid int string string
  | EvRelease idem_env uuid

fun idem_step :: "postgres \<Rightarrow> idem_table \<Rightarrow> idem_event \<Rightarrow> idem_table" where
  "idem_step pg t (EvLookup e sc k h) = snd (repo_Lookup e sc k h t)"
| "idem_step pg t (EvBegin e sc k h ttl lk) = snd (repo_Begin pg e sc k h ttl lk t)"
| "idem_step pg t (EvComplete e i st hs b) = snd (repo_Complete pg e i st hs b t)"
| "idem_step pg t (EvRelease e i) = snd (repo_Release e i t)"

abbreviation idem_run :: "postgres \<Rightarrow> idem_table \<Rightarrow> idem_event list \<Rightarrow> idem_table" where
  "idem_run pg \<equiv> foldl (idem_step pg)"

lemma repo_Lookup_pure: "snd (repo_Lookup e sc k h t) = t"
  by (cases "ie_fault e") (auto simp: repo_Lookup_def split: option.splits)

lemma snd_repo_Begin:
  "snd (repo_Begin pg e sc k h ttl lk t) = snd (exec_sql (ie_fault e) (begin_sql pg e sc k h ttl lk) t)"
  by (simp add: repo_Begin_def split: prod.splits sum.splits)

lemma snd_repo_Complete:
  "snd (repo_Complete pg e i st hs b t) =
     snd (exec_sql (ie_fault e) (complete_sql pg i st (normalizeJSONB hs) (normalizeJSONB b)) t)"
  by (simp add: repo_Complete_def split: prod.splits sum.splits)

lemma snd_repo_Release:
  "snd (repo_Release e i t) = snd (exec_sql (ie_fault e) (\<lambda>t. (Inr (), filter (\<lambda>r. \<not> owned i r) t)) t)"
  by (simp add: repo_Release_def split: prod.splits sum.splits)

lemmas idem_step_sql = snd_repo_Begin snd_repo_Complete snd_repo_Release repo_Lookup_pure

text \<open>
  The table constraints: the unique index on (scope, key), the primary key, the status CHECK; and
  that a completed row carries its response status.
\<close>

definition row_key :: "IdempotencyRecord \<Rightarrow> string \<times> string" where
  "row_key r = (idr_Scope r, idr_IdemKey r)"

definition row_ok :: "IdempotencyRecord \<Rightarrow> bool" where
  "row_ok r \<longleftrightarrow> idr_Status r = IdempotencyStatusPending
     \<or> idr_Status r = IdempotencyStatusCompleted \<and> idr_ResponseStatus r \<noteq> None"

definition idem_inv :: "idem_table \<Rightarrow> bool" where
  [inv_defs]: "idem_inv t \<longleftrightarrow> distinct (map row_key t) \<and> distinct (map idr_ID t) \<and> (\<forall>r \<in> set t. row_ok r)"

lemma row_for_Some: "row_for sc k t = Some r \<Longrightarrow> r \<in> set t \<and> row_key r = (sc, k)"
  by (auto simp: row_for_def row_key_def find_Some_iff)

lemma row_for_None: "row_for sc k t = None \<longleftrightarrow> (sc, k) \<notin> row_key ` set t"
  by (auto simp: row_for_def row_key_def find_None_iff)

lemma row_for_eq:
  assumes "idem_inv t" and "r \<in> set t"
  shows "row_for (idr_Scope r) (idr_IdemKey r) t = Some r"
proof -
  obtain r' where r': "row_for (idr_Scope r) (idr_IdemKey r) t = Some r'"
    using assms(2) by (cases "row_for (idr_Scope r) (idr_IdemKey r) t") (auto simp: row_for_None row_key_def)
  then have "r' \<in> set t" "row_key r' = row_key r" using row_for_Some by (auto simp: row_key_def)
  then have "r' = r" using assms by (auto simp: idem_inv_def distinct_map inj_on_def)
  with r' show ?thesis by simp
qed

text \<open>Replacing the row of one key by one with the same key and a new id keeps both keys unique.\<close>

lemma map_key_replace:
  "row_key fresh = (sc, k) \<Longrightarrow>
     map row_key (map (\<lambda>x. if idr_Scope x = sc \<and> idr_IdemKey x = k then fresh else x) t) = map row_key t"
  by (auto simp: row_key_def)

lemma distinct_replace_id:
  assumes "distinct (map row_key t)" and "distinct (map idr_ID t)" and "idr_ID fresh \<notin> idr_ID ` set t"
  shows "distinct (map idr_ID (map (\<lambda>x. if idr_Scope x = sc \<and> idr_IdemKey x = k then fresh else x) t))"
  using assms
proof (induction t)
  case Nil
  then show ?case by simp
next
  case (Cons x t)
  show ?case
  proof (cases "idr_Scope x = sc \<and> idr_IdemKey x = k")
    case True
    then have "\<forall>y \<in> set t. \<not> (idr_Scope y = sc \<and> idr_IdemKey y = k)"
      using Cons.prems(1) by (auto simp: row_key_def image_iff)
    then have "map (\<lambda>x. if idr_Scope x = sc \<and> idr_IdemKey x = k then fresh else x) t = t"
      by (intro map_idI) auto
    with True Cons.prems show ?thesis by auto
  next
    case False
    let ?f = "\<lambda>x. if idr_Scope x = sc \<and> idr_IdemKey x = k then fresh else x"
    have "idr_ID ` ?f ` set t \<subseteq> insert (idr_ID fresh) (idr_ID ` set t)" by auto
    then have "idr_ID x \<notin> idr_ID ` set (map ?f t)" using Cons.prems by auto
    moreover have "distinct (map idr_ID (map ?f t))" using Cons by auto
    moreover have "?f x = x" using False by auto
    ultimately show ?thesis by (simp only: list.map distinct.simps set_map [symmetric] simp_thms)
  qed
qed

lemma pending_row_fields [simp]:
  "idr_ID (pending_row pg e sc k h ttl lk) = ie_new_id e"
  "idr_Scope (pending_row pg e sc k h ttl lk) = sc" "idr_IdemKey (pending_row pg e sc k h ttl lk) = k"
  "idr_RequestHash (pending_row pg e sc k h ttl lk) = h"
  "idr_Status (pending_row pg e sc k h ttl lk) = IdempotencyStatusPending"
  "idr_LockedUntil (pending_row pg e sc k h ttl lk) = Some (ie_db_now e + pg_interval pg lk)"
  "idr_ExpiresAt (pending_row pg e sc k h ttl lk) = ie_db_now e + pg_interval pg ttl"
  "row_key (pending_row pg e sc k h ttl lk) = (sc, k)" "row_ok (pending_row pg e sc k h ttl lk)"
  by (simp_all add: pending_row_def row_key_def row_ok_def IdempotencyStatusPending_def Let_def)

text \<open>The three ways the upsert ends.\<close>

lemma begin_sql_cases:
  obtains (fails) err where "begin_sql pg e sc k h ttl lk t = (Inl err, t)"
    | (inserts) "row_for sc k t = None" "ie_new_id e \<notin> idr_ID ` set t"
        "begin_sql pg e sc k h ttl lk t = (Inr (ie_new_id e), t @ [pending_row pg e sc k h ttl lk])"
    | (reclaims) r where "row_for sc k t = Some r" "reclaimable (ie_db_now e) r"
        "ie_new_id e \<notin> idr_ID ` set t"
        "begin_sql pg e sc k h ttl lk t = (Inr (ie_new_id e),
           map (\<lambda>x. if idr_Scope x = sc \<and> idr_IdemKey x = k then pending_row pg e sc k h ttl lk else x) t)"
proof (cases "row_for sc k t")
  case None
  then show thesis
    by (cases "ie_new_id e \<in> idr_ID ` set t") (auto simp: begin_sql_def Let_def intro: fails inserts)
next
  case (Some r)
  then show thesis
    by (cases "ie_new_id e \<in> idr_ID ` set t"; cases "reclaimable (ie_db_now e) r")
      (auto simp: begin_sql_def Let_def intro: fails reclaims)
qed

lemma begin_sql_inv:
  assumes "idem_inv t"
  shows "idem_inv (snd (begin_sql pg e sc k h ttl lk t))"
proof (cases rule: begin_sql_cases [of pg e sc k h ttl lk t])
  case fails
  then show ?thesis using assms by simp
next
  case inserts
  then show ?thesis using assms by (auto simp: idem_inv_def row_for_None)
next
  case (reclaims r)
  then show ?thesis
    using assms distinct_replace_id [of t "pending_row pg e sc k h ttl lk" sc k]
    by (auto simp: idem_inv_def map_key_replace simp del: map_map)
qed

text \<open>The row after completion.\<close>

definition completed_row :: "int \<Rightarrow> string option \<Rightarrow> string option \<Rightarrow> IdempotencyRecord \<Rightarrow> IdempotencyRecord" where
  "completed_row st h b r =
     r\<lparr>idr_Status := ''completed'', idr_LockedUntil := None, idr_ResponseStatus := Some st,
       idr_ResponseHeaders := Some (case h of None \<Rightarrow> ''{}'' | Some x \<Rightarrow> x), idr_ResponseBody := b\<rparr>"

lemma completed_row_fields [simp]:
  "idr_ID (completed_row st h b r) = idr_ID r" "row_key (completed_row st h b r) = row_key r"
  "idr_Scope (completed_row st h b r) = idr_Scope r" "idr_IdemKey (completed_row st h b r) = idr_IdemKey r"
  "idr_Status (completed_row st h b r) = IdempotencyStatusCompleted" "row_ok (completed_row st h b r)"
  "idr_RequestHash (completed_row st h b r) = idr_RequestHash r"
  "idr_ExpiresAt (completed_row st h b r) = idr_ExpiresAt r"
  by (simp_all add: completed_row_def row_key_def row_ok_def IdempotencyStatusCompleted_def)

lemma complete_sql_cases:
  obtains (fails) err where "complete_sql pg i st hs b t = (Inl err, t)"
    | (completes) h' b' where "bind_jsonb pg hs = Inr h'" "bind_jsonb pg b = Inr b'" "list_ex (owned i) t"
        "complete_sql pg i st hs b t =
           (Inr i, map (\<lambda>r. if owned i r then completed_row st h' b' r else r) t)"
  by (cases "bind_jsonb pg hs"; cases "bind_jsonb pg b"; cases "list_ex (owned i) t")
    (auto simp: complete_sql_def completed_row_def [symmetric])

lemma complete_sql_inv:
  assumes "idem_inv t"
  shows "idem_inv (snd (complete_sql pg i st hs b t))"
proof (cases rule: complete_sql_cases [of pg i st hs b t])
  case fails
  then show ?thesis using assms by simp
next
  case (completes h' b')
  have "map idr_ID (map (\<lambda>r. if owned i r then completed_row st h' b' r else r) t) = map idr_ID t"
    "map row_key (map (\<lambda>r. if owned i r then completed_row st h' b' r else r) t) = map row_key t"
    by simp_all
  with assms completes show ?thesis by (auto simp: idem_inv_def simp del: map_map)
qed

lemma release_inv: "idem_inv t \<Longrightarrow> idem_inv (filter P t)"
  by (auto simp: idem_inv_def distinct_map_filter)

lemma idem_step_inv: "idem_inv t \<Longrightarrow> idem_inv (idem_step pg t ev)"
  by (cases ev)
    (simp_all add: idem_step_sql exec_sql_keeps [where P = idem_inv] begin_sql_inv complete_sql_inv release_inv)

interpretation idem: guarded_object "idem_step pg" idem_inv for pg
  by unfold_locales (rule idem_step_inv)

subsection \<open>A row that nothing may touch\<close>

text \<open>
  What an event may not do if the row \<open>r\<close> is to stay: take it over when its time is up, or complete
  or release it as its pending owner.
\<close>

fun leaves_row :: "IdempotencyRecord \<Rightarrow> idem_event \<Rightarrow> bool" where
  "leaves_row r (EvBegin e sc k h ttl lk) \<longleftrightarrow> row_key r = (sc, k) \<longrightarrow> \<not> reclaimable (ie_db_now e) r"
| "leaves_row r (EvComplete e i st hs b) \<longleftrightarrow> \<not> owned i r"
| "leaves_row r (EvRelease e i) \<longleftrightarrow> \<not> owned i r"
| "leaves_row r (EvLookup e sc k h) \<longleftrightarrow> True"

lemma begin_sql_keeps_row:
  assumes "idem_inv t" and "r \<in> set t" and "row_key r = (sc, k) \<longrightarrow> \<not> reclaimable (ie_db_now e) r"
  shows "r \<in> set (snd (begin_sql pg e sc k h ttl lk t))"
proof (cases rule: begin_sql_cases [of pg e sc k h ttl lk t])
  case (reclaims r')
  have "row_key r \<noteq> (sc, k)"
  proof
    assume "row_key r = (sc, k)"
    then have "row_for sc k t = Some r" using row_for_eq [OF assms(1,2)] by (simp add: row_key_def)
    with reclaims assms(3) \<open>row_key r = (sc, k)\<close> show False by simp
  qed
  with reclaims assms(2) show ?thesis by (auto simp: row_key_def image_iff)
qed (use assms(2) in auto)

lemma complete_sql_keeps_row:
  assumes "r \<in> set t" and "\<not> owned i r"
  shows "r \<in> set (snd (complete_sql pg i st hs b t))"
  by (cases rule: complete_sql_cases [of pg i st hs b t]) (use assms in \<open>auto simp: image_iff\<close>)

lemma idem_step_keeps_row:
  assumes "idem_inv t" and "r \<in> set t" and "leaves_row r ev"
  shows "r \<in> set (idem_step pg t ev)"
proof (cases ev)
  case (EvBegin e sc k h ttl lk)
  then show ?thesis
    using assms(3) begin_sql_keeps_row [OF assms(1,2), of sc k e]
    by (simp only: idem_step.simps leaves_row.simps snd_repo_Begin
        exec_sql_keeps [where P = "\<lambda>t. r \<in> set t", OF assms(2)])
next
  case (EvComplete e i st hs b)
  then show ?thesis
    using assms(3) complete_sql_keeps_row [OF assms(2), of i]
    by (simp only: idem_step.simps leaves_row.simps snd_repo_Complete
        exec_sql_keeps [where P = "\<lambda>t. r \<in> set t", OF assms(2)] simp_thms)
next
  case (EvRelease e i)
  then show ?thesis
    using assms(2,3) by (cases "ie_fault e") (simp_all add: snd_repo_Release)
next
  case EvLookup
  then show ?thesis using assms(2) by (simp add: repo_Lookup_pure)
qed

lemma idem_run_keeps_row:
  assumes "idem_inv t" and "r \<in> set t" and "list_all (leaves_row r) es"
  shows "r \<in> set (idem_run pg t es)"
  using assms
proof (induction es arbitrary: t)
  case Nil
  then show ?case by simp
next
  case (Cons ev es)
  then show ?case by (auto intro!: Cons.IH idem_step_inv idem_step_keeps_row)
qed

lemma repo_Begin_Inr:
  assumes "idem_inv t" and "repo_Begin pg e sc k h ttl lk t = (Inr i, t')"
  shows "i = ie_new_id e \<and> i \<notin> idr_ID ` set t \<and> pending_row pg e sc k h ttl lk \<in> set t' \<and> idem_inv t'
    \<and> (\<forall>r \<in> set t'. r = pending_row pg e sc k h ttl lk \<or> r \<in> set t \<and> row_key r \<noteq> (sc, k))"
proof -
  have sql: "begin_sql pg e sc k h ttl lk t = (Inr i, t')"
    using assms(2) exec_sql_Inr [of "ie_fault e" "begin_sql pg e sc k h ttl lk" t i t']
    by (auto simp: repo_Begin_def split: prod.splits sum.splits if_splits)
  have inv: "idem_inv t'" using begin_sql_inv [OF assms(1), of pg e sc k h ttl lk] sql by simp
  show ?thesis
  proof (cases rule: begin_sql_cases [of pg e sc k h ttl lk t])
    case fails
    then show ?thesis using sql by simp
  next
    case inserts
    have "row_key r \<noteq> (sc, k)" if "r \<in> set t" for r
      using that inserts(1) by (metis row_for_None imageI)
    with inserts sql inv show ?thesis by auto
  next
    case (reclaims r)
    have "r \<in> set t" "row_key r = (sc, k)" using row_for_Some [OF reclaims(1)] by auto
    then have "pending_row pg e sc k h ttl lk \<in> set t'"
      using reclaims(4) sql by (auto simp: row_key_def image_iff)
    then show ?thesis using reclaims sql inv by (auto simp: row_key_def split: if_splits)
  qed
qed

lemma repo_Begin_refused:
  assumes "idem_inv t" and "r \<in> set t" and "row_key r = (sc, k)" and "\<not> reclaimable (ie_db_now e) r"
  shows "snd (repo_Begin pg e sc k h ttl lk t) = t \<and> (\<nexists>i. fst (repo_Begin pg e sc k h ttl lk t) = Inr i)
    \<and> (ie_fault e = NoFault \<longrightarrow> fst (repo_Begin pg e sc k h ttl lk t) = Inl ErrRecordActive)"
proof -
  have "row_for sc k t = Some r" using row_for_eq [OF assms(1,2)] assms(3) by (simp add: row_key_def)
  then have "begin_sql pg e sc k h ttl lk t = (Inl PgxErrNoRows, t)"
    using assms(4) by (simp add: begin_sql_def Let_def)
  then show ?thesis by (cases "ie_fault e") (auto simp: repo_Begin_def)
qed

subsection \<open>The store's promises\<close>

text \<open>An event that respects the lock of record \<open>i\<close>, which ends at \<open>T\<close> on the database clock.\<close>

fun respects_lock :: "uuid \<Rightarrow> time \<Rightarrow> idem_event \<Rightarrow> bool" where
  "respects_lock i T (EvBegin e sc k h ttl lk) \<longleftrightarrow> ie_db_now e < T"
| "respects_lock i T (EvComplete e j st hs b) \<longleftrightarrow> j \<noteq> i"
| "respects_lock i T (EvRelease e j) \<longleftrightarrow> j \<noteq> i"
| "respects_lock i T (EvLookup e sc k h) \<longleftrightarrow> True"

lemma pending_row_not_reclaimable:
  "now < ie_db_now e + min (pg_interval pg lk) (pg_interval pg ttl) \<Longrightarrow>
     \<not> reclaimable now (pending_row pg e sc k h ttl lk)"
  by (auto simp: reclaimable_def)

lemma respects_lock_leaves_row:
  "respects_lock (ie_new_id e) (ie_db_now e + min (pg_interval pg lk) (pg_interval pg ttl)) ev \<Longrightarrow>
     leaves_row (pending_row pg e sc k h ttl lk) ev"
  by (cases ev) (auto simp: pending_row_not_reclaimable owned_def)

text \<open>C12: Mutual exclusion. Once \<open>Begin\<close> has opened a record, then whatever the gateways and
  workers do to the table afterwards, as long as the database clock has not reached the end of the lock
  (or of the record's lifetime) and the owner has neither completed nor released it, no other \<open>Begin\<close> for
  the same scope and key succeeds (without a fault it reports \<open>ErrRecordActive\<close>) and the owner's row is
  untouched.\<close>

theorem Begin_mutual_exclusion:
  assumes "idem_inv t" and "repo_Begin pg e sc k h ttl lk t = (Inr i, t')"
    and "list_all (respects_lock i (ie_db_now e + min (pg_interval pg lk) (pg_interval pg ttl))) es"
    and "ie_db_now e' < ie_db_now e + min (pg_interval pg lk) (pg_interval pg ttl)"
  shows "pending_row pg e sc k h ttl lk \<in> set (idem_run pg t' es)
     \<and> (\<nexists>j. fst (repo_Begin pg e' sc k h' ttl' lk' (idem_run pg t' es)) = Inr j)
     \<and> snd (repo_Begin pg e' sc k h' ttl' lk' (idem_run pg t' es)) = idem_run pg t' es
     \<and> (ie_fault e' = NoFault \<longrightarrow>
          fst (repo_Begin pg e' sc k h' ttl' lk' (idem_run pg t' es)) = Inl ErrRecordActive)"
proof -
  from repo_Begin_Inr [OF assms(1,2)] have i: "i = ie_new_id e"
    and row: "pending_row pg e sc k h ttl lk \<in> set t'" and inv: "idem_inv t'" by auto
  have "list_all (leaves_row (pending_row pg e sc k h ttl lk)) es"
    using assms(3) respects_lock_leaves_row unfolding i by (auto simp: list_all_iff)
  then have "pending_row pg e sc k h ttl lk \<in> set (idem_run pg t' es)"
    by (rule idem_run_keeps_row [OF inv row])
  moreover have "idem_inv (idem_run pg t' es)" using idem.run_inv [OF inv] .
  ultimately show ?thesis
    using repo_Begin_refused [OF _ _ _ pending_row_not_reclaimable [OF assms(4)]] by simp
qed

definition sample_pg :: postgres where
  "sample_pg = \<lparr>pg_jsonb = Some, pg_interval = (\<lambda>d. d)\<rparr>"

definition env_at :: "time \<Rightarrow> uuid \<Rightarrow> idem_env" where
  "env_at t i = \<lparr>ie_fault = NoFault, ie_db_now = t, ie_app_now = t, ie_new_id = i\<rparr>"

definition sample_row :: IdempotencyRecord where
  "sample_row = pending_row sample_pg (env_at 0 1) ''s'' ''k'' ''h'' 100 50"

lemma sample_begin: "repo_Begin sample_pg (env_at 0 1) ''s'' ''k'' ''h'' 100 50 [] = (Inr 1, [sample_row])"
  by code_simp

lemma idem_inv_Nil [simp]: "idem_inv []"
  by (simp add: idem_inv_def)

theorem Begin_mutual_exclusion_witness:
  "fst (repo_Begin sample_pg (env_at 49 7) ''s'' ''k'' ''other'' 100 50
     (idem_run sample_pg [sample_row]
        [EvComplete (env_at 3 9) 4 200 ''{}'' ''{}'', EvBegin (env_at 20 5) ''s'' ''k'' ''h'' 100 50]))
   = Inl ErrRecordActive"
proof -
  have "list_all (respects_lock 1 (ie_db_now (env_at 0 1) + min (pg_interval sample_pg 50) (pg_interval sample_pg 100)))
     [EvComplete (env_at 3 9) 4 200 ''{}'' ''{}'', EvBegin (env_at 20 5) ''s'' ''k'' ''h'' 100 50]"
    by code_simp
  moreover have "ie_db_now (env_at 49 7) < ie_db_now (env_at 0 1) + min (pg_interval sample_pg 50) (pg_interval sample_pg 100)"
    by code_simp
  moreover have "ie_fault (env_at 49 7) = NoFault" by (simp add: env_at_def)
  ultimately show ?thesis
    using Begin_mutual_exclusion [OF idem_inv_Nil sample_begin] by blast
qed

lemma no_id_step:
  assumes "old \<notin> idr_ID ` set t"
    and "\<And>e sc k h ttl lk. ev = EvBegin e sc k h ttl lk \<Longrightarrow> ie_new_id e \<noteq> old"
  shows "old \<notin> idr_ID ` set (idem_step pg t ev)"
proof (cases ev)
  case (EvBegin e sc k h ttl lk)
  have "old \<notin> idr_ID ` set (snd (begin_sql pg e sc k h ttl lk t))"
    by (cases rule: begin_sql_cases [of pg e sc k h ttl lk t]) (use assms EvBegin in auto)
  then show ?thesis
    using EvBegin assms(1) exec_sql_keeps [where P = "\<lambda>t. old \<notin> idr_ID ` set t"] by (simp add: snd_repo_Begin)
next
  case (EvComplete e i st hs b)
  have "old \<notin> idr_ID ` set (snd (complete_sql pg i st (normalizeJSONB hs) (normalizeJSONB b) t))"
    by (cases rule: complete_sql_cases [of pg i st "normalizeJSONB hs" "normalizeJSONB b" t])
      (use assms(1) in \<open>auto simp: image_iff\<close>)
  then show ?thesis
    using EvComplete assms(1) exec_sql_keeps [where P = "\<lambda>t. old \<notin> idr_ID ` set t"] by (simp add: snd_repo_Complete)
next
  case (EvRelease e i)
  have "old \<notin> idr_ID ` set (filter (\<lambda>r. \<not> owned i r) t)" using assms(1) by auto
  then show ?thesis
    using EvRelease assms(1) by (cases "ie_fault e") (simp_all add: snd_repo_Release)
qed (use assms(1) in \<open>simp add: repo_Lookup_pure\<close>)

fun mints :: "uuid \<Rightarrow> idem_event \<Rightarrow> bool" where
  "mints i (EvBegin e _ _ _ _ _) \<longleftrightarrow> ie_new_id e = i"
| "mints i _ \<longleftrightarrow> False"

lemma no_id_run:
  "old \<notin> idr_ID ` set t \<Longrightarrow> list_all (\<lambda>ev. \<not> mints old ev) es \<Longrightarrow> old \<notin> idr_ID ` set (idem_run pg t es)"
proof (induction es arbitrary: t)
  case (Cons ev es)
  then have "old \<notin> idr_ID ` set (idem_step pg t ev)" by (intro no_id_step) auto
  with Cons show ?case by simp
qed simp

lemma no_id_complete:
  assumes "old \<notin> idr_ID ` set t"
  shows "snd (repo_Complete pg e old st hs b t) = t \<and> fst (repo_Complete pg e old st hs b t) \<noteq> Inr ()"
proof -
  have "\<not> list_ex (owned old) t" using assms by (auto simp: list_ex_iff owned_def image_iff)
  then obtain err where "complete_sql pg old st (normalizeJSONB hs) (normalizeJSONB b) t = (Inl err, t)"
    by (cases rule: complete_sql_cases [of pg old st "normalizeJSONB hs" "normalizeJSONB b" t]) auto
  then show ?thesis by (cases "ie_fault e") (auto simp: repo_Complete_def)
qed

lemma no_id_release: "old \<notin> idr_ID ` set t \<Longrightarrow> snd (repo_Release e old t) = t"
  by (cases "ie_fault e") (auto simp: repo_Release_def owned_def image_iff intro!: filter_True)

text \<open>C18: A reclaimed owner is fenced off. When a \<open>Begin\<close> takes over a lapsed record, it mints a new
  id, so at every later point (ids not being minted twice) the previous owner's \<open>Complete\<close> fails and
  its \<open>Complete\<close> and \<open>Release\<close> leave the table as it is: a late worker can neither overwrite nor drop
  the record of the one that replaced it.\<close>

theorem reclaim_fences_old_owner:
  assumes "idem_inv t" and "r \<in> set t" and "row_key r = (sc, k)"
    and "repo_Begin pg e sc k h ttl lk t = (Inr i, t')"
    and "list_all (\<lambda>ev. \<not> mints (idr_ID r) ev) es"
  shows "fst (repo_Complete pg e' (idr_ID r) st hs b (idem_run pg t' es)) \<noteq> Inr ()
     \<and> snd (repo_Complete pg e' (idr_ID r) st hs b (idem_run pg t' es)) = idem_run pg t' es
     \<and> snd (repo_Release e' (idr_ID r) (idem_run pg t' es)) = idem_run pg t' es"
proof -
  from repo_Begin_Inr [OF assms(1,4)] have new: "ie_new_id e \<notin> idr_ID ` set t"
    and rows: "\<forall>x \<in> set t'. x = pending_row pg e sc k h ttl lk \<or> x \<in> set t \<and> row_key x \<noteq> (sc, k)"
    by auto
  have "idr_ID x \<noteq> idr_ID r" if "x \<in> set t'" for x
  proof (cases "x = pending_row pg e sc k h ttl lk")
    case True
    then show ?thesis using new assms(2) by auto
  next
    case False
    then have "x \<in> set t" "x \<noteq> r" using rows that assms(3) by auto
    then show ?thesis using assms(1,2) by (auto simp: idem_inv_def distinct_map inj_on_def)
  qed
  then have "idr_ID r \<notin> idr_ID ` set t'" by force
  then have "idr_ID r \<notin> idr_ID ` set (idem_run pg t' es)" using assms(5) by (rule no_id_run)
  then show ?thesis using no_id_complete no_id_release by blast
qed

theorem reclaim_fences_old_owner_witness:
  "fst (repo_Complete sample_pg (env_at 61 0) 1 200 ''{}'' ''{}''
      (snd (repo_Begin sample_pg (env_at 60 2) ''s'' ''k'' ''h'' 100 50 [sample_row]))) \<noteq> Inr ()"
proof -
  have inv: "idem_inv [sample_row]"
    using repo_Begin_Inr [OF idem_inv_Nil sample_begin] by simp
  have b: "repo_Begin sample_pg (env_at 60 2) ''s'' ''k'' ''h'' 100 50 [sample_row] =
      (Inr 2, snd (repo_Begin sample_pg (env_at 60 2) ''s'' ''k'' ''h'' 100 50 [sample_row]))"
    by code_simp
  have "sample_row \<in> set [sample_row]" "row_key sample_row = (''s'', ''k'')" "idr_ID sample_row = 1"
    by (simp_all add: sample_row_def env_at_def)
  then show ?thesis
    using reclaim_fences_old_owner [OF inv _ _ b, of sample_row "[]" "env_at 61 0" 200 "''{}''" "''{}''"] by simp
qed

subsection \<open>The interface the Coordinator relies on\<close>

text \<open>
  \<open>rec_of\<close> reads the record of a key, \<open>now_of\<close> the clock \<open>Lookup\<close> classifies with. The laws are the
  promises documented on \<open>IdempotencyStore\<close>.
\<close>

locale idempotency_store =
  fixes store :: "('e, 's) IdempotencyStore"
    and inv :: "'s \<Rightarrow> bool"
    and rec_of :: "'s \<Rightarrow> string \<Rightarrow> string \<Rightarrow> IdempotencyRecord option"
    and now_of :: "'e \<Rightarrow> time"
  assumes lookup_pure: "snd (st_Lookup store e sc k h s) = s"
    and lookup_classifies: "inv s \<Longrightarrow> fst (st_Lookup store e sc k h s) = Inr res \<Longrightarrow>
      lr_Outcome res = Classify (rec_of s sc k) h (now_of e) \<and> lr_Record res = rec_of s sc k"
    and begin_opens: "inv s \<Longrightarrow> st_Begin store e sc k h ttl lk s = (Inr i, s') \<Longrightarrow>
      \<exists>r. rec_of s' sc k = Some r \<and> idr_ID r = i \<and> idr_Status r = IdempotencyStatusPending
        \<and> idr_RequestHash r = h"
    and begin_active_pure: "st_Begin store e sc k h ttl lk s = (Inl ErrRecordActive, s') \<Longrightarrow> s' = s"
    and completed_status: "inv s \<Longrightarrow> rec_of s sc k = Some r \<Longrightarrow>
      idr_Status r = IdempotencyStatusCompleted \<Longrightarrow> idr_ResponseStatus r \<noteq> None"
begin

lemma Check_pure: "co_store c = store \<Longrightarrow> snd (Check hj c e sc k h s) = s"
  using lookup_pure [of e sc k h s] by (auto simp: Check_def split: prod.splits sum.splits)

text \<open>Check answers by the record alone.\<close>

lemma Check_decides:
  assumes "co_store c = store" and "inv s" and "k \<noteq> []" and "fst (Check hj c e sc k h s) = Inr d"
  shows "(d_Action d = ActionProceed \<longleftrightarrow> Classify (rec_of s sc k) h (now_of e) \<in> {OutcomeAbsent, OutcomeStale})
    \<and> (d_Action d = ActionReplay \<longleftrightarrow> Classify (rec_of s sc k) h (now_of e) = OutcomeReplay)
    \<and> (d_Action d = ActionConflictBody \<longleftrightarrow> Classify (rec_of s sc k) h (now_of e) = OutcomeConflictBody)
    \<and> (d_Action d = ActionInProgress \<longleftrightarrow> Classify (rec_of s sc k) h (now_of e) = OutcomeInProgress)
    \<and> d_Action d \<noteq> ActionStarted"
proof -
  obtain res where lk: "fst (st_Lookup store e sc k h s) = Inr res" and dl: "decideFromLookup hj res ActionProceed = Inr d"
    using assms by (auto simp: Check_def split: prod.splits sum.splits)
  have "lr_Outcome res = Classify (rec_of s sc k) h (now_of e)" using lookup_classifies [OF assms(2) lk] by simp
  with dl show ?thesis
    by (cases "lr_Outcome res") (auto simp: decideFromLookup_def decision_def split: sum.splits)
qed

text \<open>A replay decision carries the stored response of the very record.\<close>

lemma Check_replay:
  assumes "co_store c = store" and "inv s" and "k \<noteq> []" and "fst (st_Lookup store e sc k h s) = Inr res"
    and "rec_of s sc k = Some r" and "idr_Status r = IdempotencyStatusCompleted" and "idr_RequestHash r = h"
    and "now_of e < idr_ExpiresAt r" and "replayFromRecord hj (Some r) = Inr stored"
  shows "fst (Check hj c e sc k h s) = Inr ((decision ActionReplay)\<lparr>d_Stored := Some stored\<rparr>)"
proof -
  have "lr_Outcome res = OutcomeReplay" "lr_Record res = Some r"
    using lookup_classifies [OF assms(2,4)] assms(5-8) by (auto simp: Classify_def time_Before_def)
  with assms(1,3,4,9) show ?thesis
    by (cases "st_Lookup store e sc k h s") (simp add: Check_def decideFromLookup_def)
qed

text \<open>With a key, \<open>Begin\<close> never lets work through unguarded: it started a record, or it refuses.\<close>

lemma Begin_guarded:
  assumes "co_store c = store" and "inv s" and "k \<noteq> []" and "Begin hj c e e' sc k h s = (Inr d, s')"
  shows "d_Action d \<noteq> ActionProceed
    \<and> (d_Action d = ActionStarted \<longrightarrow>
         (\<exists>r. rec_of s' sc k = Some r \<and> idr_ID r = d_RecordID d \<and> idr_Status r = IdempotencyStatusPending
            \<and> idr_RequestHash r = h))
    \<and> (d_Action d \<noteq> ActionStarted \<longrightarrow> s' = s)"
proof (cases "st_Begin store e sc k h (co_ttl c) (co_lockTTL c) s")
  case (Pair res s1)
  show ?thesis
  proof (cases res)
    case (Inr i)
    with Pair assms(1,3,4) have d: "d = (decision ActionStarted)\<lparr>d_RecordID := i\<rparr>" "s' = s1"
      by (auto simp: Begin_def)
    then show ?thesis using begin_opens [OF assms(2), of e sc k h "co_ttl c" "co_lockTTL c" i s1] Pair Inr
      by (simp add: decision_def)
  next
    case (Inl err)
    have act: "err = ErrRecordActive" using Inl Pair assms(1,3,4) by (cases err) (auto simp: Begin_def)
    then have s1: "s1 = s" using Pair Inl begin_active_pure by blast
    obtain r2 where lk: "st_Lookup store e' sc k h s = (r2, s)" using lookup_pure [of e' sc k h s]
      by (cases "st_Lookup store e' sc k h s") auto
    obtain lr where "r2 = Inr lr" "decideFromLookup hj lr ActionInProgress = Inr d" "s' = s"
      using assms(1,3,4) Pair Inl act s1 lk by (cases r2) (auto simp: Begin_def)
    then show ?thesis
      by (cases "lr_Outcome lr") (auto simp: decideFromLookup_def decision_def split: sum.splits)
  qed
qed

end

lemma repo_Lookup_Inr:
  assumes "fst (repo_Lookup e sc k h t) = Inr res"
  shows "lr_Outcome res = Classify (row_for sc k t) h (ie_app_now e) \<and> lr_Record res = row_for sc k t"
  using assms
  by (cases "ie_fault e"; cases "row_for sc k t")
    (auto simp: repo_Lookup_def mapNotFound_def Classify_def)

interpretation pg_store: idempotency_store "IdempotencyRepo pg" idem_inv "\<lambda>t sc k. row_for sc k t" ie_app_now for pg
proof
  fix e sc k h ttl lk i r and s s' :: idem_table and res
  show "snd (st_Lookup (IdempotencyRepo pg) e sc k h s) = s"
    by (simp add: IdempotencyRepo_def repo_Lookup_pure)
  show "fst (st_Lookup (IdempotencyRepo pg) e sc k h s) = Inr res \<Longrightarrow>
      lr_Outcome res = Classify (row_for sc k s) h (ie_app_now e) \<and> lr_Record res = row_for sc k s"
    by (simp add: IdempotencyRepo_def repo_Lookup_Inr)
  show "idem_inv s \<Longrightarrow> st_Begin (IdempotencyRepo pg) e sc k h ttl lk s = (Inr i, s') \<Longrightarrow>
      \<exists>r. row_for sc k s' = Some r \<and> idr_ID r = i \<and> idr_Status r = IdempotencyStatusPending \<and> idr_RequestHash r = h"
    using repo_Begin_Inr [of s pg e sc k h ttl lk i s']
      row_for_eq [of s' "pending_row pg e sc k h ttl lk"] by (auto simp: IdempotencyRepo_def)
  show "st_Begin (IdempotencyRepo pg) e sc k h ttl lk s = (Inl ErrRecordActive, s') \<Longrightarrow> s' = s"
    by (cases "ie_fault e"; cases rule: begin_sql_cases [of pg e sc k h ttl lk s])
      (auto simp: IdempotencyRepo_def repo_Begin_def split: if_splits)
  show "idem_inv s \<Longrightarrow> row_for sc k s = Some r \<Longrightarrow> idr_Status r = IdempotencyStatusCompleted \<Longrightarrow>
      idr_ResponseStatus r \<noteq> None"
    by (auto dest!: row_for_Some simp: idem_inv_def row_ok_def IdempotencyStatusCompleted_def
        IdempotencyStatusPending_def)
qed

subsection \<open>Replay\<close>

lemma completed_leaves_row:
  assumes "idr_Status r = IdempotencyStatusCompleted"
    and "\<And>e sc k h ttl lk. ev = EvBegin e sc k h ttl lk \<Longrightarrow> ie_db_now e < idr_ExpiresAt r"
  shows "leaves_row r ev"
  using assms by (cases ev) (auto simp: reclaimable_def owned_def IdempotencyStatusCompleted_def)

fun db_before :: "time \<Rightarrow> idem_event \<Rightarrow> bool" where
  "db_before T (EvBegin e _ _ _ _ _) \<longleftrightarrow> ie_db_now e < T"
| "db_before T _ \<longleftrightarrow> True"

lemma completed_run:
  assumes "idem_inv t" and "r \<in> set t" and "idr_Status r = IdempotencyStatusCompleted"
    and "list_all (db_before (idr_ExpiresAt r)) es"
  shows "r \<in> set (idem_run pg t es)"
proof (rule idem_run_keeps_row [OF assms(1,2)])
  have "leaves_row r ev" if "db_before (idr_ExpiresAt r) ev" for ev
    using that assms(3) by (intro completed_leaves_row) auto
  with assms(4) show "list_all (leaves_row r) es" by (simp add: list_all_iff)
qed

lemma repo_Complete_Inr:
  assumes "idem_inv t" and "r \<in> set t" and "owned (idr_ID r) r"
    and "repo_Complete pg e (idr_ID r) st hs b t = (Inr (), t')"
  obtains h' b' where "bind_jsonb pg (normalizeJSONB hs) = Inr h'" "bind_jsonb pg (normalizeJSONB b) = Inr b'"
    "completed_row st h' b' r \<in> set t'" "idem_inv t'"
proof -
  have "\<exists>x. exec_sql (ie_fault e) (complete_sql pg (idr_ID r) st (normalizeJSONB hs) (normalizeJSONB b)) t = (Inr x, t')"
    using assms(4) by (auto simp: repo_Complete_def split: prod.splits sum.splits)
  then obtain x where sql: "complete_sql pg (idr_ID r) st (normalizeJSONB hs) (normalizeJSONB b) t = (Inr x, t')"
    unfolding exec_sql_Inr by (elim exE conjE)
  have inv: "idem_inv t'"
    using complete_sql_inv [OF assms(1), of pg "idr_ID r" st "normalizeJSONB hs" "normalizeJSONB b"] sql by simp
  show thesis
  proof (cases rule: complete_sql_cases [of pg "idr_ID r" st "normalizeJSONB hs" "normalizeJSONB b" t])
    case fails
    then show ?thesis using sql by simp
  next
    case (completes h' b')
    then have "completed_row st h' b' r \<in> set t'" using sql assms(2,3) by (auto simp: image_iff)
    then show ?thesis using completes that inv by blast
  qed
qed

text \<open>What the code relies on of the JSON libraries: marshalling the cleaned header map gives a
  non-blank text that Postgres stores, and reading the stored text back gives the map.\<close>

definition headers_survive :: "header_json \<Rightarrow> postgres \<Rightarrow> headers \<Rightarrow> bool" where
  "headers_survive hj pg hs \<longleftrightarrow>
     (case bind_jsonb pg (normalizeJSONB (hj_Marshal hj hs)) of
        Inr (Some stored) \<Rightarrow> stored \<noteq> [] \<and> hj_Unmarshal hj stored = Inr hs
      | _ \<Rightarrow> False)"

lemma strip_request_id_idem [simp]: "strip_request_id (strip_request_id hs) = strip_request_id hs"
  by (simp add: strip_request_id_def)


definition sample_hj :: header_json where
  "sample_hj = \<lparr>hj_Marshal = (\<lambda>_. ''{}''), hj_Unmarshal = (\<lambda>_. Inr [])\<rparr>"

definition sample_coordinator :: "(idem_env, idem_table) Coordinator" where
  "sample_coordinator = NewCoordinator (IdempotencyRepo sample_pg) 100 50"


text \<open>A request that carries a key never does unguarded work. Over the Postgres store, \<open>Check\<close> leaves
  the table alone, and a \<open>Begin\<close> that returns a decision either started a record (then the table holds
  the pending row with the returned id and the request's hash) or changed nothing and told the caller to
  replay or to answer with a conflict; it never says \<open>Proceed\<close>.\<close>

theorem keyed_work_is_guarded:
  assumes "co_store c = IdempotencyRepo pg" and "idem_inv t" and "k \<noteq> []"
    and "Begin hj c e e' sc k h t = (Inr d, t')"
  shows "d_Action d \<noteq> ActionProceed
     \<and> (d_Action d = ActionStarted \<longrightarrow>
          (\<exists>r. row_for sc k t' = Some r \<and> idr_ID r = d_RecordID d
             \<and> idr_Status r = IdempotencyStatusPending \<and> idr_RequestHash r = h))
     \<and> (d_Action d \<noteq> ActionStarted \<longrightarrow> t' = t)
     \<and> snd (Check hj c e'' sc k h t) = t"
  using pg_store.Begin_guarded [OF assms] pg_store.Check_pure [OF assms(1)] by simp

theorem keyed_work_is_guarded_witness:
  "\<exists>d t'. Begin sample_hj sample_coordinator (env_at 0 1) (env_at 0 0) ''s'' ''k'' ''h'' [] = (Inr d, t')
     \<and> d_Action d \<noteq> ActionProceed"
proof -
  obtain d t' where b: "Begin sample_hj sample_coordinator (env_at 0 1) (env_at 0 0) ''s'' ''k'' ''h'' [] = (Inr d, t')"
    and "True"
    using sample_begin
    by (simp add: Begin_def sample_coordinator_def NewCoordinator_def IdempotencyRepo_def)
  have co: "co_store sample_coordinator = IdempotencyRepo sample_pg"
    by (simp add: sample_coordinator_def NewCoordinator_def)
  have "d_Action d \<noteq> ActionProceed"
    using keyed_work_is_guarded [OF co idem_inv_Nil _ b] by simp
  with b show ?thesis by blast
qed

subsection \<open>Scopes\<close>

text \<open>What the code relies on of the UUID library's printed form: 36 characters, one per UUID.\<close>

definition uuid_String_ok :: "(uuid \<Rightarrow> string) \<Rightarrow> bool" where
  "uuid_String_ok f \<longleftrightarrow> inj f \<and> (\<forall>u. length (f u) = 36)"

lemma split_at_colon:
  assumes "CHR '':'' \<notin> set a" and "CHR '':'' \<notin> set a'" and "a @ '':'' @ b = a' @ '':'' @ b'"
  shows "a = a' \<and> b = b'"
  using assms
proof (induction a arbitrary: a')
  case Nil
  then show ?case by (cases a') auto
next
  case (Cons x a)
  then show ?case by (cases a') auto
qed

text \<open>Scopes keep keys apart: two requests have the same idempotency scope only if they agree in
  tenant, API key, method and route pattern, so an Idempotency-Key cannot collide across any of them.\<close>

theorem Scope_injective:
  assumes "uuid_String_ok f" and "CHR '':'' \<notin> set m" and "CHR '':'' \<notin> set m'"
    and "Scope f t k m p = Scope f t' k' m' p'"
  shows "t = t' \<and> k = k' \<and> m = m' \<and> p = p'"
proof -
  have len: "length (f x) = length (f y)" for x y using assms(1) by (simp add: uuid_String_ok_def)
  have "f t = f t'" and "f k @ '':'' @ m @ '':'' @ p = f k' @ '':'' @ m' @ '':'' @ p'"
    using assms(4) len [of t t'] by (simp_all add: Scope_def)
  then have "f k = f k'" and "m @ '':'' @ p = m' @ '':'' @ p'" using len [of k k'] by simp_all
  have inj: "inj f" using assms(1) by (simp add: uuid_String_ok_def)
  have "t = t'" by (rule injD [OF inj \<open>f t = f t'\<close>])
  moreover have "k = k'" by (rule injD [OF inj \<open>f k = f k'\<close>])
  moreover have "m = m' \<and> p = p'" by (rule split_at_colon [OF assms(2,3)]) fact
  ultimately show ?thesis by blast
qed

text \<open>A concrete printed form for the witnesses: the value as 36 letters, one per hexadecimal digit.\<close>

definition sample_uuid_String :: "uuid \<Rightarrow> string" where
  "sample_uuid_String u = map (\<lambda>i. char_of (65 + unat u div 16 ^ i mod 16)) [0..<36]"

lemma digits_inj: "map (\<lambda>i. n div 16 ^ i mod 16) [0..<k] = map (\<lambda>i. m div 16 ^ i mod 16) [0..<k]
    \<Longrightarrow> n mod 16 ^ k = m mod (16 ^ k :: nat)"
proof (induction k)
  case (Suc k)
  then have IH: "n mod 16 ^ k = m mod 16 ^ k" and d: "n div 16 ^ k mod 16 = m div 16 ^ k mod 16" by auto
  have "x mod 16 ^ Suc k = 16 ^ k * (x div 16 ^ k mod 16) + x mod 16 ^ k" for x :: nat
    by (simp add: mod_mult2_eq mult.commute [of 16])
  then show ?case using IH d by presburger
qed simp

lemma of_char_letter: "(of_char (char_of (65 + n mod 16)) :: nat) = 65 + (n mod 16 :: nat)"
proof -
  have "n mod 16 < 16" by simp
  then have "65 + n mod 16 < 256" by linarith
  then show ?thesis by simp
qed

lemma sample_uuid_String_ok: "uuid_String_ok sample_uuid_String"
proof -
  have "u = v" if "sample_uuid_String u = sample_uuid_String v" for u v
  proof -
    have "map (of_char :: char \<Rightarrow> nat) (sample_uuid_String u) = map of_char (sample_uuid_String v)"
      using that by simp
    then have "map (\<lambda>i. unat u div 16 ^ i mod 16) [0..<36] = map (\<lambda>i. unat v div 16 ^ i mod 16) [0..<36]"
      unfolding sample_uuid_String_def map_map comp_def of_char_letter by simp
    then have "unat u mod 16 ^ 36 = unat v mod 16 ^ 36" by (rule digits_inj)
    moreover have "unat w < 16 ^ 36" for w :: uuid
      using unsigned_less [of w, where ?'a = nat] by simp
    ultimately have "unat u = unat v" by simp
    then show "u = v" by (rule unsigned_word_eqI)
  qed
  then show ?thesis by (simp add: uuid_String_ok_def inj_def sample_uuid_String_def)
qed

lemma sample_uuid_String_letters: "c \<in> set (sample_uuid_String u) \<Longrightarrow> 65 \<le> (of_char c :: nat)"
  unfolding sample_uuid_String_def by (auto simp only: set_map image_iff of_char_letter)

theorem Scope_injective_witness:
  "Scope sample_uuid_String 1 2 ''POST'' ''/v1/chat/completions'' \<noteq>
   Scope sample_uuid_String 1 3 ''POST'' ''/v1/chat/completions''"
  using Scope_injective [OF sample_uuid_String_ok, of "''POST''" "''POST''" 1 2 "''/v1/chat/completions''" 1 3]
  by auto

end
