(* ===== verification/Json.thy ===== *)
theory Json
  imports Go_Strings
begin

section \<open>JSON values and struct decoding\<close>

text \<open>
  What \<open>encoding/json\<close> does after the text was split into values: a value tree, and the rules by
  which an object is stored into a Go struct. Object members are kept in text order with
  duplicates. A member is matched to a field by name up to case folding, a later member
  overwrites an earlier one, \<open>null\<close> leaves a field as it is, and a value of the wrong kind is an
  error. The text level (which bytes are a JSON value) is a parameter of the definitions that need it.
\<close>

datatype json =
    JNull
  | JBool bool
  | JNum string
  | JStr string
  | JArr "json list"
  | JObj "(string \<times> json) list"

text \<open>Does an object key name a struct field with the given (ASCII) tag?\<close>

definition names_field :: "string \<Rightarrow> string \<Rightarrow> bool" where
  "names_field tag key \<longleftrightarrow> EqualFold key tag"

text \<open>
  Storing into a string field: \<open>Inl\<close> is the \<open>UnmarshalTypeError\<close> that the decoder reports.
\<close>

fun store_string :: "string \<Rightarrow> json \<Rightarrow> unit + string" where
  "store_string old (JStr s) = Inr s"
| "store_string old JNull = Inr old"
| "store_string old _ = Inl ()"

text \<open>
  A struct with one string field: the members in order; a type error is remembered and decoding
  goes on with the next member.
\<close>

fun decode_string_field :: "string \<Rightarrow> (string \<times> json) list \<Rightarrow> string \<Rightarrow> bool \<Rightarrow> string \<times> bool" where
  "decode_string_field tag [] v err = (v, err)"
| "decode_string_field tag ((k, x) # ms) v err =
     (if names_field tag k
      then case store_string v x of
             Inr v' \<Rightarrow> decode_string_field tag ms v' err
           | Inl _ \<Rightarrow> decode_string_field tag ms v True
      else decode_string_field tag ms v err)"

text \<open>\<open>json.Unmarshal\<close> of a value into such a struct: \<open>None\<close> is an error.\<close>

definition unmarshal_string_field :: "string \<Rightarrow> json \<Rightarrow> string option" where
  "unmarshal_string_field tag j =
     (case j of
        JObj ms \<Rightarrow> (case decode_string_field tag ms [] False of (v, err) \<Rightarrow> if err then None else Some v)
      | JNull \<Rightarrow> Some []
      | _ \<Rightarrow> None)"

end
