(* ===== verification/Chat_Request.thy ===== *)
theory Chat_Request
  imports Complex_Main Json
begin

section \<open>Chat requests (internal/api/chat.go: parsing; internal/cache: keys)\<close>

text \<open>
  From the raw body to the validated \<open>ChatRequest\<close>, to the body forwarded upstream and to the cache
  key. A \<open>float64\<close> is the exact rational it denotes. Parameters: how the decoder splits the text
  (\<open>decode_body\<close>), how a number literal reads and a number prints, the text of a JSON value
  (\<open>json.Marshal\<close>), \<open>%q\<close>, the hash, and the order in which a Go map is ranged over.
\<close>

subsection \<open>Status codes and error codes (httperror)\<close>

definition CodeUnauthorized :: string where "CodeUnauthorized = ''unauthorized''"
definition CodeBadRequest :: string where "CodeBadRequest = ''bad_request''"
definition CodeNotFound :: string where "CodeNotFound = ''not_found''"
definition CodeConflict :: string where "CodeConflict = ''conflict''"
definition CodeRateLimited :: string where "CodeRateLimited = ''rate_limited''"
definition CodeUnsupportedStreaming :: string where "CodeUnsupportedStreaming = ''unsupported_streaming''"
definition CodeInternal :: string where "CodeInternal = ''internal''"
definition CodeUpstreamUnavailable :: string where "CodeUpstreamUnavailable = ''upstream_unavailable''"

record chatError =
  ce_status :: int
  ce_code :: string
  ce_message :: string

definition badRequest :: "string \<Rightarrow> chatError" where
  "badRequest message = \<lparr>ce_status = 400, ce_code = CodeBadRequest, ce_message = message\<rparr>"

subsection \<open>Data\<close>

record ChatMessage =
  cm_Role :: string
  cm_Content :: string

record ChatRequest =
  cr_Model :: string
  cr_Messages :: "ChatMessage list"
  cr_Temperature :: "rat option"
  cr_MaxTokens :: "int option"
  cr_Stop :: "string list"

text \<open>The decoder's first value: a syntax error, or a value and whether \<open>dec.More()\<close> holds after it.\<close>

datatype body_value = BodySyntaxError | BodyValue json bool

record json_lib =
  decode_body :: "string \<Rightarrow> body_value"
  parse_float :: "string \<Rightarrow> rat option"
  parse_int :: "string \<Rightarrow> int option"
  float_text :: "rat \<Rightarrow> string"
  marshal :: "json \<Rightarrow> string option"
  jl_quote :: "string \<Rightarrow> string"
  map_range :: "string list \<Rightarrow> string list"
  sha256_hex :: "string \<Rightarrow> string"

definition maxChatBodyBytes :: nat where "maxChatBodyBytes = push_bit 20 1"

text \<open>
  \<open>http.MaxBytesReader\<close>: the body that arrives, or how reading it failed. \<open>readErr\<close> is a failure of
  the connection before the end of the body.
\<close>

definition readChatBody :: "string \<Rightarrow> bool \<Rightarrow> chatError + string" where
  "readChatBody body readErr =
     (if length body > maxChatBodyBytes
      then Inl \<lparr>ce_status = 413, ce_code = CodeBadRequest, ce_message = ''request body must not exceed 1 MiB''\<rparr>
      else if readErr then Inl (badRequest ''could not read request body'')
      else Inr body)"

definition allowedChatFields :: "string list" where
  "allowedChatFields = [''model'', ''messages'', ''temperature'', ''max_tokens'', ''stream'', ''stop'']"

definition validRoles :: "string list" where
  "validRoles = [''system'', ''user'', ''assistant'']"

text \<open>A decoded object as a Go map: the last of equal keys counts.\<close>

definition field :: "(string \<times> json) list \<Rightarrow> string \<Rightarrow> json option" where
  "field ms key = map_of (rev ms) key"

subsection \<open>Fields\<close>

text \<open>\<open>unmarshalField\<close> for a field whose type is read by \<open>rd\<close>: absent or null is \<open>None\<close>.\<close>

definition unmarshalField ::
  "json_lib \<Rightarrow> (json \<Rightarrow> 'a option) \<Rightarrow> (string \<times> json) list \<Rightarrow> string \<Rightarrow> chatError + 'a option" where
  "unmarshalField lib rd raw key =
     (case field raw key of
        None \<Rightarrow> Inr None
      | Some JNull \<Rightarrow> Inr None
      | Some v \<Rightarrow> (case rd v of
                      None \<Rightarrow> Inl (badRequest (''invalid type for field '' @ jl_quote lib key))
                    | Some a \<Rightarrow> Inr (Some a)))"

fun read_bool :: "json \<Rightarrow> bool option" where
  "read_bool (JBool b) = Some b"
| "read_bool _ = None"

fun read_string :: "json \<Rightarrow> string option" where
  "read_string (JStr s) = Some s"
| "read_string _ = None"

fun read_float :: "json_lib \<Rightarrow> json \<Rightarrow> rat option" where
  "read_float lib (JNum n) = parse_float lib n"
| "read_float lib _ = None"

fun read_int :: "json_lib \<Rightarrow> json \<Rightarrow> int option" where
  "read_int lib (JNum n) = parse_int lib n"
| "read_int lib _ = None"

text \<open>\<open>messages[i].\<close> of the error texts.\<close>

definition at_index :: "string \<Rightarrow> nat \<Rightarrow> string" where
  "at_index s i = s @ ''['' @ nat_decimal i @ '']''"

text \<open>One entry of \<open>messages\<close>; \<open>null\<close> is the empty map.\<close>

definition parse_message :: "json_lib \<Rightarrow> nat \<Rightarrow> (string \<times> json) list \<Rightarrow> chatError + ChatMessage" where
  "parse_message lib i entry =
     (case find (\<lambda>k. k \<noteq> ''role'' \<and> k \<noteq> ''content'') (map_range lib (remdups (map fst entry))) of
        Some key \<Rightarrow> Inl (badRequest (''unsupported field '' @ jl_quote lib key @ '' in '' @ at_index ''messages'' i))
      | None \<Rightarrow>
          (case (case field entry ''role'' of None \<Rightarrow> Inr [] | Some v \<Rightarrow> store_string [] v) of
             Inl _ \<Rightarrow> Inl (badRequest (''invalid type for '' @ at_index ''messages'' i @ ''.role''))
           | Inr role \<Rightarrow>
               (if role \<notin> set validRoles
                then Inl (badRequest (at_index ''messages'' i @ ''.role must be one of system, user, assistant''))
                else case (case field entry ''content'' of None \<Rightarrow> Inr [] | Some v \<Rightarrow> store_string [] v) of
                       Inl _ \<Rightarrow> Inl (badRequest (''invalid type for '' @ at_index ''messages'' i @ ''.content''))
                     | Inr content \<Rightarrow>
                         (if content = []
                          then Inl (badRequest (at_index ''messages'' i @ ''.content must be a non-empty string''))
                          else Inr \<lparr>cm_Role = role, cm_Content = content\<rparr>))))"

fun parse_entries :: "json_lib \<Rightarrow> nat \<Rightarrow> (string \<times> json) list list \<Rightarrow> chatError + ChatMessage list" where
  "parse_entries lib i [] = Inr []"
| "parse_entries lib i (e # es) =
     (case parse_message lib i e of
        Inl err \<Rightarrow> Inl err
      | Inr m \<Rightarrow> (case parse_entries lib (Suc i) es of Inl err \<Rightarrow> Inl err | Inr out \<Rightarrow> Inr (m # out)))"

text \<open>\<open>json.Unmarshal\<close> into \<open>[]map[string]json.RawMessage\<close>.\<close>

fun read_object :: "json \<Rightarrow> (string \<times> json) list option" where
  "read_object (JObj ms) = Some ms"
| "read_object JNull = Some []"
| "read_object _ = None"

fun read_objects :: "json \<Rightarrow> (string \<times> json) list list option" where
  "read_objects (JArr xs) = those (map read_object xs)"
| "read_objects _ = None"

definition parseMessages :: "json_lib \<Rightarrow> json option \<Rightarrow> chatError + ChatMessage list" where
  "parseMessages lib raw =
     (case raw of
        None \<Rightarrow> Inl (badRequest ''messages must be a non-empty array'')
      | Some JNull \<Rightarrow> Inl (badRequest ''messages must be a non-empty array'')
      | Some v \<Rightarrow>
          (case read_objects v of
             None \<Rightarrow> Inl (badRequest ''invalid type for field \"messages\"'')
           | Some entries \<Rightarrow>
               (if entries = [] then Inl (badRequest ''messages must be a non-empty array'')
                else parse_entries lib 0 entries)))"

text \<open>Array elements that are \<open>null\<close> decode to the empty string.\<close>

fun read_stop_string :: "json \<Rightarrow> string option" where
  "read_stop_string (JStr s) = Some s"
| "read_stop_string JNull = Some []"
| "read_stop_string _ = None"

fun first_empty :: "nat \<Rightarrow> string list \<Rightarrow> nat option" where
  "first_empty i [] = None"
| "first_empty i (s # ss) = (if s = [] then Some i else first_empty (Suc i) ss)"

definition parseStop :: "json option \<Rightarrow> chatError + string list" where
  "parseStop raw =
     (case raw of
        None \<Rightarrow> Inr []
      | Some JNull \<Rightarrow> Inr []
      | Some (JStr single) \<Rightarrow>
          (if single = [] then Inl (badRequest ''stop must not be an empty string'') else Inr [single])
      | Some (JArr xs) \<Rightarrow>
          (case those (map read_stop_string xs) of
             None \<Rightarrow> Inl (badRequest ''stop must be a string or an array of strings'')
           | Some many \<Rightarrow>
               (if many = [] then Inl (badRequest ''stop array must not be empty'')
                else case first_empty 0 many of
                       Some i \<Rightarrow> Inl (badRequest (at_index ''stop'' i @ '' must be a non-empty string''))
                     | None \<Rightarrow> Inr many))
      | Some _ \<Rightarrow> Inl (badRequest ''stop must be a string or an array of strings''))"

subsection \<open>decodeChatRequest\<close>

text \<open>The validation of the raw fields, in the code's order.\<close>

definition validate_fields :: "json_lib \<Rightarrow> (string \<times> json) list \<Rightarrow> chatError + ChatRequest" where
  "validate_fields lib raw =
     (case find (\<lambda>k. k \<notin> set allowedChatFields) (map_range lib (remdups (map fst raw))) of
        Some key \<Rightarrow> Inl (badRequest (''unsupported field '' @ jl_quote lib key))
      | None \<Rightarrow>
     case unmarshalField lib read_bool raw ''stream'' of
        Inl err \<Rightarrow> Inl err
      | Inr stream \<Rightarrow>
     if stream = Some True
     then Inl \<lparr>ce_status = 400, ce_code = CodeUnsupportedStreaming,
               ce_message = ''streaming is not supported; set stream to false or omit it''\<rparr>
     else case unmarshalField lib read_string raw ''model'' of
        Inl err \<Rightarrow> Inl err
      | Inr m \<Rightarrow>
     let model = (case m of None \<Rightarrow> [] | Some s \<Rightarrow> s)
     in if TrimSpace model = [] then Inl (badRequest ''model is required'')
     else case parseMessages lib (field raw ''messages'') of
        Inl err \<Rightarrow> Inl err
      | Inr messages \<Rightarrow>
     case unmarshalField lib (read_float lib) raw ''temperature'' of
        Inl err \<Rightarrow> Inl err
      | Inr temperature \<Rightarrow>
     if (case temperature of None \<Rightarrow> False | Some t \<Rightarrow> t < 0 \<or> t > 2)
     then Inl (badRequest ''temperature must be between 0 and 2'')
     else case unmarshalField lib (read_int lib) raw ''max_tokens'' of
        Inl err \<Rightarrow> Inl err
      | Inr maxTokens \<Rightarrow>
     if (case maxTokens of None \<Rightarrow> False | Some n \<Rightarrow> n \<le> 0)
     then Inl (badRequest ''max_tokens must be greater than 0'')
     else case parseStop (field raw ''stop'') of
        Inl err \<Rightarrow> Inl err
      | Inr stop \<Rightarrow>
          Inr \<lparr>cr_Model = model, cr_Messages = messages, cr_Temperature = temperature,
               cr_MaxTokens = maxTokens, cr_Stop = stop\<rparr>)"

definition decodeChatRequest :: "json_lib \<Rightarrow> string \<Rightarrow> chatError + ChatRequest" where
  "decodeChatRequest lib raw =
     (case decode_body lib raw of
        BodySyntaxError \<Rightarrow> Inl (badRequest ''request body is not valid JSON'')
      | BodyValue v trailing \<Rightarrow>
          (case read_object v of
             None \<Rightarrow> Inl (badRequest ''request body must be a JSON object'')
           | Some ms \<Rightarrow>
               (if trailing then Inl (badRequest ''request body must contain a single JSON object'')
                else validate_fields lib ms)))"

subsection \<open>The forwarded body and the cache key\<close>

definition message_json :: "ChatMessage \<Rightarrow> json" where
  "message_json m = JObj [(''role'', JStr (cm_Role m)), (''content'', JStr (cm_Content m))]"

definition opt_field :: "string \<Rightarrow> ('a \<Rightarrow> json) \<Rightarrow> 'a option \<Rightarrow> (string \<times> json) list" where
  "opt_field key f v = (case v of None \<Rightarrow> [] | Some a \<Rightarrow> [(key, f a)])"

definition stop_field :: "string list \<Rightarrow> (string \<times> json) list" where
  "stop_field stop = (if stop = [] then [] else [(''stop'', JArr (map JStr stop))])"

definition forward_json :: "json_lib \<Rightarrow> ChatRequest \<Rightarrow> json" where
  "forward_json lib req =
     JObj ([(''model'', JStr (cr_Model req)), (''messages'', JArr (map message_json (cr_Messages req)))]
           @ opt_field ''temperature'' (\<lambda>t. JNum (float_text lib t)) (cr_Temperature req)
           @ opt_field ''max_tokens'' (\<lambda>n. JNum (int_decimal n)) (cr_MaxTokens req)
           @ stop_field (cr_Stop req))"

definition forwardBody :: "json_lib \<Rightarrow> ChatRequest \<Rightarrow> string option" where
  "forwardBody lib req = marshal lib (forward_json lib req)"

text \<open>
  \<open>cache.Request\<close> has the fields of \<open>ChatRequest\<close> and \<open>Stream\<close>, which \<open>cacheRequest\<close> leaves false.
\<close>

record cache_Request = ChatRequest +
  cq_Stream :: bool

definition cacheRequest :: "ChatRequest \<Rightarrow> cache_Request" where
  "cacheRequest req = ChatRequest.extend req \<lparr>cq_Stream = False\<rparr>"

definition defaultTemperature :: rat where "defaultTemperature = 1"

text \<open>The \<open>float64\<close> nearest to 0.2.\<close>

definition maxCacheableTemperature :: rat where
  "maxCacheableTemperature = 3602879701896397 / 18014398509481984"

definition Eligible :: "cache_Request \<Rightarrow> bool" where
  "Eligible req =
     (if cq_Stream req then False
      else (case cr_Temperature req of None \<Rightarrow> defaultTemperature | Some t \<Rightarrow> t) \<le> maxCacheableTemperature)"

definition canonical_message :: "ChatMessage \<Rightarrow> json" where
  "canonical_message m = JObj [(''content'', JStr (cm_Content m)), (''role'', JStr (cm_Role m))]"

definition canonical_json :: "json_lib \<Rightarrow> cache_Request \<Rightarrow> json" where
  "canonical_json lib req =
     JObj (opt_field ''max_tokens'' (\<lambda>n. JNum (int_decimal n)) (cr_MaxTokens req)
           @ [(''messages'', JArr (map canonical_message (cr_Messages req))), (''model'', JStr (cr_Model req))]
           @ stop_field (cr_Stop req)
           @ opt_field ''temperature'' (\<lambda>t. JNum (float_text lib t)) (cr_Temperature req))"

definition CanonicalBody :: "json_lib \<Rightarrow> cache_Request \<Rightarrow> string option" where
  "CanonicalBody lib req = marshal lib (canonical_json lib req)"

definition cache_keyPrefix :: string where "cache_keyPrefix = ''aegisroute:cache:''"

definition Key :: "json_lib \<Rightarrow> string \<Rightarrow> string \<Rightarrow> string" where
  "Key lib scope canonicalBody = cache_keyPrefix @ sha256_hex lib (scope @ [CHR 0x00] @ canonicalBody)"

subsection \<open>Validated requests\<close>

definition valid_request :: "ChatRequest \<Rightarrow> bool" where
  "valid_request req \<longleftrightarrow> TrimSpace (cr_Model req) \<noteq> [] \<and> cr_Messages req \<noteq> []
     \<and> list_all (\<lambda>m. cm_Role m \<in> set validRoles \<and> cm_Content m \<noteq> []) (cr_Messages req)
     \<and> (case cr_Temperature req of None \<Rightarrow> True | Some t \<Rightarrow> 0 \<le> t \<and> t \<le> 2)
     \<and> (case cr_MaxTokens req of None \<Rightarrow> True | Some n \<Rightarrow> 0 < n)
     \<and> list_all (\<lambda>s. s \<noteq> []) (cr_Stop req)"

lemma parse_entries_valid:
  "parse_entries lib i es = Inr out \<Longrightarrow>
     length out = length es \<and> list_all (\<lambda>m. cm_Role m \<in> set validRoles \<and> cm_Content m \<noteq> []) out"
proof (induction es arbitrary: i out)
  case (Cons e es)
  obtain m rest where m: "parse_message lib i e = Inr m" and r: "parse_entries lib (Suc i) es = Inr rest" "out = m # rest"
    using Cons.prems by (auto split: sum.splits)
  have "cm_Role m \<in> set validRoles \<and> cm_Content m \<noteq> []"
    using m by (auto simp: parse_message_def split: option.splits sum.splits if_splits)
  then show ?case using Cons.IH [OF r(1)] r(2) by simp
qed simp

lemma first_empty_None: "first_empty i ss = None \<Longrightarrow> list_all (\<lambda>s. s \<noteq> []) ss"
  by (induction ss arbitrary: i) (auto split: if_splits)

lemma parseStop_valid: "parseStop raw = Inr stop \<Longrightarrow> list_all (\<lambda>s. s \<noteq> []) stop"
  by (auto simp: parseStop_def first_empty_None split: option.splits json.splits if_splits)

lemma parseMessages_valid:
  "parseMessages lib raw = Inr out \<Longrightarrow>
     out \<noteq> [] \<and> list_all (\<lambda>m. cm_Role m \<in> set validRoles \<and> cm_Content m \<noteq> []) out"
  using parse_entries_valid [of lib 0] by (fastforce simp: parseMessages_def split: option.splits json.splits if_splits)

text \<open>Sequencing of results: when does a chain of checks succeed?\<close>

lemma Inr_chain:
  "(case x of Inl e \<Rightarrow> Inl e | Inr a \<Rightarrow> f a) = Inr r \<longleftrightarrow> (\<exists>a. x = Inr a \<and> f a = Inr r)"
  "(case y of None \<Rightarrow> g | Some k \<Rightarrow> Inl (h k)) = Inr r \<longleftrightarrow> y = None \<and> g = Inr r"
  "(if b then Inl e' else g) = Inr r \<longleftrightarrow> \<not> b \<and> g = Inr r"
  by (auto split: sum.splits option.splits)

lemma validate_fields_Inr:
  assumes "validate_fields lib raw = Inr req"
  shows "find (\<lambda>k. k \<notin> set allowedChatFields) (map_range lib (remdups (map fst raw))) = None
     \<and> (\<exists>st. unmarshalField lib read_bool raw ''stream'' = Inr st \<and> st \<noteq> Some True)
     \<and> TrimSpace (cr_Model req) \<noteq> [] \<and> parseMessages lib (field raw ''messages'') = Inr (cr_Messages req)
     \<and> (case cr_Temperature req of None \<Rightarrow> True | Some t \<Rightarrow> 0 \<le> t \<and> t \<le> 2)
     \<and> (case cr_MaxTokens req of None \<Rightarrow> True | Some n \<Rightarrow> 0 < n)
     \<and> parseStop (field raw ''stop'') = Inr (cr_Stop req)"
  using assms unfolding validate_fields_def Let_def Inr_chain
  by (elim exE conjE) (simp, fastforce split: option.splits)

text \<open>A range visits every key of the map.\<close>

definition range_ok :: "json_lib \<Rightarrow> bool" where
  "range_ok lib \<longleftrightarrow> (\<forall>ks. set (map_range lib ks) = set ks)"

text \<open>C39: Nothing unvalidated is served: a body that decodes successfully is one JSON object (possibly null)
  whose keys are all among the supported ones, it does not ask for streaming, and the request has a
  non-blank model, at least one message, only known roles with non-empty contents, a temperature within
  0 and 2, a positive token limit and no empty stop sequence.\<close>

theorem decoded_request_is_valid:
  assumes "range_ok lib" and "decodeChatRequest lib raw = Inr req"
  shows "valid_request req
     \<and> (\<exists>v ms. decode_body lib raw = BodyValue v False \<and> read_object v = Some ms
          \<and> set (map fst ms) \<subseteq> set allowedChatFields \<and> field ms ''stream'' \<noteq> Some (JBool True))"
proof -
  obtain v ms where b: "decode_body lib raw = BodyValue v False" "read_object v = Some ms" "validate_fields lib ms = Inr req"
    using assms(2) by (auto simp: decodeChatRequest_def split: body_value.splits option.splits if_splits)
  note f = validate_fields_Inr [OF b(3)]
  have "valid_request req"
    using f parseMessages_valid [of lib "field ms ''messages''" "cr_Messages req"] parseStop_valid [of "field ms ''stop''" "cr_Stop req"]
    by (simp add: valid_request_def)
  moreover have "set (map fst ms) \<subseteq> set allowedChatFields"
    using f assms(1) by (auto simp: range_ok_def find_None_iff)
  moreover have "field ms ''stream'' \<noteq> Some (JBool True)"
    using f by (auto simp: unmarshalField_def)
  ultimately show ?thesis using b by blast
qed

definition sample_body :: "(string \<times> json) list" where
  "sample_body = [(''model'', JStr ''m''), (''messages'', JArr [JObj [(''role'', JStr ''user''), (''content'', JStr ''hi'')]]),
     (''stop'', JStr ''x'')]"

definition sample_json_lib :: json_lib where
  "sample_json_lib = \<lparr>decode_body = (\<lambda>_. BodyValue (JObj sample_body) False), parse_float = (\<lambda>_. None), parse_int = (\<lambda>_. None),
     float_text = (\<lambda>_. ''1''), marshal = (\<lambda>_. Some ''{}''), jl_quote = (\<lambda>s. s), map_range = (\<lambda>ks. ks), sha256_hex = (\<lambda>s. s)\<rparr>"

definition sample_request :: ChatRequest where
  "sample_request = \<lparr>cr_Model = ''m'', cr_Messages = [\<lparr>cm_Role = ''user'', cm_Content = ''hi''\<rparr>], cr_Temperature = None,
     cr_MaxTokens = None, cr_Stop = [''x'']\<rparr>"

lemma sample_decodes: "decodeChatRequest sample_json_lib raw = Inr sample_request"
proof -
  have "validate_fields sample_json_lib sample_body = Inr sample_request" by code_simp
  then show ?thesis by (simp add: decodeChatRequest_def sample_json_lib_def)
qed

theorem decoded_request_is_valid_witness:
  "valid_request sample_request \<and> (\<exists>v. decode_body sample_json_lib [] = BodyValue v False)"
  using decoded_request_is_valid [OF _ sample_decodes] by (auto simp: range_ok_def sample_json_lib_def)

subsection \<open>The cache key\<close>

lemma nat_decimal_ge: "c \<in> set (nat_decimal n) \<Longrightarrow> 48 \<le> (of_char c :: nat)"
proof (induction n rule: nat_decimal.induct)
  case (1 n)
  then show ?case by (cases "n < 10") (auto simp: nat_decimal.simps [of n])
qed

lemma nat_decimal_no_minus: "nat_decimal n \<noteq> CHR ''-'' # s"
  using nat_decimal_ge [of "CHR ''-''" n] by auto

lemma int_decimal_inj [simp]: "int_decimal i = int_decimal j \<longleftrightarrow> i = j"
  unfolding int_decimal_def using nat_decimal_no_minus [symmetric] nat_decimal_no_minus by (cases "i < 0"; cases "j < 0") auto

lemma split_at_first:
  assumes "x \<notin> set us" and "x \<notin> set vs" and "us @ x # ts = vs @ x # ws"
  shows "us = vs \<and> ts = ws"
  using assms
proof (induction us arbitrary: vs)
  case Nil
  then show ?case by (cases vs) auto
next
  case (Cons u us)
  then show ?case by (cases vs) auto
qed

lemma canonical_message_inj: "inj canonical_message"
proof (rule injI)
  fix m n :: ChatMessage
  assume "canonical_message m = canonical_message n"
  then show "m = n" by (cases m; cases n) (simp add: canonical_message_def)
qed

lemma map_JStr_inj [simp]: "map JStr xs = map JStr ys \<longleftrightarrow> xs = ys"
  by (simp add: inj_map_eq_map inj_def)

fun json_member :: "json \<Rightarrow> string \<Rightarrow> json option" where
  "json_member (JObj ms) key = map_of ms key"
| "json_member _ key = None"

lemma canonical_members:
  "json_member (canonical_json lib req) ''max_tokens'' = map_option (\<lambda>n. JNum (int_decimal n)) (cr_MaxTokens req)"
  "json_member (canonical_json lib req) ''messages'' = Some (JArr (map canonical_message (cr_Messages req)))"
  "json_member (canonical_json lib req) ''model'' = Some (JStr (cr_Model req))"
  "json_member (canonical_json lib req) ''stop'' = (if cr_Stop req = [] then None else Some (JArr (map JStr (cr_Stop req))))"
  "json_member (canonical_json lib req) ''temperature'' = map_option (\<lambda>t. JNum (float_text lib t)) (cr_Temperature req)"
  by (simp_all add: canonical_json_def opt_field_def stop_field_def split: option.splits)

lemma canonical_json_inj:
  assumes "inj (float_text lib)" and "canonical_json lib a = canonical_json lib b"
  shows "cr_Model a = cr_Model b \<and> cr_Messages a = cr_Messages b \<and> cr_Temperature a = cr_Temperature b
     \<and> cr_MaxTokens a = cr_MaxTokens b \<and> cr_Stop a = cr_Stop b"
proof (intro conjI)
  note m = canonical_members [of lib a, unfolded assms(2), unfolded canonical_members]
  show "cr_Model a = cr_Model b" using m(3) by simp
  show "cr_Messages a = cr_Messages b" using m(2) by (simp add: inj_map_eq_map [OF canonical_message_inj])
  show "cr_MaxTokens a = cr_MaxTokens b" using m(1) by (cases "cr_MaxTokens a"; cases "cr_MaxTokens b") simp_all
  show "cr_Stop a = cr_Stop b" using m(4) by (simp split: if_splits)
  show "cr_Temperature a = cr_Temperature b"
    using m(5) by (cases "cr_Temperature a"; cases "cr_Temperature b") (simp_all add: inj_eq [OF assms(1)])
qed

lemma equal_keys_same_request:
  assumes "CanonicalBody lib a = Some ta" and "CanonicalBody lib b = Some tb" and "Key lib sa ta = Key lib sb tb"
    and "sha256_hex lib (sa @ [CHR 0x00] @ ta) = sha256_hex lib (sb @ [CHR 0x00] @ tb) \<longrightarrow> sa @ [CHR 0x00] @ ta = sb @ [CHR 0x00] @ tb"
    and "CHR 0x00 \<notin> set sa" and "CHR 0x00 \<notin> set sb"
    and "marshal lib (canonical_json lib a) = marshal lib (canonical_json lib b) \<longrightarrow> canonical_json lib a = canonical_json lib b"
    and "inj (float_text lib)"
  shows "sa = sb \<and> ChatRequest.truncate a = ChatRequest.truncate b"
proof -
  have "sa @ CHR 0x00 # ta = sb @ CHR 0x00 # tb" using assms(3,4) by (simp add: Key_def)
  from split_at_first [OF assms(5,6) this] have "sa = sb" "ta = tb" by simp_all
  have "canonical_json lib a = canonical_json lib b"
  proof (rule mp [OF assms(7)])
    show "marshal lib (canonical_json lib a) = marshal lib (canonical_json lib b)"
      using assms(1,2) \<open>ta = tb\<close> by (simp only: CanonicalBody_def)
  qed
  from canonical_json_inj [OF assms(8) this] \<open>sa = sb\<close> show ?thesis by (simp add: ChatRequest.truncate_def)
qed

text \<open>The cache never serves one request the answer of another: two requests get the same cache key only if
  they come from the same tenant and API key scope and agree in model, messages (in order), temperature,
  token limit and stop sequences, provided the hash does not collide on the two inputs, printed JSON texts
  differ when the values do, and printed temperatures differ when the temperatures do.\<close>

theorem cache_key_separates:
  assumes "CanonicalBody lib a = Some ta" and "CanonicalBody lib b = Some tb" and "Key lib sa ta = Key lib sb tb"
    and "sha256_hex lib (sa @ [CHR 0x00] @ ta) = sha256_hex lib (sb @ [CHR 0x00] @ tb) \<longrightarrow> sa @ [CHR 0x00] @ ta = sb @ [CHR 0x00] @ tb"
    and "CHR 0x00 \<notin> set sa" and "CHR 0x00 \<notin> set sb"
    and "marshal lib (canonical_json lib a) = marshal lib (canonical_json lib b) \<longrightarrow> canonical_json lib a = canonical_json lib b"
    and "inj (float_text lib)"
  shows "sa = sb \<and> ChatRequest.truncate a = ChatRequest.truncate b"
  using assms by (rule equal_keys_same_request)

definition sample_key_lib :: json_lib where
  "sample_key_lib = sample_json_lib\<lparr>float_text := (\<lambda>r. int_decimal (fst (quotient_of r)) @ ''/'' @ int_decimal (snd (quotient_of r))),
     marshal := (\<lambda>j. case json_member j ''model'' of Some (JStr m) \<Rightarrow> Some m | _ \<Rightarrow> None)\<rparr>"

lemma sample_float_text_inj: "inj (float_text sample_key_lib)"
proof (rule injI)
  fix x y
  assume eq: "float_text sample_key_lib x = float_text sample_key_lib y"
  have no: "CHR ''/'' \<notin> set (int_decimal i)" for i
    using nat_decimal_ge [of "CHR ''/''"] by (auto simp: int_decimal_def)
  from eq have "int_decimal (fst (quotient_of x)) @ CHR ''/'' # int_decimal (snd (quotient_of x))
      = int_decimal (fst (quotient_of y)) @ CHR ''/'' # int_decimal (snd (quotient_of y))"
    by (simp add: sample_key_lib_def)
  from split_at_first [OF no no this] show "x = y" by (simp add: quotient_of_inject prod_eq_iff)
qed

text \<open>Two scopes, one request: the keys differ.\<close>

theorem cache_key_separates_witness:
  "Key sample_key_lib ''t:a'' ''m'' \<noteq> Key sample_key_lib ''t:b'' ''m''
   \<and> CanonicalBody sample_key_lib (cacheRequest sample_request) = Some ''m''"
proof -
  let ?a = "cacheRequest sample_request"
  have m: "cr_Model ?a = ''m''" by (simp add: cacheRequest_def sample_request_def ChatRequest.extend_def)
  have body: "CanonicalBody sample_key_lib ?a = Some ''m''"
    by (simp add: CanonicalBody_def sample_key_lib_def sample_json_lib_def canonical_members m)
  have "inj (float_text sample_key_lib)" by (rule sample_float_text_inj)
  then have "Key sample_key_lib ''t:a'' ''m'' = Key sample_key_lib ''t:b'' ''m'' \<Longrightarrow> ''t:a'' = ''t:b''"
    using cache_key_separates [OF body body, of "''t:a''" "''t:b''"] by (simp add: sample_key_lib_def sample_json_lib_def)
  then show ?thesis using body by auto
qed

end
