(* ===== verification/Auth.thy ===== *)
theory Auth
  imports Db Models Chat_Request
begin

section \<open>Authentication (internal/auth)\<close>

text \<open>
  Bearer API keys and the admin token. A request is given by its header lookup (\<open>r.Header.Get\<close>,
  empty when absent); the HMAC is a parameter. The result of a guard is the error response, or what
  the next handler gets.
\<close>

definition bearerPrefix :: string where "bearerPrefix = ''Bearer ''"
definition adminTokenHeader :: string where "adminTokenHeader = ''X-Admin-Token''"

record Principal =
  pr_TenantID :: uuid
  pr_APIKeyID :: uuid

type_synonym headers = "string \<Rightarrow> string"

definition bearerToken :: "headers \<Rightarrow> string option" where
  "bearerToken hdr =
     (let h = hdr ''Authorization''
      in if length h < length bearerPrefix \<or> \<not> EqualFold (take (length bearerPrefix) h) bearerPrefix then None
         else let token = TrimSpace (drop (length bearerPrefix) h)
              in if token = [] then None else Some token)"

type_synonym key_store = "string \<Rightarrow> db_error + APIKey"

definition BearerAuth :: "(string \<Rightarrow> string \<Rightarrow> string) \<Rightarrow> string \<Rightarrow> key_store \<Rightarrow> headers \<Rightarrow> chatError + Principal" where
  "BearerAuth hmac secret keys hdr =
     (case bearerToken hdr of
        None \<Rightarrow> Inl \<lparr>ce_status = 401, ce_code = CodeUnauthorized, ce_message = ''missing or malformed bearer token''\<rparr>
      | Some raw \<Rightarrow>
          (case keys (hmac secret raw) of
             Inl DB_ErrNotFound \<Rightarrow>
               Inl \<lparr>ce_status = 401, ce_code = CodeUnauthorized, ce_message = ''invalid API key''\<rparr>
           | Inl _ \<Rightarrow> Inl \<lparr>ce_status = 500, ce_code = CodeInternal, ce_message = ''authentication backend error''\<rparr>
           | Inr key \<Rightarrow> Inr \<lparr>pr_TenantID = ak_TenantID key, pr_APIKeyID = ak_ID key\<rparr>))"

text \<open>\<open>subtle.ConstantTimeCompare\<close>: 1 for equal byte strings, else 0.\<close>

definition ConstantTimeCompare :: "string \<Rightarrow> string \<Rightarrow> int" where
  "ConstantTimeCompare x y = (if length x = length y \<and> list_all2 (=) x y then 1 else 0)"

definition AdminAuth :: "string \<Rightarrow> headers \<Rightarrow> chatError + unit" where
  "AdminAuth adminToken hdr =
     (if length adminToken = 0 \<or> ConstantTimeCompare (hdr adminTokenHeader) adminToken \<noteq> 1
      then Inl \<lparr>ce_status = 401, ce_code = CodeUnauthorized, ce_message = ''invalid admin token''\<rparr>
      else Inr ())"


end
