(* ===== verification/Ratelimit.thy ===== *)
theory Ratelimit
  imports Aegis_Prelude
begin

section \<open>The rate limiter (internal/ratelimit/ratelimit.go)\<close>

text \<open>
  The fixed-window script and \<open>Limiter.Allow\<close>. The Redis commands the script calls are parameters:
  a command takes the server's clock, and \<open>view\<close> reads a counter with its expiry from the server's
  state. A script runs atomically, so the calls of all gateway replicas on one key form a sequence.
\<close>

definition keyPrefix :: string where "keyPrefix = ''aegisroute:ratelimit:''"

record 'r counter_commands =
  cc_INCR :: "time \<Rightarrow> string \<Rightarrow> 'r \<Rightarrow> (string + int) \<times> 'r"
  cc_PEXPIRE :: "time \<Rightarrow> string \<Rightarrow> int \<Rightarrow> 'r \<Rightarrow> (string + unit) \<times> 'r"

definition window_script :: "'r counter_commands \<Rightarrow> time \<Rightarrow> string \<Rightarrow> int \<Rightarrow> 'r \<Rightarrow> (string + int) \<times> 'r" where
  "window_script cc now key ms r =
     (case cc_INCR cc now key r of
        (Inl err, r) \<Rightarrow> (Inl err, r)
      | (Inr cnt, r) \<Rightarrow>
          (if cnt = 1
           then case cc_PEXPIRE cc now key ms r of
                  (Inl err, r) \<Rightarrow> (Inl err, r)
                | (Inr _, r) \<Rightarrow> (Inr cnt, r)
           else (Inr cnt, r)))"

record Limiter =
  lim_limit :: int
  lim_window :: duration

text \<open>\<open>Duration.Milliseconds\<close> truncates toward zero.\<close>

definition Milliseconds :: "duration \<Rightarrow> int" where
  "Milliseconds d = (if d < 0 then - ((- d) div 1000000) else d div 1000000)"

definition Allow_rate :: "'r counter_commands \<Rightarrow> Limiter \<Rightarrow> time \<Rightarrow> string \<Rightarrow> 'r \<Rightarrow> (string + bool) \<times> 'r" where
  "Allow_rate cc l now key r =
     (case window_script cc now (keyPrefix @ key) (Milliseconds (lim_window l)) r of
        (Inl err, r) \<Rightarrow> (Inl (''ratelimit: '' @ err), r)
      | (Inr cnt, r) \<Rightarrow> (Inr (cnt \<le> lim_limit l), r))"

text \<open>The calls for one key in the order Redis runs them, at the times given.\<close>

fun allow_run ::
  "'r counter_commands \<Rightarrow> Limiter \<Rightarrow> string \<Rightarrow> time list \<Rightarrow> 'r \<Rightarrow> (string + bool) list \<times> 'r" where
  "allow_run cc l key [] r = ([], r)"
| "allow_run cc l key (t # ts) r =
     (case Allow_rate cc l t key r of (a, r) \<Rightarrow>
        (case allow_run cc l key ts r of (as, r) \<Rightarrow> (a # as, r)))"

subsection \<open>What the script relies on\<close>

type_synonym counter = "(int \<times> time option) option"

definition live_at :: "counter \<Rightarrow> time \<Rightarrow> counter" where
  "live_at c now =
     (case c of
        None \<Rightarrow> None
      | Some (n, d) \<Rightarrow> (case d of None \<Rightarrow> Some (n, d) | Some t \<Rightarrow> if now < t then Some (n, d) else None))"

text \<open>
  \<open>INCR\<close> creates a missing or expired counter with value 1 and no expiry and otherwise adds one and
  keeps the expiry; \<open>PEXPIRE\<close> sets the expiry; neither touches other keys.
\<close>

definition counters_ok :: "'r counter_commands \<Rightarrow> ('r \<Rightarrow> string \<Rightarrow> counter) \<Rightarrow> bool" where
  "counters_ok cc view \<longleftrightarrow>
     (\<forall>now k r. live_at (view r k) now = None \<longrightarrow>
        (\<exists>r'. cc_INCR cc now k r = (Inr 1, r') \<and> view r' = (view r)(k := Some (1, None))))
   \<and> (\<forall>now k r n d. live_at (view r k) now = Some (n, d) \<and> n + 1 < 2 ^ 63 \<longrightarrow>
        (\<exists>r'. cc_INCR cc now k r = (Inr (n + 1), r') \<and> view r' = (view r)(k := Some (n + 1, d))))
   \<and> (\<forall>now k ms r n d. live_at (view r k) now = Some (n, d) \<and> 0 < ms \<longrightarrow>
        (\<exists>r'. cc_PEXPIRE cc now k ms r = (Inr (), r') \<and> view r' = (view r)(k := Some (n, Some (now + ms * 1000000)))))"

subsection \<open>The window\<close>

lemma Allow_first:
  assumes "counters_ok cc view" and "live_at (view r (keyPrefix @ key)) t = None" and "1000000 \<le> lim_window l"
  shows "\<exists>r'. Allow_rate cc l t key r = (Inr (1 \<le> lim_limit l), r')
     \<and> view r' = (view r)(keyPrefix @ key := Some (1, Some (t + Milliseconds (lim_window l) * 1000000)))"
proof -
  let ?k = "keyPrefix @ key" and ?ms = "Milliseconds (lim_window l)"
  have ms: "0 < ?ms" using assms(3) by (simp add: Milliseconds_def)
  obtain r1 where i: "cc_INCR cc t ?k r = (Inr 1, r1)" "view r1 = (view r)(?k := Some (1, None))"
    using assms(1,2) unfolding counters_ok_def by blast
  have "live_at (view r1 ?k) t = Some (1, None)" using i(2) by (simp add: live_at_def)
  then obtain r2 where "cc_PEXPIRE cc t ?k ?ms r1 = (Inr (), r2)"
    "view r2 = (view r1)(?k := Some (1, Some (t + ?ms * 1000000)))"
    using assms(1) ms unfolding counters_ok_def by blast
  then show ?thesis using i by (simp add: Allow_rate_def window_script_def)
qed

lemma Allow_next:
  assumes "counters_ok cc view" and "view r (keyPrefix @ key) = Some (n, Some d)" and "t < d" and "1 \<le> n" and "n + 1 < 2 ^ 63"
  shows "\<exists>r'. Allow_rate cc l t key r = (Inr (n + 1 \<le> lim_limit l), r')
     \<and> view r' = (view r)(keyPrefix @ key := Some (n + 1, Some d))"
proof -
  let ?k = "keyPrefix @ key"
  have "live_at (view r ?k) t = Some (n, Some d)" using assms(2,3) by (simp add: live_at_def)
  then obtain r1 where "cc_INCR cc t ?k r = (Inr (n + 1), r1)" "view r1 = (view r)(?k := Some (n + 1, Some d))"
    using assms(1,5) unfolding counters_ok_def by blast
  then show ?thesis using assms(4) by (simp add: Allow_rate_def window_script_def)
qed

lemma allow_run_window:
  assumes "counters_ok cc view" and "view r (keyPrefix @ key) = Some (n, Some d)" and "\<forall>t \<in> set ts. t < d"
    and "1 \<le> n" and "n + int (length ts) < 2 ^ 63"
  shows "\<exists>r'. allow_run cc l key ts r = (map (\<lambda>i. Inr (n + int i + 1 \<le> lim_limit l)) [0..<length ts], r')
     \<and> view r' = (view r)(keyPrefix @ key := Some (n + int (length ts), Some d))"
  using assms(2-5)
proof (induction ts arbitrary: r n)
  case Nil
  then show ?case by (auto simp: fun_upd_idem)
next
  case (Cons t ts)
  obtain r1 where a: "Allow_rate cc l t key r = (Inr (n + 1 \<le> lim_limit l), r1)"
    "view r1 = (view r)(keyPrefix @ key := Some (n + 1, Some d))"
    using Allow_next [OF assms(1) Cons.prems(1)] Cons.prems by fastforce
  have "view r1 (keyPrefix @ key) = Some (n + 1, Some d)" using a(2) by simp
  then obtain r2 where
    "allow_run cc l key ts r1 = (map (\<lambda>i. Inr (n + 1 + int i + 1 \<le> lim_limit l)) [0..<length ts], r2)
     \<and> view r2 = (view r1)(keyPrefix @ key := Some (n + 1 + int (length ts), Some d))"
    using Cons.IH [of r1 "n + 1"] Cons.prems by fastforce
  then have "allow_run cc l key (t # ts) r = (map (\<lambda>i. Inr (n + int i + 1 \<le> lim_limit l)) [0..<length (t # ts)], r2)"
    "view r2 = (view r)(keyPrefix @ key := Some (n + int (length (t # ts)), Some d))"
    using a by (simp_all del: upt_Suc add: map_upt_Suc add.assoc add.left_commute)
  then show ?case by blast
qed

text \<open>The limiter is exact within a window. When the first request of a window arrives (no live counter)
  and the others fall before its expiry, whatever replica sends them, exactly the first \<open>limit\<close> requests are
  allowed, no call fails, and the counter carries the expiry armed by the first request, so it cannot limit
  the key beyond the window.\<close>

theorem window_is_exact:
  assumes "counters_ok cc view" and "1000000 \<le> lim_window l" and "live_at (view r (keyPrefix @ key)) t0 = None"
    and "\<forall>t \<in> set ts. t < t0 + Milliseconds (lim_window l) * 1000000" and "int (length ts) + 1 < 2 ^ 63"
  shows "\<exists>r'. allow_run cc l key (t0 # ts) r = (map (\<lambda>i. Inr (int i < lim_limit l)) [0..<Suc (length ts)], r')
     \<and> view r' (keyPrefix @ key) = Some (int (Suc (length ts)), Some (t0 + Milliseconds (lim_window l) * 1000000))"
proof -
  let ?d = "t0 + Milliseconds (lim_window l) * 1000000"
  obtain r1 where a: "Allow_rate cc l t0 key r = (Inr (1 \<le> lim_limit l), r1)"
    "view r1 (keyPrefix @ key) = Some (1, Some ?d)"
    using Allow_first [OF assms(1,3,2)] by auto
  from allow_run_window [OF assms(1) a(2) assms(4), of l] assms(5) obtain r2 where
    r2: "allow_run cc l key ts r1 = (map (\<lambda>i. Inr (1 + int i + 1 \<le> lim_limit l)) [0..<length ts], r2)"
      "view r2 = (view r1)(keyPrefix @ key := Some (1 + int (length ts), Some ?d))" by auto
  have "(int (Suc i) < lim_limit l) = (1 + int i + 1 \<le> lim_limit l)"
    "(0 < lim_limit l) = (1 \<le> lim_limit l)" for i by auto
  then show ?thesis using a(1) r2 by (simp del: upt_Suc add: map_upt_Suc)
qed

text \<open>A server that stores the counters directly.\<close>

definition sample_counters :: "(string \<Rightarrow> counter) counter_commands" where
  "sample_counters = \<lparr>cc_INCR = (\<lambda>now k r. case live_at (r k) now of
       None \<Rightarrow> (Inr 1, r(k := Some (1, None))) | Some (n, d) \<Rightarrow> (Inr (n + 1), r(k := Some (n + 1, d)))),
     cc_PEXPIRE = (\<lambda>now k ms r. (Inr (), r(k := map_option (\<lambda>(n, d). (n, Some (now + ms * 1000000))) (r k))))\<rparr>"

lemma sample_counters_ok: "counters_ok sample_counters (\<lambda>r. r)"
  by (auto simp: counters_ok_def sample_counters_def live_at_def split: option.splits if_splits)

theorem window_is_exact_witness:
  "\<exists>r'. allow_run sample_counters \<lparr>lim_limit = 2, lim_window = 1000000000\<rparr> ''k'' [5, 6, 7] (\<lambda>_. None)
      = ([Inr True, Inr True, Inr False], r')"
  using window_is_exact [OF sample_counters_ok, of "\<lparr>lim_limit = 2, lim_window = 1000000000\<rparr>" "\<lambda>_. None" "''k''" 5 "[6, 7]"]
  by (fastforce simp: live_at_def Milliseconds_def upt_rec)

end
