(* ===== verification/Cache.thy ===== *)
theory Cache
  imports Chat_Request
begin

section \<open>The response cache (internal/cache/cache.go: Entry, Get, Put)\<close>

text \<open>
  Eligibility and keys are in \<open>Chat_Request\<close>; here the entries and their storage in Redis. The \<open>GET\<close> and
  \<open>SET\<close> commands take the server's clock and may fail; \<open>view\<close> reads a string value with its deadline from
  the server's state. The JSON text of an entry (with its base64 body) is a parameter.
\<close>

record Entry =
  en_StatusCode :: int
  en_ContentType :: string
  en_Body :: string

record entry_json =
  ej_Marshal :: "Entry \<Rightarrow> string + string"
  ej_Unmarshal :: "string \<Rightarrow> string + Entry"

record 'd string_commands =
  sc_GET :: "time \<Rightarrow> string \<Rightarrow> 'd \<Rightarrow> (string + string option) \<times> 'd"
  sc_SET :: "time \<Rightarrow> string \<Rightarrow> string \<Rightarrow> duration \<Rightarrow> 'd \<Rightarrow> (string + unit) \<times> 'd"

record 'd Cache =
  ca_rdb :: "'d string_commands"
  ca_json :: entry_json
  ca_ttl :: duration

text \<open>A key that does not exist is Redis' nil answer, here \<open>Inr None\<close>.\<close>

definition cache_Get :: "'d Cache \<Rightarrow> time \<Rightarrow> string \<Rightarrow> 'd \<Rightarrow> (string + Entry option) \<times> 'd" where
  "cache_Get c now key d =
     (case sc_GET (ca_rdb c) now key d of
        (Inr None, d) \<Rightarrow> (Inr None, d)
      | (Inl err, d) \<Rightarrow> (Inl (''cache: get: '' @ err), d)
      | (Inr (Some raw), d) \<Rightarrow>
          (case ej_Unmarshal (ca_json c) raw of
             Inl err \<Rightarrow> (Inl (''cache: corrupt entry: '' @ err), d)
           | Inr e \<Rightarrow> (Inr (Some e), d)))"

definition cache_Put :: "'d Cache \<Rightarrow> time \<Rightarrow> string \<Rightarrow> Entry \<Rightarrow> 'd \<Rightarrow> (string + unit) \<times> 'd" where
  "cache_Put c now key e d =
     (case ej_Marshal (ca_json c) e of
        Inl err \<Rightarrow> (Inl (''cache: marshal entry: '' @ err), d)
      | Inr raw \<Rightarrow>
          (case sc_SET (ca_rdb c) now key raw (ca_ttl c) d of
             (Inl err, d) \<Rightarrow> (Inl (''cache: put: '' @ err), d)
           | (Inr _, d) \<Rightarrow> (Inr (), d)))"

definition entryContentType :: "Entry \<Rightarrow> string" where
  "entryContentType e =
     (if en_ContentType e = [] then ''application/json; charset=utf-8'' else en_ContentType e)"

subsection \<open>What the cache relies on of Redis\<close>

definition unexpired :: "(string \<times> time) option \<Rightarrow> time \<Rightarrow> string option" where
  "unexpired v now = (case v of None \<Rightarrow> None | Some (raw, t) \<Rightarrow> if now < t then Some raw else None)"

text \<open>
  \<open>GET\<close> changes no value and, when it answers, gives the unexpired value; \<open>SET\<close> with a positive expiry,
  when it answers, replaces the value and its deadline, and when it fails either did so or did nothing.
\<close>

definition strings_ok :: "'d string_commands \<Rightarrow> ('d \<Rightarrow> string \<Rightarrow> (string \<times> time) option) \<Rightarrow> bool" where
  "strings_ok sc view \<longleftrightarrow>
     (\<forall>now k d. view (snd (sc_GET sc now k d)) = view d
        \<and> (\<forall>v. fst (sc_GET sc now k d) = Inr v \<longrightarrow> v = unexpired (view d k) now))
   \<and> (\<forall>now k v ttl d. 0 < ttl \<longrightarrow>
        view (snd (sc_SET sc now k v ttl d)) = (view d)(k := Some (v, now + ttl))
        \<or> (fst (sc_SET sc now k v ttl d) \<noteq> Inr () \<and> view (snd (sc_SET sc now k v ttl d)) = view d))"

text \<open>The entries a lookup can return.\<close>

definition cached :: "'d Cache \<Rightarrow> ('d \<Rightarrow> string \<Rightarrow> (string \<times> time) option) \<Rightarrow> 'd \<Rightarrow> string \<Rightarrow> Entry \<Rightarrow> bool" where
  "cached c view d key e \<longleftrightarrow> (\<exists>raw t. view d key = Some (raw, t) \<and> ej_Unmarshal (ca_json c) raw = Inr e)"

lemma cache_Get_view:
  assumes "strings_ok (ca_rdb c) view"
  shows "view (snd (cache_Get c now key d)) = view d"
proof -
  have "snd (cache_Get c now key d) = snd (sc_GET (ca_rdb c) now key d)"
    by (auto simp: cache_Get_def split: prod.splits sum.splits option.splits)
  then show ?thesis using assms by (simp add: strings_ok_def)
qed

lemma cache_Get_cached:
  assumes "strings_ok (ca_rdb c) view" and "cache_Get c now key d = (Inr (Some e), d')"
  shows "cached c view d key e"
proof -
  obtain raw d1 where g: "sc_GET (ca_rdb c) now key d = (Inr (Some raw), d1)" "ej_Unmarshal (ca_json c) raw = Inr e"
    using assms(2) by (auto simp: cache_Get_def split: prod.splits sum.splits option.splits)
  then have "unexpired (view d key) now = Some raw" using assms(1) unfolding strings_ok_def by (metis fst_conv)
  then show ?thesis using g(2) by (auto simp: cached_def unexpired_def split: option.splits prod.splits if_splits)
qed

lemma cache_Put_view:
  assumes "strings_ok (ca_rdb c) view" and "0 < ca_ttl c"
  shows "view (snd (cache_Put c now key e d)) = view d
    \<or> (\<exists>raw. ej_Marshal (ca_json c) e = Inr raw
         \<and> view (snd (cache_Put c now key e d)) = (view d)(key := Some (raw, now + ca_ttl c)))"
proof (cases "ej_Marshal (ca_json c) e")
  case (Inl err)
  then show ?thesis by (simp add: cache_Put_def)
next
  case (Inr raw)
  have "snd (cache_Put c now key e d) = snd (sc_SET (ca_rdb c) now key raw (ca_ttl c) d)"
    by (simp add: cache_Put_def Inr split: prod.splits sum.splits)
  then show ?thesis using assms Inr unfolding strings_ok_def by metis
qed

text \<open>Marshalled entries read back.\<close>

definition entries_survive :: "entry_json \<Rightarrow> bool" where
  "entries_survive ej \<longleftrightarrow> (\<forall>e raw. ej_Marshal ej e = Inr raw \<longrightarrow> ej_Unmarshal ej raw = Inr e)"

lemma cached_after_Put:
  assumes "strings_ok (ca_rdb c) view" and "0 < ca_ttl c" and "entries_survive (ca_json c)"
    and "cached c view (snd (cache_Put c now key e d)) k e'"
  shows "cached c view d k e' \<or> (k = key \<and> e' = e)"
  using cache_Put_view [OF assms(1,2), of now key e d] assms(3,4)
  by (auto simp: cached_def entries_survive_def split: if_splits)

text \<open>What was put is what is found. After a successful \<open>Put\<close> every lookup of the key that Redis answers
  returns that very entry until the configured time to live has passed and a miss from then on, and lookups of
  other keys answer as before.\<close>

theorem cache_roundtrip:
  assumes "strings_ok (ca_rdb c) view" and "0 < ca_ttl c" and "entries_survive (ca_json c)"
    and "cache_Put c now key e d = (Inr (), d')" and "fst (cache_Get c now' k d') = Inr res"
  shows "if k = key then res = (if now' < now + ca_ttl c then Some e else None)
    else res = None \<or> (\<exists>e'. res = Some e' \<and> cached c view d k e')"
proof -
  obtain raw where m: "ej_Marshal (ca_json c) e = Inr raw" and s: "sc_SET (ca_rdb c) now key raw (ca_ttl c) d = (Inr (), d')"
    using assms(4) by (auto simp: cache_Put_def split: sum.splits prod.splits)
  have v: "view d' = (view d)(key := Some (raw, now + ca_ttl c))"
    using assms(1,2) s unfolding strings_ok_def by (metis fst_conv snd_conv)
  obtain r d2 where g: "sc_GET (ca_rdb c) now' k d' = (r, d2)" by fastforce
  have r: "r = Inr x \<Longrightarrow> x = unexpired (view d' k) now'" for x
    using assms(1) g unfolding strings_ok_def by (metis fst_conv)
  show ?thesis
  proof (cases "k = key")
    case True
    then show ?thesis using assms(3,5) m g r v
      by (auto simp: cache_Get_def unexpired_def entries_survive_def split: sum.splits option.splits if_splits)
  next
    case False
    then show ?thesis using assms(5) g r v
      by (auto simp: cache_Get_def unexpired_def cached_def split: sum.splits option.splits prod.splits if_splits)
  qed
qed

text \<open>A server that stores the values directly, and one entry's text.\<close>

definition sample_strings :: "(string \<Rightarrow> (string \<times> time) option) string_commands" where
  "sample_strings = \<lparr>sc_GET = (\<lambda>now k d. (Inr (unexpired (d k) now), d)),
     sc_SET = (\<lambda>now k v ttl d. (Inr (), d(k := Some (v, now + ttl))))\<rparr>"

definition sample_entry :: Entry where
  "sample_entry = \<lparr>en_StatusCode = 200, en_ContentType = ''application/json; charset=utf-8'', en_Body = ''{}''\<rparr>"

definition sample_entry_json :: entry_json where
  "sample_entry_json = \<lparr>ej_Marshal = (\<lambda>e. if e = sample_entry then Inr ''{entry}'' else Inl ''unsupported''),
     ej_Unmarshal = (\<lambda>raw. if raw = ''{entry}'' then Inr sample_entry else Inl ''syntax'')\<rparr>"

definition sample_cache :: "(string \<Rightarrow> (string \<times> time) option) Cache" where
  "sample_cache = \<lparr>ca_rdb = sample_strings, ca_json = sample_entry_json, ca_ttl = 100\<rparr>"

lemma sample_cache_ok:
  "strings_ok (ca_rdb sample_cache) (\<lambda>d. d)" "0 < ca_ttl sample_cache" "entries_survive (ca_json sample_cache)"
  by (auto simp: sample_cache_def strings_ok_def sample_strings_def entries_survive_def sample_entry_json_def split: if_splits)

theorem cache_roundtrip_witness:
  "fst (cache_Get sample_cache 50 ''k'' (snd (cache_Put sample_cache 5 ''k'' sample_entry (\<lambda>_. None)))) = Inr (Some sample_entry)"
proof -
  let ?d = "snd (cache_Put sample_cache 5 ''k'' sample_entry (\<lambda>_. None))"
  have p: "cache_Put sample_cache 5 ''k'' sample_entry (\<lambda>_. None) = (Inr (), ?d)"
    by (simp add: cache_Put_def sample_cache_def sample_entry_json_def sample_strings_def)
  obtain res where g: "fst (cache_Get sample_cache 50 ''k'' ?d) = Inr res"
    by (simp add: cache_Put_def cache_Get_def sample_cache_def sample_entry_json_def sample_strings_def unexpired_def)
  then show ?thesis using cache_roundtrip [OF sample_cache_ok p g] by (simp add: sample_cache_def)
qed

end
