(* ===== verification/Ledger.thy ===== *)
theory Ledger
  imports Db "HOL-Library.Multiset"
begin

section \<open>The audit ledger (internal/api/ledger.go, internal/db/inference_repo.go)\<close>

text \<open>
  \<open>InferenceRequestRepo.Insert\<close> on the table of rows, and the \<open>AsyncLedger\<close> as a system of goroutines
  around one bounded channel: callers of \<open>Record\<close>, the pool of workers, and \<open>Close\<close>. A channel operation
  or one insert is an atomic step; an execution is any list of steps. When both cases of the worker's
  \<open>select\<close> are ready, Go picks one: the choice is an argument of the step.
\<close>

subsection \<open>The table\<close>

record insert_env =
  ne_now :: time
  ne_uuid :: uuid
  ne_references :: bool
  ne_fault :: fault

definition row_checks :: "InferenceRequest \<Rightarrow> bool" where
  "row_checks r \<longleftrightarrow>
     (case ir_CacheResult r of None \<Rightarrow> True
      | Some c \<Rightarrow> c \<in> {CacheResultHit, CacheResultMiss, CacheResultBypass})
   \<and> ir_Status r \<in> {RequestStatusSucceeded, RequestStatusFailed}
   \<and> 0 \<le> ir_LatencyMS r"

text \<open>The row as stored; \<open>ne_references\<close> says whether the referenced tenant, key and backend exist.\<close>

definition stamped :: "insert_env \<Rightarrow> InferenceRequest \<Rightarrow> InferenceRequest" where
  "stamped e req = req\<lparr>ir_ID := ne_uuid e, ir_CreatedAt := ne_now e\<rparr>"

definition insert_sql ::
  "insert_env \<Rightarrow> InferenceRequest \<Rightarrow> InferenceRequest list \<Rightarrow> (pg_error + InferenceRequest) \<times> InferenceRequest list" where
  "insert_sql e req t =
     (if \<not> row_checks req then (Inl (PgCode ''23514''), t)
      else if \<not> ne_references e then (Inl (PgCode ''23503''), t)
      else (Inr (stamped e req), t @ [stamped e req]))"

definition inference_Insert ::
  "insert_env \<Rightarrow> InferenceRequest \<Rightarrow> InferenceRequest list \<Rightarrow> (db_error + InferenceRequest) \<times> InferenceRequest list" where
  "inference_Insert e req t =
     (case exec_sql (ne_fault e) (insert_sql e req) t of
        (Inl err, t) \<Rightarrow> (Inl (mapNotFound err), t)
      | (Inr row, t) \<Rightarrow> (Inr row, t))"

subsection \<open>The ledger\<close>

text \<open>
  Where a worker is: at its \<open>select\<close>; inserting a row, before (\<open>False\<close>) or after (\<open>True\<close>) it saw \<open>done\<close>;
  at the inner, non-blocking \<open>select\<close>; or returned.
\<close>

datatype ledger_worker = AtSelect | Inserting InferenceRequest bool | Draining | Returned

record AsyncLedger =
  al_store :: "InferenceRequest list"
  al_queue :: "InferenceRequest list"
  al_cap :: nat
  al_done :: bool
  al_workers :: "ledger_worker list"
  al_dropped :: "InferenceRequest list"
  al_errors :: "InferenceRequest list"

definition NewAsyncLedger :: "InferenceRequest list \<Rightarrow> int \<Rightarrow> int \<Rightarrow> AsyncLedger" where
  "NewAsyncLedger store workers buffer =
     (let workers = (if workers < 1 then 4 else workers);
          buffer = (if buffer < 1 then 1024 else buffer)
      in \<lparr>al_store = store, al_queue = [], al_cap = nat buffer, al_done = False,
          al_workers = replicate (nat workers) AtSelect, al_dropped = [], al_errors = []\<rparr>)"

definition Record :: "InferenceRequest \<Rightarrow> AsyncLedger \<Rightarrow> AsyncLedger" where
  "Record row l =
     (if length (al_queue l) < al_cap l then l\<lparr>al_queue := al_queue l @ [row]\<rparr>
      else l\<lparr>al_dropped := al_dropped l @ [row]\<rparr>)"

definition ledger_insert :: "insert_env \<Rightarrow> InferenceRequest \<Rightarrow> AsyncLedger \<Rightarrow> AsyncLedger" where
  "ledger_insert e row l =
     (case inference_Insert e row (al_store l) of
        (Inl err, t) \<Rightarrow> l\<lparr>al_store := t, al_errors := al_errors l @ [row]\<rparr>
      | (Inr _, t) \<Rightarrow> l\<lparr>al_store := t\<rparr>)"

text \<open>
  One step of a worker; \<open>takeRow\<close> is the choice of the outer \<open>select\<close> when a row is queued and \<open>done\<close> is
  closed. A worker with nothing ready blocks.
\<close>

definition worker_step :: "bool \<Rightarrow> insert_env \<Rightarrow> ledger_worker \<Rightarrow> AsyncLedger \<Rightarrow> ledger_worker \<times> AsyncLedger" where
  "worker_step takeRow e w l =
     (case w of
        AtSelect \<Rightarrow>
          (if al_queue l \<noteq> [] \<and> (takeRow \<or> \<not> al_done l)
           then (Inserting (hd (al_queue l)) False, l\<lparr>al_queue := tl (al_queue l)\<rparr>)
           else if al_done l then (Draining, l)
           else (AtSelect, l))
      | Inserting row sawDone \<Rightarrow> (if sawDone then Draining else AtSelect, ledger_insert e row l)
      | Draining \<Rightarrow>
          (if al_queue l \<noteq> [] then (Inserting (hd (al_queue l)) True, l\<lparr>al_queue := tl (al_queue l)\<rparr>)
           else (Returned, l))
      | Returned \<Rightarrow> (Returned, l))"

text \<open>\<open>Close\<close> closes \<open>done\<close> (closing it twice panics) and then waits until \<open>drained\<close> or its timer fires.\<close>

definition Close :: "AsyncLedger \<Rightarrow> AsyncLedger option" where
  "Close l = (if al_done l then None else Some (l\<lparr>al_done := True\<rparr>))"

definition drained :: "AsyncLedger \<Rightarrow> bool" where
  "drained l \<longleftrightarrow> list_all (\<lambda>w. w = Returned) (al_workers l)"

datatype ledger_event = EvRecord InferenceRequest | EvClose | EvWorker nat bool insert_env

fun ledger_step :: "AsyncLedger \<Rightarrow> ledger_event \<Rightarrow> AsyncLedger" where
  "ledger_step l (EvRecord row) = Record row l"
| "ledger_step l EvClose = (case Close l of None \<Rightarrow> l | Some l \<Rightarrow> l)"
| "ledger_step l (EvWorker i takeRow e) =
     (if i < length (al_workers l)
      then case worker_step takeRow e (al_workers l ! i) l of
             (w, l) \<Rightarrow> l\<lparr>al_workers := (al_workers l)[i := w]\<rparr>
      else l)"

abbreviation ledger_run :: "AsyncLedger \<Rightarrow> ledger_event list \<Rightarrow> AsyncLedger" where
  "ledger_run \<equiv> foldl ledger_step"

subsection \<open>Every row is somewhere\<close>

fun in_hand :: "ledger_worker \<Rightarrow> InferenceRequest multiset" where
  "in_hand (Inserting row _) = {#row#}"
| "in_hand _ = {#}"

definition held :: "AsyncLedger \<Rightarrow> InferenceRequest multiset" where
  "held l = mset (al_queue l) + (\<Sum>w \<in># mset (al_workers l). in_hand w)"

text \<open>What the caller supplied of a row; the database adds the rest.\<close>

definition payload :: "InferenceRequest \<Rightarrow> InferenceRequest" where
  "payload r = r\<lparr>ir_ID := 0, ir_CreatedAt := 0\<rparr>"

fun recorded :: "ledger_event list \<Rightarrow> InferenceRequest list" where
  "recorded [] = []"
| "recorded (EvRecord row # es) = row # recorded es"
| "recorded (_ # es) = recorded es"

lemma recorded_append: "recorded (es @ es') = recorded es @ recorded es'"
  by (induction es rule: recorded.induct) auto

lemma payload_stamped: "payload (stamped e r) = payload r"
  by (simp add: payload_def stamped_def)

lemma sum_mset_update:
  assumes "i < length ws"
  shows "(\<Sum>w \<in># mset (ws[i := w']). f w) + f (ws ! i) = (\<Sum>w \<in># mset ws. f w) + (f w' :: 'b multiset)"
proof -
  have "mset ws = add_mset (ws ! i) (mset ws - {#ws ! i#})" using assms by simp
  then have "(\<Sum>w \<in># mset ws. f w) = f (ws ! i) + (\<Sum>w \<in># mset ws - {#ws ! i#}. f w)"
    by (metis sum_mset.add_mset image_mset_add_mset)
  then show ?thesis using assms by (simp add: mset_update ac_simps)
qed

text \<open>
  \<open>arrived\<close> is the multiset of all rows recorded so far: none is lost silently, none is stored twice.
\<close>

definition ledger_inv :: "InferenceRequest list \<Rightarrow> InferenceRequest multiset \<Rightarrow> AsyncLedger \<Rightarrow> bool" where
  "ledger_inv t0 arrived l \<longleftrightarrow>
     (\<exists>stored. al_store l = t0 @ stored
        \<and> image_mset payload arrived \<subseteq># image_mset payload (mset (al_dropped l) + held l + mset (al_errors l) + mset stored)
        \<and> image_mset payload (mset (al_dropped l) + held l + mset stored) \<subseteq># image_mset payload arrived)
   \<and> length (al_queue l) \<le> al_cap l"

lemma inference_Insert_cases:
  obtains "inference_Insert e row t = (Inr (stamped e row), t @ [stamped e row])"
  | err where "inference_Insert e row t = (Inl err, t)"
  | err where "inference_Insert e row t = (Inl err, t @ [stamped e row])"
proof (cases "ne_fault e")
  case NoFault
  then show ?thesis using that by (cases "row_checks row"; cases "ne_references e") (simp_all add: inference_Insert_def insert_sql_def)
next
  case (FailBefore m)
  then show ?thesis using that by (simp add: inference_Insert_def)
next
  case (FailAfter m)
  then show ?thesis using that
    by (cases "row_checks row"; cases "ne_references e") (simp_all add: inference_Insert_def insert_sql_def)
qed

lemma mset_add_subD: "add_mset a B \<subseteq># C \<Longrightarrow> B \<subseteq># C"
  by (rule subset_mset.order_trans [of B "add_mset a B"]) simp_all

lemma mset_sub_addI: "B \<subseteq># C \<Longrightarrow> B \<subseteq># add_mset a C"
  by (rule subset_mset.order_trans [of B C]) simp_all

text \<open>What one step of a worker does to the ledger, by where it was.\<close>

lemma worker_step_held:
  assumes "i < length (al_workers l)" and "worker_step tk e (al_workers l ! i) l = (w, l')"
  shows "al_workers l' = al_workers l \<and> al_cap l' = al_cap l \<and> al_done l' = al_done l \<and> al_dropped l' = al_dropped l
    \<and> length (al_queue l') \<le> length (al_queue l)
    \<and> held (l'\<lparr>al_workers := (al_workers l')[i := w]\<rparr>)
        + (case al_workers l ! i of Inserting row _ \<Rightarrow> {#row#} | _ \<Rightarrow> {#}) = held l"
proof -
  let ?s = "\<lambda>ws. \<Sum>w \<in># mset ws. in_hand w"
  have upd: "?s ((al_workers l)[i := v]) + in_hand (al_workers l ! i) = ?s (al_workers l) + in_hand v" for v
    by (rule sum_mset_update [OF assms(1)])
  show ?thesis
  proof (cases "al_workers l ! i")
    case AtSelect
    then show ?thesis using assms(2) upd [of w]
      by (cases "al_queue l") (auto simp: worker_step_def held_def split: if_splits)
  next
    case (Inserting row d)
    have "al_workers (ledger_insert e row l) = al_workers l \<and> al_queue (ledger_insert e row l) = al_queue l
        \<and> al_cap (ledger_insert e row l) = al_cap l \<and> al_done (ledger_insert e row l) = al_done l
        \<and> al_dropped (ledger_insert e row l) = al_dropped l"
      by (cases rule: inference_Insert_cases [of e row "al_store l"]) (simp_all add: ledger_insert_def)
    then show ?thesis using assms(2) upd [of w] Inserting by (auto simp: worker_step_def held_def)
  next
    case Draining
    then show ?thesis using assms(2) upd [of w]
      by (cases "al_queue l") (auto simp: worker_step_def held_def)
  next
    case Returned
    then show ?thesis using assms(2) upd [of w] by (auto simp: worker_step_def held_def)
  qed
qed

lemma worker_step_store:
  assumes "worker_step tk e w0 l = (w, l')"
  shows "case w0 of
      Inserting row _ \<Rightarrow> (al_store l' = al_store l \<and> al_errors l' = al_errors l @ [row])
        \<or> (al_store l' = al_store l @ [stamped e row] \<and> al_errors l' = al_errors l)
        \<or> (al_store l' = al_store l @ [stamped e row] \<and> al_errors l' = al_errors l @ [row])
    | _ \<Rightarrow> al_store l' = al_store l \<and> al_errors l' = al_errors l"
proof (cases w0)
  case (Inserting row d)
  have "l' = ledger_insert e row l" using assms Inserting by (auto simp: worker_step_def)
  then show ?thesis using Inserting
    by (cases rule: inference_Insert_cases [of e row "al_store l"]) (auto simp: ledger_insert_def)
qed (use assms in \<open>auto simp: worker_step_def split: if_splits\<close>)

lemma ledger_inv_Record:
  assumes "ledger_inv t0 A l"
  shows "ledger_inv t0 (add_mset row A) (Record row l)"
proof -
  have "held (l\<lparr>al_queue := al_queue l @ [row]\<rparr>) = add_mset row (held l)" "held (l\<lparr>al_dropped := d\<rparr>) = held l" for d
    by (simp_all add: held_def)
  then show ?thesis using assms by (auto simp: ledger_inv_def Record_def add.assoc)
qed

lemma ledger_inv_worker:
  assumes inv: "ledger_inv t0 A l" and i: "i < length (al_workers l)"
    and st: "worker_step tk e (al_workers l ! i) l = (w, l')"
  shows "ledger_inv t0 A (l'\<lparr>al_workers := (al_workers l')[i := w]\<rparr>)" (is "ledger_inv _ _ ?l")
proof -
  let ?P = "image_mset payload"
  obtain stored where s: "al_store l = t0 @ stored"
    and up: "?P A \<subseteq># ?P (mset (al_dropped l) + held l + mset (al_errors l) + mset stored)"
    and lo: "?P (mset (al_dropped l) + held l + mset stored) \<subseteq># ?P A" and q: "length (al_queue l) \<le> al_cap l"
    using inv by (auto simp: ledger_inv_def)
  note h = worker_step_held [OF i st] and c = worker_step_store [OF st]
  have q': "length (al_queue ?l) \<le> al_cap ?l" using h q by auto
  show ?thesis
  proof (cases "\<exists>row d. al_workers l ! i = Inserting row d")
    case True
    then obtain row d where w0: "al_workers l ! i = Inserting row d" by blast
    have hl: "held l = add_mset row (held ?l)" and dr: "al_dropped ?l = al_dropped l" using h w0 by auto
    consider "al_store ?l = t0 @ stored" "al_errors ?l = al_errors l @ [row]"
      | "al_store ?l = t0 @ stored @ [stamped e row]" "al_errors ?l = al_errors l"
      | "al_store ?l = t0 @ stored @ [stamped e row]" "al_errors ?l = al_errors l @ [row]"
      using c w0 s by auto
    then show ?thesis
    proof cases
      case 1
      have "?P (mset (al_dropped l) + held ?l + mset stored) \<subseteq># ?P A"
        using lo hl by (auto dest: mset_add_subD)
      then show ?thesis using 1 up lo hl dr q' by (auto simp: ledger_inv_def)
    next
      case 2
      then show ?thesis using up lo hl dr q' by (auto simp: ledger_inv_def payload_stamped)
    next
      case 3
      have "?P A \<subseteq># add_mset (payload row) (?P (mset (al_dropped l) + held l + mset (al_errors l) + mset stored))"
        using up by (rule mset_sub_addI)
      then show ?thesis using 3 lo hl dr q' by (auto simp: ledger_inv_def payload_stamped)
    qed
  next
    case False
    then have "held ?l = held l" "al_store ?l = al_store l" "al_errors ?l = al_errors l" "al_dropped ?l = al_dropped l"
      using h c by (cases "al_workers l ! i"; simp)+
    then show ?thesis using s up lo q' by (auto simp: ledger_inv_def)
  qed
qed

lemma ledger_inv_step:
  assumes "ledger_inv t0 A l"
  shows "ledger_inv t0 (A + mset (recorded [ev])) (ledger_step l ev)"
proof (cases ev)
  case (EvRecord row)
  then show ?thesis using ledger_inv_Record [OF assms] by simp
next
  case EvClose
  then show ?thesis using assms by (simp add: Close_def ledger_inv_def held_def)
next
  case (EvWorker i tk e)
  then show ?thesis using assms ledger_inv_worker [OF assms]
    by (cases "worker_step tk e (al_workers l ! i) l") auto
qed

lemma ledger_inv_run: "ledger_inv t0 A l \<Longrightarrow> ledger_inv t0 (A + mset (recorded es)) (ledger_run l es)"
proof (induction es arbitrary: A l)
  case (Cons ev es)
  have "recorded (ev # es) = recorded [ev] @ recorded es" by (cases ev) auto
  then show ?case using Cons.IH [OF ledger_inv_step [OF Cons.prems, of ev]] by (simp add: ac_simps)
qed simp

lemma ledger_inv_New: "ledger_inv t0 {#} (NewAsyncLedger t0 workers buffer)"
  by (simp add: ledger_inv_def NewAsyncLedger_def Let_def held_def)

text \<open>No row handed to the ledger is lost silently and none is written twice. After any interleaving of
  \<open>Record\<close> calls, worker steps and \<open>Close\<close>, with inserts failing at any point, every recorded row was dropped
  with a warning, is still queued or in a worker's hands, was reported as a failed insert, or is in the table;
  the table gained only recorded rows, each at most as often as it was recorded; and the queue never exceeds its
  buffer.\<close>

theorem ledger_accounts_for_every_row:
  "\<exists>stored. al_store (ledger_run (NewAsyncLedger t0 workers buffer) es) = t0 @ stored
     \<and> image_mset payload (mset (recorded es))
         \<subseteq># image_mset payload (mset (al_dropped (ledger_run (NewAsyncLedger t0 workers buffer) es))
              + held (ledger_run (NewAsyncLedger t0 workers buffer) es)
              + mset (al_errors (ledger_run (NewAsyncLedger t0 workers buffer) es)) + mset stored)
     \<and> image_mset payload (mset stored) \<subseteq># image_mset payload (mset (recorded es))
     \<and> length (al_queue (ledger_run (NewAsyncLedger t0 workers buffer) es))
         \<le> al_cap (ledger_run (NewAsyncLedger t0 workers buffer) es)"
proof -
  let ?l = "ledger_run (NewAsyncLedger t0 workers buffer) es" and ?P = "image_mset payload"
  have "ledger_inv t0 (mset (recorded es)) ?l" using ledger_inv_run [OF ledger_inv_New] by simp
  then obtain stored where s: "al_store ?l = t0 @ stored"
    "?P (mset (recorded es)) \<subseteq># ?P (mset (al_dropped ?l) + held ?l + mset (al_errors ?l) + mset stored)"
    "?P (mset (al_dropped ?l) + held ?l + mset stored) \<subseteq># ?P (mset (recorded es))"
    "length (al_queue ?l) \<le> al_cap ?l" by (auto simp: ledger_inv_def)
  have "?P (mset stored) \<subseteq># ?P (mset (al_dropped ?l) + held ?l + mset stored)" by simp
  then show ?thesis using s subset_mset.order_trans by blast
qed

subsection \<open>Shutdown\<close>

text \<open>After \<open>done\<close> is closed, the steps still to be made by the workers when no more rows arrive.\<close>

fun worker_work :: "ledger_worker \<Rightarrow> nat" where
  "worker_work AtSelect = 2"
| "worker_work (Inserting _ sawDone) = (if sawDone then 2 else 3)"
| "worker_work Draining = 1"
| "worker_work Returned = 0"

definition work_left :: "AsyncLedger \<Rightarrow> nat" where
  "work_left l = 2 * length (al_queue l) + sum_list (map worker_work (al_workers l))"

definition queue_watched :: "AsyncLedger \<Rightarrow> bool" where
  "queue_watched l \<longleftrightarrow> al_queue l = [] \<or> list_ex (\<lambda>w. w \<noteq> Returned) (al_workers l)"

lemma sum_list_update_nat:
  "i < length ws \<Longrightarrow> sum_list (map f (ws[i := w])) + f (ws ! i) = sum_list (map f ws) + (f w :: nat)"
  by (induction ws arbitrary: i) (auto simp: nth_Cons split: nat.splits)

lemma work_left_decreases:
  assumes "al_done l" and "i < length (al_workers l)" and "al_workers l ! i \<noteq> Returned"
  shows "work_left (ledger_step l (EvWorker i tk e)) < work_left l"
proof -
  obtain w l' where st: "worker_step tk e (al_workers l ! i) l = (w, l')" by fastforce
  have ws: "al_workers l' = al_workers l" using worker_step_held [OF assms(2) st] by simp
  have q: "2 * length (al_queue l') + worker_work w < 2 * length (al_queue l) + worker_work (al_workers l ! i)"
  proof (cases "al_workers l ! i")
    case (Inserting row d)
    have "al_queue (ledger_insert e row l) = al_queue l"
      by (cases rule: inference_Insert_cases [of e row "al_store l"]) (simp_all add: ledger_insert_def)
    then show ?thesis using st Inserting by (auto simp: worker_step_def)
  qed (use st assms(1,3) in \<open>cases "al_queue l"; auto simp: worker_step_def split: if_splits\<close>)+
  show ?thesis using sum_list_update_nat [OF assms(2), of worker_work w] q st ws assms(2)
    by (simp add: work_left_def)
qed

fun is_worker_event :: "ledger_event \<Rightarrow> bool" where
  "is_worker_event (EvWorker _ _ _) = True"
| "is_worker_event _ = False"

lemma ledger_step_workers: "length (al_workers (ledger_step l ev)) = length (al_workers l)"
proof (cases ev)
  case (EvWorker i tk e)
  then show ?thesis using worker_step_held [of i l tk e]
    by (cases "worker_step tk e (al_workers l ! i) l") auto
qed (auto simp: Record_def Close_def)

lemma ledger_run_workers: "length (al_workers (ledger_run l es)) = length (al_workers l)"
  by (induction es arbitrary: l) (simp_all add: ledger_step_workers)

definition still_open :: "AsyncLedger \<Rightarrow> bool" where
  "still_open l \<longleftrightarrow> \<not> al_done l \<and> list_all (\<lambda>w. w \<noteq> Draining \<and> w \<noteq> Returned \<and> (\<forall>r. w \<noteq> Inserting r True)) (al_workers l)"

lemma list_all_update: "list_all P ws \<Longrightarrow> P w \<Longrightarrow> list_all P (ws[i := w])"
  using set_update_subset_insert [of ws i w] by (auto simp: list_all_iff)

lemma still_open_step:
  assumes "still_open l" and "ev \<noteq> EvClose"
  shows "still_open (ledger_step l ev)"
proof (cases ev)
  case (EvWorker i tk e)
  show ?thesis
  proof (cases "i < length (al_workers l)")
    case i: True
    obtain w l' where st: "worker_step tk e (al_workers l ! i) l = (w, l')" by fastforce
    have "al_workers l ! i \<noteq> Draining \<and> al_workers l ! i \<noteq> Returned \<and> (\<forall>r. al_workers l ! i \<noteq> Inserting r True)"
      using assms(1) i by (simp add: still_open_def list_all_length)
    then have "w \<noteq> Draining \<and> w \<noteq> Returned \<and> (\<forall>r. w \<noteq> Inserting r True)"
      using st assms(1) by (cases "al_workers l ! i") (auto simp: worker_step_def still_open_def split: if_splits)
    then show ?thesis using worker_step_held [OF i st] assms(1) EvWorker st i
      by (simp add: still_open_def list_all_update)
  qed (use EvWorker assms in simp)
qed (use assms in \<open>auto simp: still_open_def Record_def\<close>)

lemma still_open_run: "still_open l \<Longrightarrow> EvClose \<notin> set es \<Longrightarrow> still_open (ledger_run l es)"
  by (induction es arbitrary: l) (auto simp: still_open_step)

definition closing :: "AsyncLedger \<Rightarrow> bool" where
  "closing l \<longleftrightarrow> al_done l \<and> queue_watched l"

lemma closing_step:
  assumes "closing l" and "is_worker_event ev"
  shows "closing (ledger_step l ev)"
proof -
  obtain i tk e where ev: "ev = EvWorker i tk e" using assms(2) by (cases ev) auto
  show ?thesis
  proof (cases "i < length (al_workers l)")
    case i: True
    obtain w l' where st: "worker_step tk e (al_workers l ! i) l = (w, l')" by fastforce
    note h = worker_step_held [OF i st]
    have "al_queue l' = [] \<or> w \<noteq> Returned \<or> al_workers l ! i = Returned"
      using st by (cases "al_workers l ! i") (auto simp: worker_step_def split: if_splits)
    moreover have "al_workers l ! i = Returned \<Longrightarrow> (al_workers l)[i := w] = al_workers l \<and> l' = l"
      using st i by (auto simp: worker_step_def list_update_same_conv)
    moreover have "w \<noteq> Returned \<Longrightarrow> list_ex (\<lambda>w. w \<noteq> Returned) ((al_workers l)[i := w])"
      using i by (auto simp: list_ex_iff set_update_memI intro!: bexI [of _ w])
    ultimately show ?thesis using assms(1) h ev st i
      by (auto simp: closing_def queue_watched_def)
  qed (use assms ev in simp)
qed

lemma closing_run: "closing l \<Longrightarrow> list_all is_worker_event es \<Longrightarrow> closing (ledger_run l es)"
  by (induction es arbitrary: l) (auto simp: closing_step)

lemma ledger_closing:
  assumes "EvClose \<notin> set es1" and "list_all is_worker_event es2"
  shows "closing (ledger_run (NewAsyncLedger t0 workers buffer) (es1 @ EvClose # es2))"
proof -
  let ?l0 = "NewAsyncLedger t0 workers buffer" and ?l1 = "ledger_run (NewAsyncLedger t0 workers buffer) es1"
  have "still_open ?l0" by (simp add: still_open_def NewAsyncLedger_def Let_def list_all_length)
  then have so: "still_open ?l1" using assms(1) by (rule still_open_run)
  have "0 < length (al_workers ?l1)" by (simp only: ledger_run_workers) (simp add: NewAsyncLedger_def Let_def)
  then obtain w ws where "al_workers ?l1 = w # ws" by (cases "al_workers ?l1") auto
  then have "closing (ledger_step ?l1 EvClose)" using so
    by (auto simp: still_open_def closing_def queue_watched_def Close_def)
  then show ?thesis using closing_run [OF _ assms(2)] by simp
qed

text \<open>\<open>Close\<close> flushes. Once \<open>Close\<close> has been called and no more rows arrive, in every state the workers
  can reach: if they have all returned (what \<open>Close\<close> waits for), no accepted row is left in the queue or in a
  worker's hands; otherwise some worker has not returned and each step of such a worker strictly decreases the
  work left, so the workers do return.\<close>

theorem close_drains_accepted_rows:
  assumes "EvClose \<notin> set es1" and "list_all is_worker_event es2"
    and "l = ledger_run (NewAsyncLedger t0 workers buffer) (es1 @ EvClose # es2)"
  shows "if drained l then held l = {#}
    else \<exists>i < length (al_workers l). al_workers l ! i \<noteq> Returned
      \<and> (\<forall>tk e. work_left (ledger_step l (EvWorker i tk e)) < work_left l)"
proof (cases "drained l")
  have cl: "closing l" using ledger_closing [OF assms(1,2)] assms(3) by blast
  case True
  then have "al_queue l = []" using cl
    by (auto simp: drained_def closing_def queue_watched_def list_ex_iff list_all_iff)
  moreover have "(\<Sum>w \<in># mset (al_workers l). in_hand w) = {#}"
    using True by (auto simp: drained_def list_all_iff)
  ultimately show ?thesis using True by (simp add: held_def)
next
  have cl: "closing l" using ledger_closing [OF assms(1,2)] assms(3) by blast
  case False
  then obtain i where "i < length (al_workers l)" "al_workers l ! i \<noteq> Returned"
    by (auto simp: drained_def list_all_length)
  moreover have "al_done l" using cl by (simp add: closing_def)
  ultimately show ?thesis using False work_left_decreases by auto
qed

definition sample_ledger_row :: InferenceRequest where
  "sample_ledger_row = \<lparr>ir_ID = 0, ir_TenantID = 1, ir_APIKeyID = 2, ir_Model = ''m'', ir_BackendID = None,
     ir_CacheResult = Some CacheResultHit, ir_Status = RequestStatusSucceeded, ir_LatencyMS = 0,
     ir_RequestHash = ''h'', ir_CreatedAt = 0\<rparr>"

definition sample_insert_env :: insert_env where
  "sample_insert_env = \<lparr>ne_now = 7, ne_uuid = 9, ne_references = True, ne_fault = NoFault\<rparr>"

theorem close_drains_accepted_rows_witness:
  "held (ledger_run (NewAsyncLedger [] 1 1)
      ([EvRecord sample_ledger_row] @ EvClose # replicate 4 (EvWorker 0 False sample_insert_env))) = {#}"
proof -
  let ?es = "replicate 4 (EvWorker 0 False sample_insert_env)"
  let ?l = "ledger_run (NewAsyncLedger [] 1 1) ([EvRecord sample_ledger_row] @ EvClose # ?es)"
  have d: "drained ?l" by code_simp
  have "EvClose \<notin> set [EvRecord sample_ledger_row]" "list_all is_worker_event ?es" by (simp_all add: list_all_length)
  from close_drains_accepted_rows [OF this refl, of "[]" 1 1] show ?thesis by (simp only: d if_True)
qed

text \<open>A row that arrives after the workers have returned is neither written nor dropped with the warning the
  comment on \<open>Record\<close> promises for a closing ledger: while the buffer has room it is queued, and whatever happens
  later it stays in the queue and the table does not change.\<close>

theorem late_row_is_stranded:
  assumes "drained l" and "length (al_queue l) < al_cap l"
  shows "\<exists>q. al_queue (ledger_run (Record row l) es) = al_queue l @ row # q
     \<and> al_store (ledger_run (Record row l) es) = al_store l"
proof -
  have inert: "drained m \<Longrightarrow> drained (ledger_step m ev) \<and> al_store (ledger_step m ev) = al_store m
      \<and> (\<exists>q. al_queue (ledger_step m ev) = al_queue m @ q)" for m ev
    by (cases ev) (auto simp: drained_def Record_def Close_def worker_step_def list_all_length nth_list_update split: prod.splits)
  have "drained m \<Longrightarrow> al_store (ledger_run m es) = al_store m \<and> (\<exists>q. al_queue (ledger_run m es) = al_queue m @ q)" for m
  proof (induction es arbitrary: m)
    case (Cons ev es)
    then show ?case using inert [OF Cons.prems, of ev] Cons.IH [of "ledger_step m ev"] by fastforce
  qed simp
  moreover have "drained (Record row l)" "al_queue (Record row l) = al_queue l @ [row]" "al_store (Record row l) = al_store l"
    using assms by (simp_all add: drained_def Record_def)
  ultimately show ?thesis by fastforce
qed

theorem late_row_is_stranded_witness:
  "al_queue (Record sample_ledger_row ((NewAsyncLedger [] 1 1)\<lparr>al_done := True, al_workers := [Returned]\<rparr>)) = [sample_ledger_row]"
  using late_row_is_stranded [of "(NewAsyncLedger [] 1 1)\<lparr>al_done := True, al_workers := [Returned]\<rparr>" sample_ledger_row "[]"]
  by (auto simp: drained_def NewAsyncLedger_def Record_def)

end
