(* ===== verification/Http.thy ===== *)
theory Http
  imports Chat_Request
begin

section \<open>Responses (internal/httperror/httperror.go, internal/api/middleware.go: writers)\<close>

text \<open>
  The server's \<open>ResponseWriter\<close>: a header map that is sent, with the status, by the first
  \<open>WriteHeader\<close> (or \<open>Write\<close>, with 200), after which both are fixed; and the two writers of the gateway
  that wrap or replace it, \<open>statusRecorder\<close> and \<open>captureWriter\<close>.
\<close>

subsection \<open>Header names\<close>

text \<open>\<open>textproto.CanonicalMIMEHeaderKey\<close>, the spelling under which \<open>http.Header\<close> stores a name.\<close>

definition token_char :: "char \<Rightarrow> bool" where
  "token_char c \<longleftrightarrow>
     (let n = (of_char c :: nat)
      in (48 \<le> n \<and> n \<le> 57) \<or> (65 \<le> n \<and> n \<le> 90) \<or> (97 \<le> n \<and> n \<le> 122)
         \<or> c \<in> set (''!#$%&*+-.^_|~'' @ [CHR 0x27, CHR 0x60]))"

definition ascii_upper :: "char \<Rightarrow> char" where
  "ascii_upper c = (if 97 \<le> (of_char c :: nat) \<and> (of_char c :: nat) \<le> 122 then char_of ((of_char c :: nat) - 32) else c)"

fun canonical_from :: "bool \<Rightarrow> string \<Rightarrow> string" where
  "canonical_from up [] = []"
| "canonical_from up (c # cs) = (if up then ascii_upper c else ascii_lower c) # canonical_from (c = CHR ''-'') cs"

definition CanonicalHeaderKey :: "string \<Rightarrow> string" where
  "CanonicalHeaderKey s = (if list_all token_char s then canonical_from True s else s)"

text \<open>A header map with at most one value per name; the empty string is an absent one.\<close>

type_synonym header_map = "string \<Rightarrow> string"

definition Header_Get :: "header_map \<Rightarrow> string \<Rightarrow> string" where
  "Header_Get h k = h (CanonicalHeaderKey k)"

definition Header_Set :: "string \<Rightarrow> string \<Rightarrow> header_map \<Rightarrow> header_map" where
  "Header_Set k v h = h(CanonicalHeaderKey k := v)"

subsection \<open>Writers\<close>

record response_writer =
  rw_header :: header_map
  rw_sent :: "(int \<times> header_map) option"
  rw_body :: string

definition fresh_writer :: response_writer where
  "fresh_writer = \<lparr>rw_header = (\<lambda>_. []), rw_sent = None, rw_body = []\<rparr>"

definition set_header :: "string \<Rightarrow> string \<Rightarrow> response_writer \<Rightarrow> response_writer" where
  "set_header k v w = w\<lparr>rw_header := Header_Set k v (rw_header w)\<rparr>"

definition WriteHeader :: "int \<Rightarrow> response_writer \<Rightarrow> response_writer" where
  "WriteHeader status w = (if rw_sent w = None then w\<lparr>rw_sent := Some (status, rw_header w)\<rparr> else w)"

definition write_bytes :: "string \<Rightarrow> response_writer \<Rightarrow> response_writer" where
  "write_bytes b w = (let w = WriteHeader 200 w in w\<lparr>rw_body := rw_body w @ b\<rparr>)"

definition sent_status :: "response_writer \<Rightarrow> int option" where
  "sent_status w = map_option fst (rw_sent w)"

text \<open>\<open>captureWriter\<close>: its own header map, status and buffer.\<close>

record captureWriter =
  cw_header :: header_map
  cw_status :: int
  cw_buf :: string

definition capture_WriteHeader :: "int \<Rightarrow> captureWriter \<Rightarrow> captureWriter" where
  "capture_WriteHeader status c = (if cw_status c = 0 then c\<lparr>cw_status := status\<rparr> else c)"

definition capture_Write :: "string \<Rightarrow> captureWriter \<Rightarrow> captureWriter" where
  "capture_Write b c =
     (let c = (if cw_status c = 0 then c\<lparr>cw_status := 200\<rparr> else c) in c\<lparr>cw_buf := cw_buf c @ b\<rparr>)"

text \<open>\<open>statusRecorder\<close>: the code it remembers beside the writer it wraps.\<close>

record statusRecorder =
  sr_writer :: response_writer
  sr_code :: int

definition recorder_WriteHeader :: "int \<Rightarrow> statusRecorder \<Rightarrow> statusRecorder" where
  "recorder_WriteHeader code rw =
     (let rw = (if sr_code rw = 0 then rw\<lparr>sr_code := code\<rparr> else rw)
      in rw\<lparr>sr_writer := WriteHeader code (sr_writer rw)\<rparr>)"

definition recorder_Write :: "string \<Rightarrow> statusRecorder \<Rightarrow> statusRecorder" where
  "recorder_Write b rw =
     (let rw = (if sr_code rw = 0 then rw\<lparr>sr_code := 200\<rparr> else rw)
      in rw\<lparr>sr_writer := write_bytes b (sr_writer rw)\<rparr>)"

definition recorder_status :: "statusRecorder \<Rightarrow> int" where
  "recorder_status rw = (if sr_code rw = 0 then 200 else sr_code rw)"

subsection \<open>The error envelope\<close>

definition json_content_type :: string where "json_content_type = ''application/json; charset=utf-8''"

definition APIError :: "string \<Rightarrow> string \<Rightarrow> string \<Rightarrow> json" where
  "APIError code message requestID =
     JObj [(''code'', JStr code), (''message'', JStr message), (''request_id'', JStr requestID)]"

definition envelope :: "json \<Rightarrow> json" where
  "envelope e = JObj [(''error'', e)]"

text \<open>\<open>json.NewEncoder(w).Encode(v)\<close>: the text of the value and a newline, or nothing on an error.\<close>

definition Encode :: "json_lib \<Rightarrow> json \<Rightarrow> string" where
  "Encode lib v = (case marshal lib v of None \<Rightarrow> [] | Some s \<Rightarrow> s @ [CHR 0x0A])"

text \<open>An encoder that fails does not write at all.\<close>

definition httperror_Write :: "json_lib \<Rightarrow> string \<Rightarrow> int \<Rightarrow> string \<Rightarrow> string \<Rightarrow> response_writer \<Rightarrow> response_writer" where
  "httperror_Write lib requestID status code message w =
     (let w = WriteHeader status (set_header ''Content-Type'' json_content_type w)
      in case marshal lib (envelope (APIError code message requestID)) of
           None \<Rightarrow> w
         | Some s \<Rightarrow> write_bytes (s @ [CHR 0x0A]) w)"

text \<open>The same writer run on a \<open>captureWriter\<close>, as \<open>respondError\<close> does.\<close>

definition httperror_capture :: "json_lib \<Rightarrow> string \<Rightarrow> int \<Rightarrow> string \<Rightarrow> string \<Rightarrow> captureWriter" where
  "httperror_capture lib requestID status code message =
     (let c = \<lparr>cw_header = Header_Set ''Content-Type'' json_content_type (\<lambda>_. []), cw_status = 0, cw_buf = []\<rparr>;
          c = capture_WriteHeader status c
      in case marshal lib (envelope (APIError code message requestID)) of
           None \<Rightarrow> c
         | Some s \<Rightarrow> capture_Write (s @ [CHR 0x0A]) c)"

definition writeJSON :: "json_lib \<Rightarrow> int \<Rightarrow> json \<Rightarrow> response_writer \<Rightarrow> response_writer" where
  "writeJSON lib status v w =
     (let w = WriteHeader status (set_header ''Content-Type'' json_content_type w)
      in case marshal lib v of None \<Rightarrow> w | Some s \<Rightarrow> write_bytes (s @ [CHR 0x0A]) w)"

subsection \<open>Facts\<close>

lemma WriteHeader_sent [simp]: "rw_sent (WriteHeader st w) \<noteq> None"
  by (simp add: WriteHeader_def)

lemma write_bytes_sent [simp]: "rw_sent w \<noteq> None \<Longrightarrow> rw_sent (write_bytes b w) = rw_sent w"
  by (simp add: write_bytes_def WriteHeader_def)

lemma httperror_Write_sent:
  "rw_sent w = None \<Longrightarrow> rw_sent (httperror_Write lib rid st code msg w)
     = Some (st, Header_Set ''Content-Type'' json_content_type (rw_header w))"
  by (simp add: httperror_Write_def WriteHeader_def set_header_def write_bytes_def Let_def split: option.splits)

lemma httperror_capture_status: "st \<noteq> 0 \<Longrightarrow> cw_status (httperror_capture lib rid st code msg) = st"
  by (simp add: httperror_capture_def capture_WriteHeader_def capture_Write_def Let_def split: option.splits)

lemma httperror_capture_header: "Header_Get (cw_header (httperror_capture lib rid st code msg)) ''Content-Type'' = json_content_type"
  by (simp add: httperror_capture_def capture_WriteHeader_def capture_Write_def Let_def Header_Get_def Header_Set_def
      split: option.splits)

lemma httperror_capture_body:
  "cw_buf (httperror_capture lib rid st code msg) = Encode lib (envelope (APIError code msg rid))"
  by (simp add: httperror_capture_def capture_WriteHeader_def capture_Write_def Let_def Encode_def split: option.splits)

end
