(* ===== verification/Chat.thy ===== *)
theory Chat
  imports Selector Inference Idempotency Auth Ratelimit Cache Ledger Http
begin

section \<open>The completions handler (internal/api/chat.go)\<close>

text \<open>
  \<open>chatCompletions\<close> as a state machine: a request is at a program point and one step runs the code up to
  and including the next call on something requests share (the idempotency store, the limiter, the cache,
  the selector, the breaker, the ledger). Many requests run at once: a system is a list of requests over
  one gateway, and an execution schedules their steps in any order. What a step reads from outside (clocks,
  rows, the replies of the backend, whether the context has ended, whether a call panics) is its
  environment.
\<close>

subsection \<open>State\<close>

definition headerBackend :: string where "headerBackend = ''X-AegisRoute-Backend''"
definition headerRoutingPolicy :: string where "headerRoutingPolicy = ''X-AegisRoute-Routing-Policy''"
definition headerCache :: string where "headerCache = ''X-AegisRoute-Cache''"
definition maxIdempotencyKeyLen :: nat where "maxIdempotencyKeyLen = 255"

text \<open>The part of \<open>Deps\<close> that does not change, and the part that does.\<close>

record ('e, 's, 'c, 'l, 'r, 'x) Deps =
  dp_lib :: json_lib
  dp_uuid_String :: "uuid \<Rightarrow> string"
  dp_hj :: header_json
  dp_Idempotency :: "('e, 's) Coordinator"
  dp_Cache :: "'c Cache"
  dp_counters :: "'l counter_commands"
  dp_Limiter :: Limiter
  dp_intn :: "'r intn"
  dp_int63n :: "'x int63n"
  dp_Inference :: Client

record ('s, 'c, 'l, 'r) gateway =
  gw_idem :: 's
  gw_cache :: 'c
  gw_limiter :: 'l
  gw_ledger :: AsyncLedger
  gw_sel :: "'r Selector"
  gw_br :: Breaker
  gw_CacheEventsTotal :: "string \<Rightarrow> nat"
  gw_RateLimitedTotal :: nat
  gw_ChatCompletionDurations :: "string list"

text \<open>
  The request as the handler sees it: the principal put into its context by the authentication, the body and
  whether reading it fails, the route, the \<open>Idempotency-Key\<close> header, the request id, and the writer with the
  headers set so far.
\<close>

record chat_http =
  hq_principal :: "Principal option"
  hq_body :: string
  hq_readErr :: bool
  hq_method :: string
  hq_route :: string
  hq_idemKey :: string
  hq_requestID :: string
  hq_writer :: response_writer

record ('e, 'x) chat_env =
  cv_idem :: 'e
  cv_reread :: 'e
  cv_now :: time
  cv_policies :: policy_store
  cv_backends :: backend_store
  cv_clk :: "uuid \<Rightarrow> time"
  cv_attempts :: "int \<Rightarrow> attempt_env"
  cv_rng :: 'x
  cv_panic :: bool
  cv_ctxErr :: bool
  cv_latencyMS :: int

text \<open>What a validated request carries along, and what is added after the cache was consulted.\<close>

record chat_job =
  cj_principal :: Principal
  cj_req :: ChatRequest
  cj_body :: string
  cj_scope :: string
  cj_idemKey :: string
  cj_rawHash :: string

record chat_work =
  ck_job :: chat_job
  ck_record :: "uuid option"
  ck_eligible :: bool
  ck_cacheResult :: string
  ck_cacheKey :: string

record chat_response =
  cs_status :: int
  cs_headers :: "(string \<times> string) list"
  cs_body :: string

text \<open>
  Program points. \<open>CRespond\<close> is the start of \<open>respondChat\<close>; \<open>CFinish\<close> and \<open>CUnwind\<close> are the deferred
  metric, on a return and on a panic, with the label it observes; \<open>CDone\<close> and \<open>CAborted\<close> are the end, with
  the writer as the handler left it.
\<close>

datatype chat_pc =
    CStart
  | CCheck chat_job
  | CAllow chat_job
  | CBegin chat_job
  | CLookup chat_job "uuid option"
  | CHit chat_work Entry
  | CSelect chat_work "uuid list"
  | CCall chat_work "uuid list" Selection nat
  | CReport chat_work "uuid list" Selection nat do_result
  | CLedger chat_work "uuid list" Selection nat string "(Response option \<times> Error option) \<times> bool"
  | CRelease chat_work "uuid list" Selection nat "((Response option \<times> Error option) \<times> bool) option"
  | CCalled chat_work "uuid list" Selection "(Response option \<times> Error option) \<times> bool"
  | CPut chat_work Selection string
  | CRespond "uuid option" string chat_response
  | CFinish string response_writer
  | CUnwind string response_writer
  | CDone response_writer
  | CAborted response_writer

subsection \<open>Helpers\<close>

definition write_headers :: "(string \<times> string) list \<Rightarrow> response_writer \<Rightarrow> response_writer" where
  "write_headers hs w = foldl (\<lambda>w (k, v). set_header k v w) w hs"

text \<open>\<open>w.WriteHeader(status); w.Write(body)\<close>.\<close>

definition write_response :: "int \<Rightarrow> string \<Rightarrow> response_writer \<Rightarrow> response_writer" where
  "write_response status body w = write_bytes body (WriteHeader status w)"

datatype applied = Unhandled | Wrote response_writer | NilStored

definition applyIdempotencyDecision :: "json_lib \<Rightarrow> string \<Rightarrow> response_writer \<Rightarrow> Decision \<Rightarrow> applied" where
  "applyIdempotencyDecision lib requestID w dec =
     (case d_Action dec of
        ActionReplay \<Rightarrow>
          (case d_Stored dec of
             None \<Rightarrow> NilStored
           | Some st \<Rightarrow>
               Wrote (write_response (sr_Status st) (sr_Body st)
                 (write_headers (filter (\<lambda>(k, _). \<not> EqualFold k ''X-Request-ID'') (sr_Headers st)) w)))
      | ActionConflictBody \<Rightarrow>
          Wrote (httperror_Write lib requestID 409 CodeConflict ''Idempotency-Key was reused with a different request body'' w)
      | ActionInProgress \<Rightarrow>
          Wrote (httperror_Write lib requestID 409 CodeConflict ''request is already in progress'' w)
      | _ \<Rightarrow> Unhandled)"

definition selectErrorParts :: "json_lib \<Rightarrow> string \<Rightarrow> select_error \<Rightarrow> bool \<Rightarrow> int \<times> string \<times> string" where
  "selectErrorParts lib model err failedOver =
     (if err = ErrNoBackends \<and> \<not> failedOver
      then (404, CodeNotFound, ''model '' @ jl_quote lib model @ '' is not served by any backend'')
      else if err = ErrNoBackends \<or> err = ErrNoCapacity
      then (503, CodeUpstreamUnavailable, ''no backend is currently available for this model'')
      else (500, CodeInternal, ''routing failed''))"

definition upstreamErrorParts :: "Error option \<Rightarrow> int \<times> string \<times> string" where
  "upstreamErrorParts err =
     (if IsTransient err then 503 else 502, CodeUpstreamUnavailable, ''upstream backend request failed'')"

text \<open>The response \<open>respondError\<close> hands to \<open>respondChat\<close>.\<close>

definition respondError :: "json_lib \<Rightarrow> string \<Rightarrow> int \<times> string \<times> string \<Rightarrow> chat_response" where
  "respondError lib requestID parts =
     (case parts of (status, code, message) \<Rightarrow>
        let cw = httperror_capture lib requestID status code message
        in \<lparr>cs_status = cw_status cw, cs_headers = [(''Content-Type'', Header_Get (cw_header cw) ''Content-Type'')],
            cs_body = cw_buf cw\<rparr>)"

definition sha256Hex :: "json_lib \<Rightarrow> string \<Rightarrow> string" where
  "sha256Hex lib b = sha256_hex lib b"

text \<open>The row \<open>recordInference\<close> hands to the ledger (the database fills in the id and the time).\<close>

definition recordInference :: "json_lib \<Rightarrow> chat_work \<Rightarrow> uuid option \<Rightarrow> string \<Rightarrow> string \<Rightarrow> int \<Rightarrow> InferenceRequest" where
  "recordInference lib wk backendID cacheResult status latencyMS =
     \<lparr>ir_ID = 0, ir_TenantID = pr_TenantID (cj_principal (ck_job wk)), ir_APIKeyID = pr_APIKeyID (cj_principal (ck_job wk)),
      ir_Model = cr_Model (cj_req (ck_job wk)), ir_BackendID = backendID, ir_CacheResult = Some cacheResult,
      ir_Status = status, ir_LatencyMS = (if latencyMS < 0 then 0 else latencyMS),
      ir_RequestHash = sha256Hex lib (cj_body (ck_job wk)), ir_CreatedAt = 0\<rparr>"

definition ascii_upper_case :: "string \<Rightarrow> string" where
  "ascii_upper_case = map ascii_upper"

subsection \<open>Steps\<close>

type_synonym ('s, 'c, 'l, 'r) chat_result = "chat_pc \<times> ('s, 'c, 'l, 'r) gateway"

text \<open>A direct \<open>httperror.Write\<close> and return, before any record was opened.\<close>

definition fail_early :: "json_lib \<Rightarrow> chat_http \<Rightarrow> int \<Rightarrow> string \<Rightarrow> string \<Rightarrow> chat_pc" where
  "fail_early lib q status code message =
     CFinish CacheResultBypass (httperror_Write lib (hq_requestID q) status code message (hq_writer q))"

text \<open>From the entry of the handler to the idempotency lookup.\<close>

definition start_step :: "('e, 's, 'c, 'l, 'r, 'x) Deps \<Rightarrow> chat_http \<Rightarrow> chat_pc" where
  "start_step deps q =
     (let lib = dp_lib deps in
      case hq_principal q of
        None \<Rightarrow> fail_early lib q 500 CodeInternal ''missing authenticated principal''
      | Some caller \<Rightarrow>
          (case readChatBody (hq_body q) (hq_readErr q) of
             Inl cerr \<Rightarrow> fail_early lib q (ce_status cerr) (ce_code cerr) (ce_message cerr)
           | Inr raw \<Rightarrow>
               (case decodeChatRequest lib raw of
                  Inl cerr \<Rightarrow> fail_early lib q (ce_status cerr) (ce_code cerr) (ce_message cerr)
                | Inr req \<Rightarrow>
                    (case forwardBody lib req of
                       None \<Rightarrow> fail_early lib q 500 CodeInternal ''could not encode upstream request''
                     | Some body \<Rightarrow>
                         (let scope = Scope (dp_uuid_String deps) (pr_TenantID caller) (pr_APIKeyID caller)
                                        (hq_method q) (hq_route q);
                              idemKey = TrimSpace (hq_idemKey q);
                              job = \<lparr>cj_principal = caller, cj_req = req, cj_body = body, cj_scope = scope,
                                     cj_idemKey = idemKey, cj_rawHash = sha256Hex lib raw\<rparr>
                          in if length idemKey > maxIdempotencyKeyLen
                             then fail_early lib q 400 CodeBadRequest
                                    (''Idempotency-Key must not exceed '' @ int_decimal (int maxIdempotencyKeyLen) @ '' characters'')
                             else if idemKey \<noteq> [] then CCheck job
                             else CAllow job)))))"

text \<open>A decision that was not handled leaves the handler at \<open>next\<close>.\<close>

definition after_decision :: "json_lib \<Rightarrow> chat_http \<Rightarrow> Decision \<Rightarrow> chat_pc \<Rightarrow> chat_pc" where
  "after_decision lib q dec next =
     (case applyIdempotencyDecision lib (hq_requestID q) (hq_writer q) dec of
        Unhandled \<Rightarrow> next
      | Wrote w \<Rightarrow> CFinish CacheResultBypass w
      | NilStored \<Rightarrow> CUnwind CacheResultBypass (hq_writer q))"

definition check_step ::
  "('e, 's, 'c, 'l, 'r, 'x) Deps \<Rightarrow> chat_http \<Rightarrow> ('e, 'x) chat_env \<Rightarrow> chat_job \<Rightarrow> ('s, 'c, 'l, 'r) gateway
     \<Rightarrow> ('s, 'c, 'l, 'r) chat_result" where
  "check_step deps q ev job g =
     (case Check (dp_hj deps) (dp_Idempotency deps) (cv_idem ev) (cj_scope job) (cj_idemKey job) (cj_rawHash job) (gw_idem g) of
        (Inl err, s) \<Rightarrow> (fail_early (dp_lib deps) q 500 CodeInternal ''idempotency lookup failed'', g\<lparr>gw_idem := s\<rparr>)
      | (Inr dec, s) \<Rightarrow> (after_decision (dp_lib deps) q dec (CAllow job), g\<lparr>gw_idem := s\<rparr>))"

text \<open>\<open>allowRate\<close> (internal/api/middleware.go): the limiter's verdict, open on an error.\<close>

definition allowRate ::
  "('e, 's, 'c, 'l, 'r, 'x) Deps \<Rightarrow> time \<Rightarrow> Principal \<Rightarrow> ('s, 'c, 'l, 'r) gateway \<Rightarrow> bool \<times> ('s, 'c, 'l, 'r) gateway" where
  "allowRate deps now caller g =
     (case Allow_rate (dp_counters deps) (dp_Limiter deps) now (dp_uuid_String deps (pr_APIKeyID caller)) (gw_limiter g) of
        (Inl err, l) \<Rightarrow> (True, g\<lparr>gw_limiter := l\<rparr>)
      | (Inr ok, l) \<Rightarrow>
          (if \<not> ok then (False, g\<lparr>gw_limiter := l, gw_RateLimitedTotal := Suc (gw_RateLimitedTotal g)\<rparr>)
           else (True, g\<lparr>gw_limiter := l\<rparr>)))"

definition rateLimited :: "json_lib \<Rightarrow> string \<Rightarrow> response_writer \<Rightarrow> response_writer" where
  "rateLimited lib requestID = httperror_Write lib requestID 429 CodeRateLimited ''rate limit exceeded for this API key''"

definition allow_step ::
  "('e, 's, 'c, 'l, 'r, 'x) Deps \<Rightarrow> chat_http \<Rightarrow> ('e, 'x) chat_env \<Rightarrow> chat_job \<Rightarrow> ('s, 'c, 'l, 'r) gateway
     \<Rightarrow> ('s, 'c, 'l, 'r) chat_result" where
  "allow_step deps q ev job g =
     (case allowRate deps (cv_now ev) (cj_principal job) g of
        (False, g) \<Rightarrow> (CFinish CacheResultBypass (rateLimited (dp_lib deps) (hq_requestID q) (hq_writer q)), g)
      | (True, g) \<Rightarrow> (if cj_idemKey job \<noteq> [] then CBegin job else CLookup job None, g))"

definition begin_step ::
  "('e, 's, 'c, 'l, 'r, 'x) Deps \<Rightarrow> chat_http \<Rightarrow> ('e, 'x) chat_env \<Rightarrow> chat_job \<Rightarrow> ('s, 'c, 'l, 'r) gateway
     \<Rightarrow> ('s, 'c, 'l, 'r) chat_result" where
  "begin_step deps q ev job g =
     (case Begin (dp_hj deps) (dp_Idempotency deps) (cv_idem ev) (cv_reread ev) (cj_scope job) (cj_idemKey job) (cj_rawHash job)
             (gw_idem g) of
        (Inl err, s) \<Rightarrow> (fail_early (dp_lib deps) q 500 CodeInternal ''idempotency begin failed'', g\<lparr>gw_idem := s\<rparr>)
      | (Inr dec, s) \<Rightarrow>
          (if d_Action dec = ActionStarted then (CLookup job (Some (d_RecordID dec)), g\<lparr>gw_idem := s\<rparr>)
           else (after_decision (dp_lib deps) q dec (CLookup job None), g\<lparr>gw_idem := s\<rparr>)))"

definition count_event :: "string \<Rightarrow> ('s, 'c, 'l, 'r) gateway \<Rightarrow> ('s, 'c, 'l, 'r) gateway" where
  "count_event result g =
     g\<lparr>gw_CacheEventsTotal := (gw_CacheEventsTotal g)(result := Suc (gw_CacheEventsTotal g result))\<rparr>"

definition cache_scope :: "('e, 's, 'c, 'l, 'r, 'x) Deps \<Rightarrow> Principal \<Rightarrow> string" where
  "cache_scope deps caller =
     dp_uuid_String deps (pr_TenantID caller) @ '':'' @ dp_uuid_String deps (pr_APIKeyID caller)"

definition lookup_step ::
  "('e, 's, 'c, 'l, 'r, 'x) Deps \<Rightarrow> chat_http \<Rightarrow> ('e, 'x) chat_env \<Rightarrow> chat_job \<Rightarrow> uuid option \<Rightarrow> ('s, 'c, 'l, 'r) gateway
     \<Rightarrow> ('s, 'c, 'l, 'r) chat_result" where
  "lookup_step deps q ev job recordID g =
     (let lib = dp_lib deps;
          bypass = \<lparr>ck_job = job, ck_record = recordID, ck_eligible = False, ck_cacheResult = CacheResultBypass, ck_cacheKey = []\<rparr>
      in if \<not> Eligible (cacheRequest (cj_req job)) then (CSelect bypass [], count_event CacheResultBypass g)
         else case CanonicalBody lib (cacheRequest (cj_req job)) of
           None \<Rightarrow>
             (CRespond recordID CacheResultBypass
                (respondError lib (hq_requestID q) (500, CodeInternal, ''could not canonicalize request'')), g)
         | Some canonical \<Rightarrow>
             (let key = Key lib (cache_scope deps (cj_principal job)) canonical;
                  miss = bypass\<lparr>ck_eligible := True, ck_cacheResult := CacheResultMiss, ck_cacheKey := key\<rparr>
              in case cache_Get (dp_Cache deps) (cv_now ev) key (gw_cache g) of
                   (Inr (Some entry), c) \<Rightarrow> (CHit miss entry, count_event CacheResultHit (g\<lparr>gw_cache := c\<rparr>))
                 | (_, c) \<Rightarrow> (CSelect miss [], count_event CacheResultMiss (g\<lparr>gw_cache := c\<rparr>))))"

definition hit_step ::
  "('e, 's, 'c, 'l, 'r, 'x) Deps \<Rightarrow> chat_work \<Rightarrow> Entry \<Rightarrow> ('s, 'c, 'l, 'r) gateway \<Rightarrow> ('s, 'c, 'l, 'r) chat_result" where
  "hit_step deps wk entry g =
     (CRespond (ck_record wk) CacheResultHit
        \<lparr>cs_status = en_StatusCode entry,
         cs_headers = [(''Content-Type'', entryContentType entry), (headerCache, ''HIT'')], cs_body = en_Body entry\<rparr>,
      g\<lparr>gw_ledger := Record (recordInference (dp_lib deps) wk None CacheResultHit RequestStatusSucceeded 0) (gw_ledger g)\<rparr>)"

definition select_step ::
  "('e, 's, 'c, 'l, 'r, 'x) Deps \<Rightarrow> chat_http \<Rightarrow> ('e, 'x) chat_env \<Rightarrow> chat_work \<Rightarrow> uuid list \<Rightarrow> ('s, 'c, 'l, 'r) gateway
     \<Rightarrow> ('s, 'c, 'l, 'r) chat_result" where
  "select_step deps q ev wk tried g =
     (let model = cr_Model (cj_req (ck_job wk)) in
      case Select (dp_intn deps) (cv_policies ev) (cv_backends ev) (cv_clk ev) model tried (gw_sel g) (gw_br g) of
        None \<Rightarrow> (CUnwind (ck_cacheResult wk) (hq_writer q), g)
      | Some (Inl err, s, br) \<Rightarrow>
          (CRespond (ck_record wk) (ck_cacheResult wk)
             (respondError (dp_lib deps) (hq_requestID q) (selectErrorParts (dp_lib deps) model err (length tried > 0))),
           g\<lparr>gw_sel := s, gw_br := br\<rparr>)
      | Some (Inr (sel, release), s, br) \<Rightarrow>
          (CCall wk (tried @ [mb_ID (sel_Backend sel)]) sel release, g\<lparr>gw_sel := s, gw_br := br\<rparr>))"

definition call_result :: "('e, 's, 'c, 'l, 'r, 'x) Deps \<Rightarrow> ('e, 'x) chat_env \<Rightarrow> Selection \<Rightarrow> do_result" where
  "call_result deps ev sel =
     (if cv_panic ev then DoPanicked
      else case Do (dp_int63n deps) (dp_Inference deps) (cv_attempts ev) (sel_Backend sel) (cv_rng ev) of
        None \<Rightarrow> DoPanicked
      | Some (res, _, _) \<Rightarrow> DoReturned res)"

text \<open>The report of \<open>callBackend\<close>; a panic skips the ledger and goes to the deferred release.\<close>

definition report_step ::
  "('e, 'x) chat_env \<Rightarrow> chat_work \<Rightarrow> uuid list \<Rightarrow> Selection \<Rightarrow> nat \<Rightarrow> do_result \<Rightarrow> ('s, 'c, 'l, 'r) gateway
     \<Rightarrow> ('s, 'c, 'l, 'r) chat_result" where
  "report_step ev wk tried sel release res g =
     (let backend = mb_Name (sel_Backend sel)
      in case res of
           DoPanicked \<Rightarrow> (CRelease wk tried sel release None, g\<lparr>gw_br := ReportCanceled backend (gw_br g)\<rparr>)
         | DoReturned (resp, err) \<Rightarrow>
             (if err = None
              then (CLedger wk tried sel release RequestStatusSucceeded ((resp, None), False),
                    g\<lparr>gw_br := ReportSuccess backend (gw_br g)\<rparr>)
              else if cv_ctxErr ev
              then (CLedger wk tried sel release RequestStatusFailed ((None, err), False),
                    g\<lparr>gw_br := ReportCanceled backend (gw_br g)\<rparr>)
              else if IsTransient err
              then (CLedger wk tried sel release RequestStatusFailed ((None, err), True),
                    g\<lparr>gw_br := ReportFailure (cv_now ev) backend (gw_br g)\<rparr>)
              else (CLedger wk tried sel release RequestStatusFailed ((None, err), False),
                    g\<lparr>gw_br := ReportSuccess backend (gw_br g)\<rparr>)))"

definition ledger_row_step ::
  "('e, 's, 'c, 'l, 'r, 'x) Deps \<Rightarrow> ('e, 'x) chat_env \<Rightarrow> chat_work \<Rightarrow> uuid list \<Rightarrow> Selection \<Rightarrow> nat \<Rightarrow> string
     \<Rightarrow> (Response option \<times> Error option) \<times> bool \<Rightarrow> ('s, 'c, 'l, 'r) gateway \<Rightarrow> ('s, 'c, 'l, 'r) chat_result" where
  "ledger_row_step deps ev wk tried sel release status out g =
     (CRelease wk tried sel release (Some out),
      g\<lparr>gw_ledger := Record (recordInference (dp_lib deps) wk (Some (mb_ID (sel_Backend sel))) (ck_cacheResult wk) status
                         (cv_latencyMS ev)) (gw_ledger g)\<rparr>)"

definition completion_response :: "chat_work \<Rightarrow> Selection \<Rightarrow> string \<Rightarrow> chat_response" where
  "completion_response wk sel body =
     \<lparr>cs_status = 200,
      cs_headers = [(''Content-Type'', json_content_type), (headerBackend, mb_Name (sel_Backend sel)),
                    (headerRoutingPolicy, sel_PolicyName sel), (headerCache, ascii_upper_case (ck_cacheResult wk))],
      cs_body = body\<rparr>"

text \<open>The rest of the failover loop's body after \<open>callBackend\<close>.\<close>

definition called_step ::
  "('e, 's, 'c, 'l, 'r, 'x) Deps \<Rightarrow> chat_http \<Rightarrow> ('e, 'x) chat_env \<Rightarrow> chat_work \<Rightarrow> uuid list \<Rightarrow> Selection
     \<Rightarrow> (Response option \<times> Error option) \<times> bool \<Rightarrow> chat_pc" where
  "called_step deps q ev wk tried sel out =
     (case out of ((resp, doErr), failover) \<Rightarrow>
        if doErr = None
        then let body = resp_Body (the resp)
             in if ck_eligible wk then CPut wk sel body
                else CRespond (ck_record wk) (ck_cacheResult wk) (completion_response wk sel body)
        else if failover \<and> \<not> cv_ctxErr ev then CSelect wk tried
        else CRespond (ck_record wk) (ck_cacheResult wk)
               (respondError (dp_lib deps) (hq_requestID q) (upstreamErrorParts doErr)))"

definition put_step ::
  "('e, 's, 'c, 'l, 'r, 'x) Deps \<Rightarrow> ('e, 'x) chat_env \<Rightarrow> chat_work \<Rightarrow> Selection \<Rightarrow> string \<Rightarrow> ('s, 'c, 'l, 'r) gateway
     \<Rightarrow> ('s, 'c, 'l, 'r) chat_result" where
  "put_step deps ev wk sel body g =
     (CRespond (ck_record wk) (ck_cacheResult wk) (completion_response wk sel body),
      g\<lparr>gw_cache := snd (cache_Put (dp_Cache deps) (cv_now ev) (ck_cacheKey wk)
                       \<lparr>en_StatusCode = 200, en_ContentType = json_content_type, en_Body = body\<rparr> (gw_cache g))\<rparr>)"

text \<open>The write on the idempotency store at the start of \<open>respondChat\<close>.\<close>

definition resolve_record ::
  "('e, 's, 'c, 'l, 'r, 'x) Deps \<Rightarrow> 'e \<Rightarrow> uuid option \<Rightarrow> chat_response \<Rightarrow> 's \<Rightarrow> 's" where
  "resolve_record deps e recordID rs s =
     (case recordID of
        None \<Rightarrow> s
      | Some i \<Rightarrow>
          (if cs_status rs \<ge> 500 then snd (Release (dp_Idempotency deps) e i s)
           else snd (Complete (dp_hj deps) (dp_Idempotency deps) e i (cs_status rs) (cs_headers rs) (cs_body rs) s)))"

definition respondChat ::
  "('e, 's, 'c, 'l, 'r, 'x) Deps \<Rightarrow> chat_http \<Rightarrow> ('e, 'x) chat_env \<Rightarrow> uuid option \<Rightarrow> string \<Rightarrow> chat_response
     \<Rightarrow> ('s, 'c, 'l, 'r) gateway \<Rightarrow> ('s, 'c, 'l, 'r) chat_result" where
  "respondChat deps q ev recordID label rs g =
     (CFinish label (write_response (cs_status rs) (cs_body rs) (write_headers (cs_headers rs) (hq_writer q))),
      g\<lparr>gw_idem := resolve_record deps (cv_idem ev) recordID rs (gw_idem g)\<rparr>)"

definition observe_duration :: "string \<Rightarrow> ('s, 'c, 'l, 'r) gateway \<Rightarrow> ('s, 'c, 'l, 'r) gateway" where
  "observe_duration label g = g\<lparr>gw_ChatCompletionDurations := gw_ChatCompletionDurations g @ [label]\<rparr>"

fun chat_step ::
  "('e, 's, 'c, 'l, 'r, 'x) Deps \<Rightarrow> chat_http \<Rightarrow> ('e, 'x) chat_env \<Rightarrow> chat_pc \<Rightarrow> ('s, 'c, 'l, 'r) gateway
     \<Rightarrow> ('s, 'c, 'l, 'r) chat_result" where
  "chat_step deps q ev CStart g = (start_step deps q, g)"
| "chat_step deps q ev (CCheck job) g = check_step deps q ev job g"
| "chat_step deps q ev (CAllow job) g = allow_step deps q ev job g"
| "chat_step deps q ev (CBegin job) g = begin_step deps q ev job g"
| "chat_step deps q ev (CLookup job rec) g = lookup_step deps q ev job rec g"
| "chat_step deps q ev (CHit wk entry) g = hit_step deps wk entry g"
| "chat_step deps q ev (CSelect wk tried) g = select_step deps q ev wk tried g"
| "chat_step deps q ev (CCall wk tried sel h) g = (CReport wk tried sel h (call_result deps ev sel), g)"
| "chat_step deps q ev (CReport wk tried sel h res) g = report_step ev wk tried sel h res g"
| "chat_step deps q ev (CLedger wk tried sel h status out) g = ledger_row_step deps ev wk tried sel h status out g"
| "chat_step deps q ev (CRelease wk tried sel h out) g =
     (case out of None \<Rightarrow> CUnwind (ck_cacheResult wk) (hq_writer q) | Some out \<Rightarrow> CCalled wk tried sel out,
      g\<lparr>gw_sel := release_call h (gw_sel g)\<rparr>)"
| "chat_step deps q ev (CCalled wk tried sel out) g = (called_step deps q ev wk tried sel out, g)"
| "chat_step deps q ev (CPut wk sel body) g = put_step deps ev wk sel body g"
| "chat_step deps q ev (CRespond rec label rs) g = respondChat deps q ev rec label rs g"
| "chat_step deps q ev (CFinish label w) g = (CDone w, observe_duration label g)"
| "chat_step deps q ev (CUnwind label w) g = (CAborted w, observe_duration label g)"
| "chat_step deps q ev (CDone w) g = (CDone w, g)"
| "chat_step deps q ev (CAborted w) g = (CAborted w, g)"

end
