(* ===== verification/Chat_System.thy ===== *)
theory Chat_System
  imports Chat
begin

section \<open>Concurrent completions\<close>

text \<open>
  Requests running at once over one gateway, and what holds whatever the schedule: slots of the selector are
  never leaked, an opened idempotency record is resolved exactly once, the failover loop ends, and a cached
  answer comes from an equal request of the same caller.
\<close>

subsection \<open>The system\<close>

record ('s, 'c, 'l, 'r) chat_sys =
  sy_reqs :: "(chat_http \<times> chat_pc) list"
  sy_gw :: "('s, 'c, 'l, 'r) gateway"

text \<open>
  \<open>Arrive\<close>: a new request enters the handler; \<open>Sched i ev\<close>: request \<open>i\<close> takes its next step; \<open>Flush\<close>: a worker
  of the ledger moves; \<open>PeerStore\<close>: other replicas changed the idempotency table and the counters; \<open>PeerPut\<close>:
  another replica stored a completion in the shared cache.
\<close>

datatype ('e, 's, 'l, 'x) chat_event =
    Arrive chat_http
  | Sched nat "('e, 'x) chat_env"
  | Flush nat bool insert_env
  | PeerStore 's 'l
  | PeerPut time chat_work string

fun chat_sys_step ::
  "('e, 's, 'c, 'l, 'r, 'x) Deps \<Rightarrow> ('s, 'c, 'l, 'r) chat_sys \<Rightarrow> ('e, 's, 'l, 'x) chat_event \<Rightarrow> ('s, 'c, 'l, 'r) chat_sys" where
  "chat_sys_step deps y (Arrive q) = y\<lparr>sy_reqs := sy_reqs y @ [(q, CStart)]\<rparr>"
| "chat_sys_step deps y (Sched i ev) =
     (if i < length (sy_reqs y)
      then case sy_reqs y ! i of (q, pc) \<Rightarrow>
             (case chat_step deps q ev pc (sy_gw y) of (pc', g) \<Rightarrow>
                y\<lparr>sy_reqs := (sy_reqs y)[i := (q, pc')], sy_gw := g\<rparr>)
      else y)"
| "chat_sys_step deps y (Flush i takeRow e) =
     y\<lparr>sy_gw := (sy_gw y)\<lparr>gw_ledger := ledger_step (gw_ledger (sy_gw y)) (EvWorker i takeRow e)\<rparr>\<rparr>"
| "chat_sys_step deps y (PeerStore s l) = y\<lparr>sy_gw := (sy_gw y)\<lparr>gw_idem := s, gw_limiter := l\<rparr>\<rparr>"
| "chat_sys_step deps y (PeerPut now wk body) =
     y\<lparr>sy_gw := (sy_gw y)\<lparr>gw_cache := snd (cache_Put (dp_Cache deps) now (ck_cacheKey wk)
         \<lparr>en_StatusCode = 200, en_ContentType = json_content_type, en_Body = body\<rparr> (gw_cache (sy_gw y)))\<rparr>\<rparr>"

fun ended :: "chat_pc \<Rightarrow> bool" where
  "ended (CDone _) = True"
| "ended (CAborted _) = True"
| "ended _ = False"

subsection \<open>A small gateway for concrete runs\<close>

definition sample_deps ::
  "(idem_env, idem_table, string \<Rightarrow> (string \<times> time) option, string \<Rightarrow> counter, unit, unit) Deps" where
  "sample_deps = \<lparr>dp_lib = sample_json_lib, dp_uuid_String = sample_uuid_String, dp_hj = sample_hj,
     dp_Idempotency = sample_coordinator, dp_Cache = sample_cache, dp_counters = sample_counters,
     dp_Limiter = \<lparr>lim_limit = 2, lim_window = 1000000000\<rparr>, dp_intn = zero_intn, dp_int63n = zero_int63n,
     dp_Inference = New sample_config\<rparr>"

definition sample_gw :: "(idem_table, string \<Rightarrow> (string \<times> time) option, string \<Rightarrow> counter, unit) gateway" where
  "sample_gw = \<lparr>gw_idem = [], gw_cache = (\<lambda>_. None), gw_limiter = (\<lambda>_. None), gw_ledger = NewAsyncLedger [] 1 1,
     gw_sel = NewSelector True (), gw_br = sample_breaker, gw_CacheEventsTotal = (\<lambda>_. 0), gw_RateLimitedTotal = 0,
     gw_ChatCompletionDurations = []\<rparr>"

definition sample_chat_env :: "backend_store \<Rightarrow> (idem_env, unit) chat_env" where
  "sample_chat_env backends = \<lparr>cv_idem = env_at 0 1, cv_reread = env_at 0 1, cv_now = 5, cv_policies = sample_policies,
     cv_backends = backends, cv_clk = (\<lambda>_. 5), cv_attempts = sample_env, cv_rng = (), cv_panic = False,
     cv_ctxErr = False, cv_latencyMS = 3\<rparr>"

definition sample_chat_http :: "string \<Rightarrow> chat_http" where
  "sample_chat_http key = \<lparr>hq_principal = Some \<lparr>pr_TenantID = 1, pr_APIKeyID = 2\<rparr>, hq_body = ''{}'', hq_readErr = False,
     hq_method = ''POST'', hq_route = ''/v1/chat/completions'', hq_idemKey = key, hq_requestID = ''r'',
     hq_writer = fresh_writer\<rparr>"

definition sample_chat_job :: "string \<Rightarrow> chat_job" where
  "sample_chat_job key = \<lparr>cj_principal = \<lparr>pr_TenantID = 1, pr_APIKeyID = 2\<rparr>, cj_req = sample_request, cj_body = ''{}'',
     cj_scope = Scope sample_uuid_String 1 2 ''POST'' ''/v1/chat/completions'', cj_idemKey = key, cj_rawHash = ''{}''\<rparr>"

lemma sample_key_trims: "TrimSpace ''k'' = ''k''"
  by code_simp

lemma sample_lib_facts: "marshal sample_json_lib j = Some ''{}''" "sha256_hex sample_json_lib s = s"
  by (simp_all add: sample_json_lib_def)

lemma sample_start:
  "start_step sample_deps (sample_chat_http ''k'') = CCheck (sample_chat_job ''k'')"
  "start_step sample_deps (sample_chat_http []) = CAllow (sample_chat_job [])"
  by (simp_all add: start_step_def sample_deps_def sample_chat_http_def readChatBody_def maxChatBodyBytes_def sample_decodes
      forwardBody_def sample_key_trims maxIdempotencyKeyLen_def sample_chat_job_def sha256Hex_def sample_lib_facts Let_def)

lemma sample_steps:
  "fst (check_step sample_deps (sample_chat_http ''k'') (sample_chat_env bs) (sample_chat_job ''k'') sample_gw) = CAllow (sample_chat_job ''k'')"
  "fst (allow_step sample_deps (sample_chat_http ''k'') (sample_chat_env bs) (sample_chat_job ''k'') sample_gw) = CBegin (sample_chat_job ''k'')"
  "fst (begin_step sample_deps (sample_chat_http ''k'') (sample_chat_env bs) (sample_chat_job ''k'') sample_gw) = CLookup (sample_chat_job ''k'') (Some 1)"
  by (simp_all add: check_step_def allow_step_def begin_step_def allowRate_def Allow_rate_def window_script_def sample_counters_def
      live_at_def sample_deps_def sample_gw_def sample_chat_job_def sample_chat_env_def Check_def Begin_def sample_coordinator_def
      NewCoordinator_def IdempotencyRepo_def repo_Lookup_def repo_Begin_def begin_sql_def env_at_def row_for_def
      decideFromLookup_def decision_def Classify_def after_decision_def applyIdempotencyDecision_def mapNotFound_def Milliseconds_def)

lemma sample_lookup_step:
  "\<exists>wk. ck_record wk = rec \<and> ck_job wk = sample_chat_job ''k''
     \<and> fst (lookup_step sample_deps (sample_chat_http ''k'') ev (sample_chat_job ''k'') rec g) = CSelect wk []"
  by (simp add: lookup_step_def sample_chat_job_def Eligible_def cacheRequest_def sample_request_def ChatRequest.extend_def defaultTemperature_def
     maxCacheableTemperature_def)

lemma sample_select_step:
  "fst (select_step sample_deps (sample_chat_http ''k'') (sample_chat_env (\<lambda>_. Inr [])) wk [] sample_gw) =
     CRespond (ck_record wk) (ck_cacheResult wk) (respondError sample_json_lib ''r'' (selectErrorParts sample_json_lib (cr_Model (cj_req (ck_job wk))) ErrNoBackends False))"
  by (simp add: select_step_def Select_def sample_chat_env_def sample_deps_def sample_chat_http_def policy_of_def sample_policies_def)

lemmas chat_step_defs = check_step_def allow_step_def begin_step_def lookup_step_def hit_step_def select_step_def
  report_step_def ledger_row_step_def called_step_def put_step_def respondChat_def

subsection \<open>What each step leaves alone\<close>

lemma allowRate_frame [simp]:
  "gw_sel (snd (allowRate deps now p g)) = gw_sel g" "gw_idem (snd (allowRate deps now p g)) = gw_idem g"
  "gw_cache (snd (allowRate deps now p g)) = gw_cache g" "gw_br (snd (allowRate deps now p g)) = gw_br g"
  by (simp_all add: allowRate_def split: prod.splits sum.splits)

lemma check_step_frame [simp]:
  "gw_sel (snd (check_step deps q ev job g)) = gw_sel g" "gw_cache (snd (check_step deps q ev job g)) = gw_cache g"
  by (simp_all add: check_step_def split: prod.splits sum.splits)

lemma allow_step_frame [simp]:
  "gw_sel (snd (allow_step deps q ev job g)) = gw_sel g" "gw_cache (snd (allow_step deps q ev job g)) = gw_cache g"
  "gw_idem (snd (allow_step deps q ev job g)) = gw_idem g"
  using allowRate_frame [of deps "cv_now ev" "cj_principal job" g]
  by (cases "allowRate deps (cv_now ev) (cj_principal job) g"; simp add: allow_step_def split: bool.splits)+

lemma begin_step_frame [simp]:
  "gw_sel (snd (begin_step deps q ev job g)) = gw_sel g" "gw_cache (snd (begin_step deps q ev job g)) = gw_cache g"
  by (simp_all add: begin_step_def split: prod.splits sum.splits)

lemma lookup_step_frame [simp]:
  "gw_sel (snd (lookup_step deps q ev job rec g)) = gw_sel g" "gw_idem (snd (lookup_step deps q ev job rec g)) = gw_idem g"
  by (simp_all add: lookup_step_def Let_def count_event_def split: option.splits prod.splits sum.splits)

lemma hit_step_frame [simp]:
  "gw_sel (snd (hit_step deps wk e g)) = gw_sel g" "gw_cache (snd (hit_step deps wk e g)) = gw_cache g"
  "gw_idem (snd (hit_step deps wk e g)) = gw_idem g"
  by (simp_all add: hit_step_def)

lemma select_step_frame [simp]:
  "gw_cache (snd (select_step deps q ev wk tried g)) = gw_cache g" "gw_idem (snd (select_step deps q ev wk tried g)) = gw_idem g"
  by (simp_all add: select_step_def Let_def split: option.splits prod.splits sum.splits)

lemma report_step_frame [simp]:
  "gw_sel (snd (report_step ev wk tried sel h res g)) = gw_sel g" "gw_cache (snd (report_step ev wk tried sel h res g)) = gw_cache g"
  "gw_idem (snd (report_step ev wk tried sel h res g)) = gw_idem g"
  by (simp_all add: report_step_def Let_def split: do_result.splits prod.splits)

lemma other_step_frame [simp]:
  "gw_sel (snd (ledger_row_step deps ev wk tried sel h st out g)) = gw_sel g"
  "gw_cache (snd (ledger_row_step deps ev wk tried sel h st out g)) = gw_cache g"
  "gw_idem (snd (ledger_row_step deps ev wk tried sel h st out g)) = gw_idem g"
  "gw_sel (snd (put_step deps ev wk sel body g)) = gw_sel g" "gw_idem (snd (put_step deps ev wk sel body g)) = gw_idem g"
  "gw_sel (snd (respondChat deps q ev rec label rs g)) = gw_sel g"
  "gw_cache (snd (respondChat deps q ev rec label rs g)) = gw_cache g"
  "gw_sel (observe_duration label g) = gw_sel g" "gw_cache (observe_duration label g) = gw_cache g"
  "gw_idem (observe_duration label g) = gw_idem g"
  by (simp_all add: ledger_row_step_def put_step_def respondChat_def observe_duration_def)

fun moves_selector :: "chat_pc \<Rightarrow> bool" where
  "moves_selector (CSelect _ _) = True"
| "moves_selector (CRelease _ _ _ _ _) = True"
| "moves_selector _ = False"

lemma chat_step_sel: "\<not> moves_selector pc \<Longrightarrow> gw_sel (snd (chat_step deps q ev pc g)) = gw_sel g"
  by (cases pc) simp_all

fun moves_idem :: "chat_pc \<Rightarrow> bool" where
  "moves_idem (CCheck _) = True"
| "moves_idem (CBegin _) = True"
| "moves_idem (CRespond _ _ _) = True"
| "moves_idem _ = False"

lemma chat_step_idem: "\<not> moves_idem pc \<Longrightarrow> gw_idem (snd (chat_step deps q ev pc g)) = gw_idem g"
  by (cases pc) simp_all

fun moves_cache :: "chat_pc \<Rightarrow> bool" where
  "moves_cache (CLookup _ _) = True"
| "moves_cache (CPut _ _ _) = True"
| "moves_cache _ = False"

lemma chat_step_cache: "\<not> moves_cache pc \<Longrightarrow> gw_cache (snd (chat_step deps q ev pc g)) = gw_cache g"
  by (cases pc) simp_all

subsection \<open>Slots\<close>

text \<open>The release closures a request is responsible for, and those that have not run.\<close>

fun pc_handle :: "chat_pc \<Rightarrow> nat list" where
  "pc_handle (CCall _ _ _ h) = [h]"
| "pc_handle (CReport _ _ _ h _) = [h]"
| "pc_handle (CLedger _ _ _ h _ _) = [h]"
| "pc_handle (CRelease _ _ _ h _) = [h]"
| "pc_handle _ = []"

definition open_handles :: "'r Selector \<Rightarrow> nat set" where
  "open_handles s = {h. h < length (handles s) \<and> \<not> rh_done (handles s ! h)}"

lemma finite_open_handles [simp]: "finite (open_handles s)"
  by (rule finite_subset [of _ "{..<length (handles s)}"]) (auto simp: open_handles_def)

lemma open_handles_release: "open_handles (release_call h s) = open_handles s - {h}"
  by (auto simp: open_handles_def release_call_def Let_def nth_list_update split: if_splits)

lemma open_handles_append:
  "handles s' = handles s @ [r] \<Longrightarrow> \<not> rh_done r \<Longrightarrow> open_handles s' = insert (length (handles s)) (open_handles s)"
  by (auto simp: open_handles_def nth_append less_Suc_eq)

lemma fresh_handle: "length (handles s) \<notin> open_handles s"
  by (simp add: open_handles_def)

lemma start_step_handle [simp]: "pc_handle (start_step deps q) = []"
  by (simp add: start_step_def fail_early_def Let_def split: option.splits sum.splits)

lemma after_decision_handle [simp]: "pc_handle nxt = [] \<Longrightarrow> pc_handle (after_decision lib q dec nxt) = []"
  by (simp add: after_decision_def split: applied.splits)

text \<open>One step takes at most one closure or runs the one its request holds.\<close>

definition slot_move :: "chat_pc \<Rightarrow> chat_pc \<Rightarrow> 'r Selector \<Rightarrow> 'r Selector \<Rightarrow> bool" where
  "slot_move pc pc' s s' \<longleftrightarrow>
     (pc_handle pc' = pc_handle pc \<and> open_handles s' = open_handles s)
   \<or> (\<exists>h. pc_handle pc = [] \<and> pc_handle pc' = [h] \<and> h \<notin> open_handles s \<and> open_handles s' = insert h (open_handles s))
   \<or> (\<exists>h. pc_handle pc = [h] \<and> pc_handle pc' = [] \<and> open_handles s' = open_handles s - {h})"

lemma slot_move_same: "pc_handle pc' = pc_handle pc \<Longrightarrow> s' = s \<Longrightarrow> slot_move pc pc' s s'"
  by (simp add: slot_move_def)

text \<open>Where the steps that leave the selector alone go.\<close>

lemma step_targets [simp]:
  "pc_handle (fst (check_step deps q ev job g)) = []" "pc_handle (fst (begin_step deps q ev job g)) = []"
  "pc_handle (fst (lookup_step deps q ev job rec g)) = []" "pc_handle (fst (report_step ev wk tried sel h res g)) = [h]"
  "pc_handle (called_step deps q ev wk tried sel out) = []"
  by (simp_all add: check_step_def begin_step_def lookup_step_def report_step_def called_step_def fail_early_def Let_def
      split: option.splits prod.splits sum.splits do_result.splits)

lemma allow_step_target [simp]: "pc_handle (fst (allow_step deps q ev job g)) = []"
  by (simp add: allow_step_def split: prod.splits bool.splits)

lemma select_step_slots:
  "slot_move (CSelect wk tried) (fst (select_step deps q ev wk tried g)) (gw_sel g) (gw_sel (snd (select_step deps q ev wk tried g)))"
proof (cases "Select (dp_intn deps) (cv_policies ev) (cv_backends ev) (cv_clk ev) (cr_Model (cj_req (ck_job wk))) tried (gw_sel g) (gw_br g)")
  case None
  then show ?thesis by (simp add: select_step_def slot_move_def)
next
  case (Some r)
  obtain res s br where r: "r = (res, s, br)" by (cases r)
  show ?thesis
  proof (cases res)
    case (Inl err)
    then show ?thesis using Select_Inl_handles [of "dp_intn deps"] Some r
      by (simp add: select_step_def slot_move_def open_handles_def)
  next
    case (Inr sh)
    obtain sel h where sh: "sh = (sel, h)" by (cases sh)
    have "h = length (handles (gw_sel g)) \<and> open_handles s = insert h (open_handles (gw_sel g))"
      using Select_Inr_handles [OF Some [unfolded r Inr sh]] open_handles_append by fastforce
    then show ?thesis using Some r Inr sh fresh_handle [of "gw_sel g"] by (simp add: select_step_def slot_move_def)
  qed
qed

lemma chat_step_slots:
  "slot_move pc (fst (chat_step deps q ev pc g)) (gw_sel g) (gw_sel (snd (chat_step deps q ev pc g)))"
proof (cases "moves_selector pc")
  case True
  then consider wk tried where "pc = CSelect wk tried" | wk tried sel h out where "pc = CRelease wk tried sel h out"
    by (cases pc) auto
  then show ?thesis
  proof cases
    case 1
    then show ?thesis using select_step_slots by simp
  next
    case 2
    then show ?thesis by (auto simp: slot_move_def open_handles_release split: option.splits)
  qed
next
  case False
  have "pc_handle (fst (chat_step deps q ev pc g)) = pc_handle pc"
    using False by (cases pc) (simp_all add: hit_step_def ledger_row_step_def put_step_def respondChat_def)
  then show ?thesis using False by (simp add: slot_move_same chat_step_sel)
qed

lemma chat_step_selector_inv:
  assumes "intn_ok (dp_intn deps)" and "selector_inv (gw_sel g)"
  shows "selector_inv (gw_sel (snd (chat_step deps q ev pc g)))"
proof (cases "moves_selector pc")
  case True
  then show ?thesis using assms selector_inv_Select [OF assms(1,2)] selector_inv_release
    by (cases pc) (auto simp: select_step_def Let_def split: option.splits prod.splits sum.splits)
next
  case False
  then show ?thesis using assms(2) by (simp add: chat_step_sel)
qed

definition held_handles :: "(chat_http \<times> chat_pc) list \<Rightarrow> nat multiset" where
  "held_handles rs = (\<Sum>r \<in># mset rs. mset (pc_handle (snd r)))"

definition slots_inv :: "('e, 's, 'c, 'l, 'r, 'x) Deps \<Rightarrow> ('s, 'c, 'l, 'r) chat_sys \<Rightarrow> bool" where
  "slots_inv deps y \<longleftrightarrow>
     held_handles (sy_reqs y) = mset_set (open_handles (gw_sel (sy_gw y)))
   \<and> (intn_ok (dp_intn deps) \<longrightarrow> selector_inv (gw_sel (sy_gw y)))"

lemma slots_inv_sched:
  assumes "slots_inv deps y" and "i < length (sy_reqs y)" and "sy_reqs y ! i = (q, pc)"
    and "chat_step deps q ev pc (sy_gw y) = (pc', g)"
  shows "slots_inv deps (y\<lparr>sy_reqs := (sy_reqs y)[i := (q, pc')], sy_gw := g\<rparr>)"
proof -
  let ?M = "held_handles (sy_reqs y)" and ?M' = "held_handles ((sy_reqs y)[i := (q, pc')])"
  let ?O = "open_handles (gw_sel (sy_gw y))"
  have M: "?M' + mset (pc_handle pc) = ?M + mset (pc_handle pc')"
    using sum_mset_update [OF assms(2), of "\<lambda>r. mset (pc_handle (snd r))" "(q, pc')"] assms(3) by (simp add: held_handles_def)
  have inv: "?M = mset_set ?O" using assms(1) by (simp add: slots_inv_def)
  have "slot_move pc pc' (gw_sel (sy_gw y)) (gw_sel g)" using chat_step_slots [of pc deps q ev "sy_gw y"] assms(4) by simp
  then have "?M' = mset_set (open_handles (gw_sel g))" unfolding slot_move_def
  proof (elim disjE exE conjE)
    fix h
    assume h: "pc_handle pc = [h]" "pc_handle pc' = []" "open_handles (gw_sel g) = ?O - {h}"
    have "h \<in># ?M" using M h by (metis add_mset_add_single mset.simps(1) mset_single_iff_right add.right_neutral union_single_eq_member)
    then have "h \<in> ?O" using inv by simp
    then show ?thesis using M h inv by (simp add: mset_set.remove)
  qed (use M inv in auto)
  moreover have "intn_ok (dp_intn deps) \<longrightarrow> selector_inv (gw_sel g)"
    using chat_step_selector_inv [of deps "sy_gw y" q ev pc] assms(1,4) by (simp add: slots_inv_def)
  ultimately show ?thesis by (simp add: slots_inv_def)
qed

lemma slots_inv_step: "slots_inv deps y \<Longrightarrow> slots_inv deps (chat_sys_step deps y e)"
proof (cases e)
  case (Sched i ev)
  assume inv: "slots_inv deps y"
  show ?thesis
  proof (cases "i < length (sy_reqs y)")
    case True
    obtain q pc where r: "sy_reqs y ! i = (q, pc)" by fastforce
    obtain pc' g where c: "chat_step deps q ev pc (sy_gw y) = (pc', g)" by fastforce
    show ?thesis using slots_inv_sched [OF inv True r c] Sched True r c by simp
  qed (use Sched inv in simp)
qed (simp_all add: slots_inv_def held_handles_def)

interpretation chat_slots: guarded_object "chat_sys_step deps" "slots_inv deps" for deps
  by unfold_locales (rule slots_inv_step)

lemma no_open_handles_idle:
  assumes "selector_inv s" and "open_handles s = {}"
  shows "InFlight b s = 0 \<and> (has_metrics s \<longrightarrow> BackendInFlight s n = 0)"
proof -
  have "\<forall>r \<in> set (handles s). rh_done r" using assms(2) by (auto simp: open_handles_def in_set_conv_nth)
  then have "live P s = 0" for P by (auto simp: live_def)
  then show ?thesis using assms(1) by (auto simp: selector_inv_def InFlight_def sems_ok_def split: option.splits)
qed

definition idle_gateway :: "('s, 'c, 'l, 'r) gateway \<Rightarrow> bool" where
  "idle_gateway g \<longleftrightarrow> (\<exists>m r. gw_sel g = NewSelector m r)"

text \<open>C5: No completion leaks a slot. Requests arrive and take their steps in any order, backends answer, fail or
  panic, contexts end, other replicas work on the shared stores: at every moment the release closures that have
  not run are exactly those held by requests between their selection and their release, one each; so when
  every request has ended, also by a panic, no backend has a request in flight and its gauge is zero.\<close>

theorem chat_never_leaks_slots:
  assumes "intn_ok (dp_intn deps)" and "idle_gateway g0"
    and "y = foldl (chat_sys_step deps) \<lparr>sy_reqs = [], sy_gw = g0\<rparr> es"
  shows "held_handles (sy_reqs y) = mset_set (open_handles (gw_sel (sy_gw y)))
    \<and> (list_all (\<lambda>r. ended (snd r)) (sy_reqs y) \<longrightarrow>
         InFlight b (gw_sel (sy_gw y)) = 0 \<and> (has_metrics (gw_sel (sy_gw y)) \<longrightarrow> BackendInFlight (gw_sel (sy_gw y)) n = 0))"
proof -
  have "slots_inv deps \<lparr>sy_reqs = [], sy_gw = g0\<rparr>"
    using assms(2) selector_inv_New by (auto simp: idle_gateway_def slots_inv_def held_handles_def open_handles_def NewSelector_def)
  then have inv: "slots_inv deps y" unfolding assms(3) by (rule chat_slots.run_inv)
  have none: "ended pc \<Longrightarrow> pc_handle pc = []" for pc by (cases pc) auto
  have "list_all (\<lambda>r. ended (snd r)) rs \<Longrightarrow> held_handles rs = {#}" for rs
    by (induction rs) (auto simp: held_handles_def none)
  then have "list_all (\<lambda>r. ended (snd r)) (sy_reqs y) \<Longrightarrow> open_handles (gw_sel (sy_gw y)) = {}"
    using inv by (auto simp: slots_inv_def mset_set_empty_iff)
  then show ?thesis using inv assms(1) no_open_handles_idle by (auto simp: slots_inv_def)
qed

theorem chat_never_leaks_slots_witness:
  "held_handles (sy_reqs (foldl (chat_sys_step sample_deps) \<lparr>sy_reqs = [], sy_gw = sample_gw\<rparr>
      [Arrive (sample_chat_http ''k''), Sched 0 (sample_chat_env sample_backends), Sched 0 (sample_chat_env sample_backends)]))
   = mset_set (open_handles (gw_sel (sy_gw (foldl (chat_sys_step sample_deps) \<lparr>sy_reqs = [], sy_gw = sample_gw\<rparr>
      [Arrive (sample_chat_http ''k''), Sched 0 (sample_chat_env sample_backends), Sched 0 (sample_chat_env sample_backends)]))))"
proof -
  have "intn_ok (dp_intn sample_deps)" "idle_gateway sample_gw"
    using intn_ok_zero by (auto simp: sample_deps_def idle_gateway_def sample_gw_def)
  from conjunct1 [OF chat_never_leaks_slots [OF this refl]] show ?thesis .
qed

subsection \<open>The path of one request\<close>

text \<open>
  The steps of one request with the gateway as each of them finds it: whatever other requests do in between is
  covered by letting every step start from any state. The result is the list of steps and the point reached.
\<close>

fun chat_path ::
  "('e, 's, 'c, 'l, 'r, 'x) Deps \<Rightarrow> chat_http \<Rightarrow> chat_pc \<Rightarrow> (('e, 'x) chat_env \<times> ('s, 'c, 'l, 'r) gateway) list
     \<Rightarrow> (chat_pc \<times> ('e, 'x) chat_env \<times> ('s, 'c, 'l, 'r) gateway) list \<times> chat_pc" where
  "chat_path deps q pc [] = ([], pc)"
| "chat_path deps q pc ((ev, g) # ws) =
     (case chat_path deps q (fst (chat_step deps q ev pc g)) ws of (steps, pc') \<Rightarrow> ((pc, ev, g) # steps, pc'))"

lemma chat_path_Cons [simp]:
  "fst (chat_path deps q pc ((ev, g) # ws)) = (pc, ev, g) # fst (chat_path deps q (fst (chat_step deps q ev pc g)) ws)"
  "snd (chat_path deps q pc ((ev, g) # ws)) = snd (chat_path deps q (fst (chat_step deps q ev pc g)) ws)"
  by (simp_all split: prod.splits)

declare chat_path.simps(2) [simp del]

fun begun ::
  "('e, 's, 'c, 'l, 'r, 'x) Deps \<Rightarrow> chat_http \<Rightarrow> (chat_pc \<times> ('e, 'x) chat_env \<times> ('s, 'c, 'l, 'r) gateway) list \<Rightarrow> uuid list" where
  "begun deps q [] = []"
| "begun deps q ((CBegin job, ev, g) # steps) =
     (case fst (begin_step deps q ev job g) of CLookup _ (Some i) \<Rightarrow> i # begun deps q steps | _ \<Rightarrow> begun deps q steps)"
| "begun deps q (_ # steps) = begun deps q steps"

fun resolved :: "(chat_pc \<times> ('e, 'x) chat_env \<times> ('s, 'c, 'l, 'r) gateway) list \<Rightarrow> (uuid \<times> chat_response) list" where
  "resolved [] = []"
| "resolved ((CRespond (Some i) _ rs, ev, g) # steps) = (i, rs) # resolved steps"
| "resolved (_ # steps) = resolved steps"

fun before_begin :: "chat_pc \<Rightarrow> bool" where
  "before_begin CStart = True"
| "before_begin (CCheck _) = True"
| "before_begin (CAllow _) = True"
| "before_begin (CBegin _) = True"
| "before_begin _ = False"

fun pc_record :: "chat_pc \<Rightarrow> uuid option" where
  "pc_record (CLookup _ i) = i"
| "pc_record (CHit wk _) = ck_record wk"
| "pc_record (CSelect wk _) = ck_record wk"
| "pc_record (CCall wk _ _ _) = ck_record wk"
| "pc_record (CReport wk _ _ _ _) = ck_record wk"
| "pc_record (CLedger wk _ _ _ _ _) = ck_record wk"
| "pc_record (CRelease wk _ _ _ _) = ck_record wk"
| "pc_record (CCalled wk _ _ _) = ck_record wk"
| "pc_record (CPut wk _ _) = ck_record wk"
| "pc_record (CRespond i _ _) = i"
| "pc_record _ = None"

fun panicked :: "chat_pc \<Rightarrow> bool" where
  "panicked (CUnwind _ _) = True"
| "panicked (CAborted _) = True"
| "panicked _ = False"

fun responding :: "chat_pc \<Rightarrow> bool" where
  "responding (CRespond _ _ _) = True"
| "responding _ = False"

lemma begun_step: "begun deps q ((pc, ev, g) # steps) =
    (if \<exists>job. pc = CBegin job then (case pc_record (fst (chat_step deps q ev pc g)) of None \<Rightarrow> [] | Some i \<Rightarrow> [i]) else [])
    @ begun deps q steps"
proof (cases pc)
  case (CBegin job)
  have "(\<exists>i. fst (begin_step deps q ev job g) = CLookup job i) \<or> pc_record (fst (begin_step deps q ev job g)) = None"
    by (auto simp: begin_step_def after_decision_def fail_early_def split: prod.splits sum.splits applied.splits)
  then show ?thesis using CBegin by (auto split: option.splits chat_pc.splits)
qed auto

lemma resolved_step: "resolved ((pc, ev, g) # steps) =
    (case pc of CRespond (Some i) _ rs \<Rightarrow> [(i, rs)] | _ \<Rightarrow> []) @ resolved steps"
  by (cases pc) (auto split: option.splits)

lemma after_begin_step:
  assumes "\<not> before_begin pc"
  shows "\<not> before_begin (fst (chat_step deps q ev pc g))
    \<and> (if responding pc then pc_record (fst (chat_step deps q ev pc g)) = None
       else pc_record (fst (chat_step deps q ev pc g)) = pc_record pc \<or> panicked (fst (chat_step deps q ev pc g)))"
  using assms
  by (cases pc) (simp_all add: lookup_step_def hit_step_def select_step_def report_step_def ledger_row_step_def called_step_def
      put_step_def respondChat_def Let_def split: option.splits prod.splits sum.splits do_result.splits)

lemma panicked_step: "panicked pc \<Longrightarrow> panicked (fst (chat_step deps q ev pc g))"
  by (cases pc) simp_all

lemma panicked_path: "panicked pc \<Longrightarrow> panicked (snd (chat_path deps q pc ws))"
  by (induction ws arbitrary: pc) (auto simp: panicked_step)

lemma ended_path: "ended pc \<Longrightarrow> snd (chat_path deps q pc ws) = pc"
proof (induction ws)
  case (Cons w ws)
  then show ?case by (cases w; cases pc) simp_all
qed simp

lemma after_begin_path:
  assumes "\<not> before_begin pc" and "\<not> panicked (snd (chat_path deps q pc ws))" and "ended (snd (chat_path deps q pc ws))"
  shows "begun deps q (fst (chat_path deps q pc ws)) = []
    \<and> map fst (resolved (fst (chat_path deps q pc ws))) = (case pc_record pc of None \<Rightarrow> [] | Some i \<Rightarrow> [i])"
  using assms
proof (induction ws arbitrary: pc)
  case Nil
  then show ?case by (cases pc) simp_all
next
  case (Cons w ws)
  obtain ev g where w: "w = (ev, g)" by (cases w)
  let ?pc = "fst (chat_step deps q ev pc g)"
  have np: "\<not> panicked ?pc" using Cons.prems(2) w panicked_path [of ?pc] by auto
  have IH: "begun deps q (fst (chat_path deps q ?pc ws)) = []
    \<and> map fst (resolved (fst (chat_path deps q ?pc ws))) = (case pc_record ?pc of None \<Rightarrow> [] | Some i \<Rightarrow> [i])"
    using Cons.IH [of ?pc] Cons.prems after_begin_step [OF Cons.prems(1)] w by auto
  have nb: "\<nexists>job. pc = CBegin job" using Cons.prems(1) by auto
  show ?case using IH nb after_begin_step [OF Cons.prems(1), of deps q ev g] np w
    by (cases pc) (auto simp: begun_step resolved_step split: option.splits)
qed

lemma before_begin_step:
  assumes "before_begin pc"
  shows "resolved [(pc, ev, g)] = []
    \<and> ((\<nexists>job. pc = CBegin job) \<longrightarrow> pc_record (fst (chat_step deps q ev pc g)) = None)
    \<and> ((\<exists>job. pc = CBegin job) \<longrightarrow> \<not> before_begin (fst (chat_step deps q ev pc g)))"
proof -
  have "pc_record (start_step deps q) = None"
    by (simp add: start_step_def fail_early_def Let_def split: option.splits sum.splits)
  then show ?thesis using assms
    by (cases pc) (simp_all add: check_step_def allow_step_def begin_step_def after_decision_def fail_early_def
        split: prod.splits sum.splits applied.splits bool.splits)
qed

lemma path_resolves:
  assumes "\<not> panicked (snd (chat_path deps q pc ws))" and "ended (snd (chat_path deps q pc ws))" and "before_begin pc"
  shows "map fst (resolved (fst (chat_path deps q pc ws))) = begun deps q (fst (chat_path deps q pc ws))
    \<and> length (begun deps q (fst (chat_path deps q pc ws))) \<le> 1"
  using assms
proof (induction ws arbitrary: pc)
  case Nil
  then show ?case by simp
next
  case (Cons w ws)
  obtain ev g where w: "w = (ev, g)" by (cases w)
  let ?pc = "fst (chat_step deps q ev pc g)"
  note b = before_begin_step [OF Cons.prems(3), of ev g deps q]
  have r: "resolved (fst (chat_path deps q pc (w # ws))) = resolved (fst (chat_path deps q ?pc ws))"
    using b w by (simp add: resolved_step)
  show ?case
  proof (cases "before_begin ?pc")
    case True
    then have "\<nexists>job. pc = CBegin job" using b by blast
    then show ?thesis using Cons.IH [OF _ _ True] Cons.prems w r by (simp add: begun_step)
  next
    case False
    note a = after_begin_path [OF False, of deps q ws]
    show ?thesis using a b Cons.prems w r by (auto simp: begun_step split: option.splits)
  qed
qed

text \<open>What is resolved is what the client gets.\<close>

lemma path_from_finish: "ended (snd (chat_path deps q (CFinish label w) ws)) \<Longrightarrow> snd (chat_path deps q (CFinish label w) ws) = CDone w"
  by (cases ws) (auto simp: ended_path)

lemma resolved_is_sent:
  assumes "(i, rs) \<in> set (resolved (fst (chat_path deps q pc ws)))" and "ended (snd (chat_path deps q pc ws))"
  shows "snd (chat_path deps q pc ws) = CDone (write_response (cs_status rs) (cs_body rs) (write_headers (cs_headers rs) (hq_writer q)))
    \<and> (\<exists>label ev g. (CRespond (Some i) label rs, ev, g) \<in> set (fst (chat_path deps q pc ws)))"
  using assms
proof (induction ws arbitrary: pc)
  case Nil
  then show ?case by simp
next
  case (Cons w ws)
  obtain ev g where w: "w = (ev, g)" by (cases w)
  let ?pc = "fst (chat_step deps q ev pc g)"
  show ?case
  proof (cases "(i, rs) \<in> set (resolved (fst (chat_path deps q ?pc ws)))")
    case True
    then show ?thesis using Cons.IH [OF True] Cons.prems(2) w by auto
  next
    case False
    then obtain label where pc: "pc = CRespond (Some i) label rs"
      using Cons.prems(1) w by (cases pc) (auto simp: resolved_step split: option.splits)
    then show ?thesis using Cons.prems(2) w path_from_finish [of deps q label _ ws] by (auto simp: respondChat_def)
  qed
qed

text \<open>C4: An opened idempotency record is resolved exactly once, before the response goes out, with that very
  response. On every path of a request from its arrival to a normal return, whatever happens to the shared state
  in between, the records resolved are exactly the records opened, at most one; the resolving step releases the
  record for a status of 500 or more and otherwise completes it with the status, headers and body that the client
  is then sent; no other step after the opening writes to the idempotency store.\<close>

theorem opened_record_is_resolved_once:
  assumes "chat_path deps q CStart ws = (steps, CDone w)"
  shows "map fst (resolved steps) = begun deps q steps \<and> length (begun deps q steps) \<le> 1
    \<and> (\<forall>(i, rs) \<in> set (resolved steps). w = write_response (cs_status rs) (cs_body rs) (write_headers (cs_headers rs) (hq_writer q))
         \<and> (\<exists>label ev g. (CRespond (Some i) label rs, ev, g) \<in> set steps
              \<and> gw_idem (snd (chat_step deps q ev (CRespond (Some i) label rs) g)) =
                  (if 500 \<le> cs_status rs then snd (Release (dp_Idempotency deps) (cv_idem ev) i (gw_idem g))
                   else snd (Complete (dp_hj deps) (dp_Idempotency deps) (cv_idem ev) i (cs_status rs) (cs_headers rs)
                          (cs_body rs) (gw_idem g)))))
    \<and> (\<forall>(pc, ev, g) \<in> set steps. before_begin pc \<or> responding pc
         \<or> gw_idem (snd (chat_step deps q ev pc g)) = gw_idem g)"
proof -
  have p: "fst (chat_path deps q CStart ws) = steps" "snd (chat_path deps q CStart ws) = CDone w" using assms by simp_all
  have "w = write_response (cs_status rs) (cs_body rs) (write_headers (cs_headers rs) (hq_writer q))
      \<and> (\<exists>label ev g. (CRespond (Some i) label rs, ev, g) \<in> set steps)" if "(i, rs) \<in> set (resolved steps)" for i rs
    using resolved_is_sent [of i rs deps q CStart ws] that p by auto
  moreover have "gw_idem (snd (chat_step deps q ev (CRespond (Some i) label rs) g)) =
      (if 500 \<le> cs_status rs then snd (Release (dp_Idempotency deps) (cv_idem ev) i (gw_idem g))
       else snd (Complete (dp_hj deps) (dp_Idempotency deps) (cv_idem ev) i (cs_status rs) (cs_headers rs) (cs_body rs) (gw_idem g)))"
    for ev i label rs g by (simp add: respondChat_def resolve_record_def)
  moreover have "before_begin pc \<or> responding pc \<or> gw_idem (snd (chat_step deps q ev pc g)) = gw_idem g" for pc ev g
    using chat_step_idem [of pc deps q ev g] by (cases pc) auto
  ultimately show ?thesis using path_resolves [of deps q CStart ws] p by fastforce
qed

text \<open>A request with a key for a model nobody serves: the record is opened and completed with the 404.\<close>

theorem opened_record_is_resolved_once_witness:
  "\<exists>w steps. chat_path sample_deps (sample_chat_http ''k'') CStart (replicate 8 (sample_chat_env (\<lambda>_. Inr []), sample_gw)) = (steps, CDone w)
     \<and> begun sample_deps (sample_chat_http ''k'') steps = [1] \<and> map fst (resolved steps) = [1]"
proof -
  let ?q = "sample_chat_http ''k''" and ?ws = "replicate 8 (sample_chat_env (\<lambda>_. Inr []), sample_gw)"
  obtain wk where wk: "ck_record wk = Some 1" and
    lk: "fst (lookup_step sample_deps ?q (sample_chat_env (\<lambda>_. Inr [])) (sample_chat_job ''k'') (Some 1) sample_gw) = CSelect wk []"
    using sample_lookup_step by blast
  obtain steps w where p: "chat_path sample_deps ?q CStart ?ws = (steps, CDone w)" and "begun sample_deps ?q steps = [1]"
    by (simp add: numeral_eq_Suc chat_path.simps(2) sample_start sample_steps lk sample_select_step wk respondChat_def)
  with opened_record_is_resolved_once [OF p] show ?thesis by auto
qed

text \<open>A panic strands the record. When the backend call of a request that opened a record panics, the breaker
  gets its report and the slot is released, but the handler unwinds without touching the idempotency store: the
  record stays pending, and the client's retries under the same key are refused until its lock lapses.\<close>

theorem panic_strands_record:
  assumes "ck_record wk = Some i" and "cv_panic ev"
  shows "\<exists>steps. chat_path deps q (CCall wk tried sel h) [(ev, g), (ev2, g2), (ev3, g3), (ev4, g4)] = (steps, CAborted (hq_writer q))
     \<and> resolved steps = []
     \<and> gw_br (snd (chat_step deps q ev2 (CReport wk tried sel h DoPanicked) g2)) = ReportCanceled (mb_Name (sel_Backend sel)) (gw_br g2)
     \<and> gw_sel (snd (chat_step deps q ev3 (CRelease wk tried sel h None) g3)) = release_call h (gw_sel g3)
     \<and> (\<forall>(pc, ev, g) \<in> set steps. gw_idem (snd (chat_step deps q ev pc g)) = gw_idem g)"
  using assms by (simp add: chat_path.simps(2) call_result_def Chat.report_step_def observe_duration_def)

theorem panic_strands_record_witness:
  "\<exists>steps. chat_path sample_deps (sample_chat_http ''k'')
      (CCall \<lparr>ck_job = sample_chat_job ''k'', ck_record = Some 1, ck_eligible = False, ck_cacheResult = CacheResultBypass, ck_cacheKey = []\<rparr>
         [2] sample_selection 0)
      (replicate 4 ((sample_chat_env sample_backends)\<lparr>cv_panic := True\<rparr>, sample_gw)) = (steps, CAborted fresh_writer)
     \<and> resolved steps = []"
  using panic_strands_record [of "\<lparr>ck_job = sample_chat_job ''k'', ck_record = Some 1, ck_eligible = False, ck_cacheResult = CacheResultBypass,
      ck_cacheKey = []\<rparr>" 1 "(sample_chat_env sample_backends)\<lparr>cv_panic := True\<rparr>" sample_deps "sample_chat_http ''k''" "[2]" sample_selection 0 sample_gw
      "(sample_chat_env sample_backends)\<lparr>cv_panic := True\<rparr>" sample_gw "(sample_chat_env sample_backends)\<lparr>cv_panic := True\<rparr>" sample_gw
      "(sample_chat_env sample_backends)\<lparr>cv_panic := True\<rparr>" sample_gw]
  by (auto simp: numeral_eq_Suc sample_chat_http_def)

subsection \<open>Precedence\<close>

lemma path_predecessor:
  assumes "fst (chat_path deps q pc0 ws) = xs @ (pc, ev, g) # ys" and "xs \<noteq> []"
  obtains p e g' where "last xs = (p, e, g')" "pc = fst (chat_step deps q e p g')"
  using assms
proof (induction ws arbitrary: pc0 xs thesis)
  case Nil
  then show ?case by simp
next
  case (Cons w ws)
  obtain e0 g0 where w: "w = (e0, g0)" by (cases w)
  obtain xs' where xs: "xs = (pc0, e0, g0) # xs'"
    "fst (chat_path deps q (fst (chat_step deps q e0 pc0 g0)) ws) = xs' @ (pc, ev, g) # ys"
    using Cons.prems(2,3) w by (cases xs) auto
  show ?case
  proof (cases "xs' = []")
    case True
    then have "pc = fst (chat_step deps q e0 pc0 g0)" using xs(2) by (cases ws) auto
    then show ?thesis using Cons.prems(1) xs(1) True by simp
  next
    case False
    from Cons.IH [OF _ xs(2) False] obtain p e g' where "last xs' = (p, e, g')" "pc = fst (chat_step deps q e p g')" by blast
    then show ?thesis using Cons.prems(1) xs(1) False by simp
  qed
qed

lemma path_first: "fst (chat_path deps q pc0 ws) = (pc, ev, g) # ys \<Longrightarrow> pc = pc0"
  by (cases ws) auto

lemma start_step_CAllow: "start_step deps q = CAllow job \<Longrightarrow> cj_idemKey job = []"
  by (auto simp: start_step_def fail_early_def Let_def split: option.splits sum.splits if_splits)

lemma reaches_CAllow:
  assumes "fst (chat_step deps q ev p g) = CAllow job"
  shows "(p = CStart \<and> cj_idemKey job = [])
    \<or> (p = CCheck job \<and> (\<exists>d. fst (Check (dp_hj deps) (dp_Idempotency deps) (cv_idem ev) (cj_scope job) (cj_idemKey job) (cj_rawHash job)
          (gw_idem g)) = Inr d \<and> d_Action d \<notin> {ActionReplay, ActionConflictBody, ActionInProgress}))"
proof (cases p)
  case (CCheck j)
  obtain r s where c: "Check (dp_hj deps) (dp_Idempotency deps) (cv_idem ev) (cj_scope j) (cj_idemKey j) (cj_rawHash j) (gw_idem g) = (r, s)"
    by fastforce
  then obtain d where r: "r = Inr d" and ad: "after_decision (dp_lib deps) q d (CAllow j) = CAllow job"
    using assms CCheck by (cases r) (auto simp: check_step_def fail_early_def)
  then have "j = job \<and> d_Action d \<notin> {ActionReplay, ActionConflictBody, ActionInProgress}"
    by (auto simp: after_decision_def applyIdempotencyDecision_def split: applied.splits Action.splits option.splits)
  then show ?thesis using CCheck c r by simp
qed (use assms start_step_CAllow in \<open>auto simp: allow_step_def begin_step_def after_decision_def lookup_step_def hit_step_def select_step_def
    report_step_def ledger_row_step_def called_step_def put_step_def respondChat_def fail_early_def Let_def
    split: option.splits prod.splits sum.splits do_result.splits bool.splits if_splits applied.splits\<close>)

lemma reaches_CBegin:
  assumes "fst (chat_step deps q ev p g) = CBegin job"
  shows "p = CAllow job \<and> fst (allowRate deps (cv_now ev) (cj_principal job) g) \<and> cj_idemKey job \<noteq> []"
proof -
  have "start_step deps q \<noteq> CBegin job"
    by (simp add: start_step_def fail_early_def Let_def split: option.splits sum.splits)
  then show ?thesis using assms
    by (cases p) (auto simp: check_step_def allow_step_def begin_step_def after_decision_def lookup_step_def hit_step_def select_step_def
      report_step_def ledger_row_step_def called_step_def put_step_def respondChat_def fail_early_def Let_def
      split: option.splits prod.splits sum.splits do_result.splits bool.splits if_splits applied.splits)
qed

text \<open>C24: The documented precedence holds on every path. The rate limiter is consulted only for new work: for a
  request without a key, or directly after a lookup that found nothing to replay, no conflict and no request in
  progress; a record is opened only directly after the limiter admitted the request.\<close>

theorem replay_then_limit_then_begin:
  assumes "fst (chat_path deps q CStart ws) = xs @ (pc, ev, g) # ys"
  shows "(pc = CAllow job \<longrightarrow> cj_idemKey job = [] \<or>
           (\<exists>e g' d. last xs = (CCheck job, e, g')
              \<and> fst (Check (dp_hj deps) (dp_Idempotency deps) (cv_idem e) (cj_scope job) (cj_idemKey job) (cj_rawHash job) (gw_idem g')) = Inr d
              \<and> d_Action d \<notin> {ActionReplay, ActionConflictBody, ActionInProgress}))
     \<and> (pc = CBegin job \<longrightarrow> cj_idemKey job \<noteq> []
           \<and> (\<exists>e g'. last xs = (CAllow job, e, g') \<and> fst (allowRate deps (cv_now e) (cj_principal job) g')))"
proof (cases "xs = []")
  case True
  then show ?thesis using path_first [of deps q CStart ws] assms by auto
next
  case False
  from path_predecessor [OF assms False] obtain p e g' where "last xs = (p, e, g')" "pc = fst (chat_step deps q e p g')" by blast
  then show ?thesis using reaches_CAllow [of deps q e p g' job] reaches_CBegin [of deps q e p g' job] by metis
qed

theorem replay_then_limit_then_begin_witness:
  "\<exists>e g'. last [(CStart, sample_chat_env sample_backends, sample_gw), (CCheck (sample_chat_job ''k''), sample_chat_env sample_backends, sample_gw),
      (CAllow (sample_chat_job ''k''), sample_chat_env sample_backends, sample_gw)] = (CAllow (sample_chat_job ''k''), e, g')
     \<and> fst (allowRate sample_deps (cv_now e) (cj_principal (sample_chat_job ''k'')) g')"
proof -
  let ?w = "(sample_chat_env sample_backends, sample_gw)"
  have "fst (chat_path sample_deps (sample_chat_http ''k'') CStart [?w, ?w, ?w, ?w]) =
      [(CStart, ?w), (CCheck (sample_chat_job ''k''), ?w), (CAllow (sample_chat_job ''k''), ?w)] @ (CBegin (sample_chat_job ''k''), ?w) # []"
    by (simp add: sample_start sample_steps)
  from replay_then_limit_then_begin [OF this, of "sample_chat_job ''k''"] show ?thesis by simp
qed

subsection \<open>The failover loop ends\<close>

lemma Select_Inr_member:
  assumes "intn_ok intn" and "Select intn policies backends clk model exclude s br = Some (Inr (sel, h), s', br')"
  shows "\<exists>list. backends model = Inr list \<and> sel_Backend sel \<in> set list"
proof -
  obtain pn st list where pol: "policy_of policies model = Inr (pn, st)" and bs: "backends model = Inr list"
    using assms(2) by (auto simp: Select_def split: sum.splits)
  then obtain r' ordered where ord: "order intn (rng s) (filter routable list) = Some (r', ordered)"
    using assms(2) by (auto simp: Select_def Let_def split: if_splits option.splits)
  obtain o1 s1 br1 where sl: "select_loop clk exclude ordered (s\<lparr>rng := r'\<rparr>) br = (o1, s1, br1)"
    by (cases "select_loop clk exclude ordered (s\<lparr>rng := r'\<rparr>) br")
  have "o1 = Some (sel_Backend sel, h)"
    using assms(2) pol bs ord sl by (auto simp: Select_def Let_def split: if_splits option.splits)
  then have "sel_Backend sel \<in> set ordered"
    using select_loop_Some [of clk exclude ordered "s\<lparr>rng := r'\<rparr>" br "sel_Backend sel" h] sl by simp
  moreover have "set ordered = set (filter routable list)"
    by (rule order_set [OF assms(1) _ ord]) (simp add: routable_def)
  ultimately show ?thesis using bs by auto
qed

text \<open>The rows the store lists have their ids in \<open>B\<close>.\<close>

definition lists_from :: "uuid set \<Rightarrow> ('e, 'x) chat_env \<Rightarrow> bool" where
  "lists_from B ev \<longleftrightarrow> (\<forall>m list. cv_backends ev m = Inr list \<longrightarrow> mb_ID ` set list \<subseteq> B)"

fun pc_rank :: "uuid set \<Rightarrow> chat_pc \<Rightarrow> nat" where
  "pc_rank B CStart = 7 * card B + 10"
| "pc_rank B (CCheck _) = 7 * card B + 9"
| "pc_rank B (CAllow _) = 7 * card B + 8"
| "pc_rank B (CBegin _) = 7 * card B + 7"
| "pc_rank B (CLookup _ _) = 7 * card B + 6"
| "pc_rank B (CSelect _ tried) = 7 * card (B - set tried) + 5"
| "pc_rank B (CCall _ tried _ _) = 7 * card (B - set tried) + 11"
| "pc_rank B (CReport _ tried _ _ _) = 7 * card (B - set tried) + 10"
| "pc_rank B (CLedger _ tried _ _ _ _) = 7 * card (B - set tried) + 9"
| "pc_rank B (CRelease _ tried _ _ _) = 7 * card (B - set tried) + 8"
| "pc_rank B (CCalled _ tried _ _) = 7 * card (B - set tried) + 7"
| "pc_rank B (CHit _ _) = 4"
| "pc_rank B (CPut _ _ _) = 4"
| "pc_rank B (CRespond _ _ _) = 3"
| "pc_rank B (CFinish _ _) = 2"
| "pc_rank B (CUnwind _ _) = 1"
| "pc_rank B (CDone _) = 0"
| "pc_rank B (CAborted _) = 0"

lemma select_step_cases:
  obtains (unwind) "fst (select_step deps q ev wk tried g) = CUnwind (ck_cacheResult wk) (hq_writer q)"
  | (error) rs where "fst (select_step deps q ev wk tried g) = CRespond (ck_record wk) (ck_cacheResult wk) rs"
  | (call) sel h s br where
      "Select (dp_intn deps) (cv_policies ev) (cv_backends ev) (cv_clk ev) (cr_Model (cj_req (ck_job wk))) tried (gw_sel g) (gw_br g)
         = Some (Inr (sel, h), s, br)"
      "fst (select_step deps q ev wk tried g) = CCall wk (tried @ [mb_ID (sel_Backend sel)]) sel h"
proof (cases "Select (dp_intn deps) (cv_policies ev) (cv_backends ev) (cv_clk ev) (cr_Model (cj_req (ck_job wk))) tried (gw_sel g) (gw_br g)")
  case None
  then show ?thesis using unwind by (simp add: select_step_def)
next
  case (Some r)
  obtain res s br where r: "r = (res, s, br)" by (cases r)
  show ?thesis
  proof (cases res)
    case (Inl err)
    then show ?thesis using Some r error by (simp add: select_step_def)
  next
    case (Inr sh)
    then show ?thesis using Some r call by (cases sh) (simp add: select_step_def)
  qed
qed

lemma select_step_rank:
  assumes "intn_ok (dp_intn deps)" and "finite B" and "lists_from B ev"
  shows "pc_rank B (fst (select_step deps q ev wk tried g)) < pc_rank B (CSelect wk tried)"
proof (cases rule: select_step_cases [of deps q ev wk tried g])
  case (call sel h s br)
  let ?b = "mb_ID (sel_Backend sel)"
  have "?b \<in> B" using Select_Inr_member [OF assms(1) call(1)] assms(3) by (auto simp: lists_from_def)
  moreover have "?b \<notin> set tried" using Select_Inr_handles [OF call(1)] by simp
  ultimately have "card (B - set (tried @ [?b])) < card (B - set tried)"
    using assms(2) by (intro psubset_card_mono) auto
  then show ?thesis using call(2) by simp
qed simp_all

lemma chat_step_rank:
  assumes "intn_ok (dp_intn deps)" and "finite B" and "lists_from B ev" and "\<not> ended pc"
  shows "pc_rank B (fst (chat_step deps q ev pc g)) < pc_rank B pc"
proof -
  have "pc_rank B (start_step deps q) < pc_rank B CStart"
    by (simp add: start_step_def fail_early_def Let_def split: option.splits sum.splits)
  then show ?thesis using select_step_rank [OF assms(1-3)] assms(4)
    by (cases pc) (simp_all add: check_step_def allow_step_def begin_step_def after_decision_def lookup_step_def hit_step_def
      report_step_def ledger_row_step_def called_step_def put_step_def respondChat_def fail_early_def Let_def
      split: option.splits prod.splits sum.splits do_result.splits bool.splits applied.splits)
qed

lemma chat_path_ends:
  assumes "intn_ok (dp_intn deps)" and "finite B" and "\<forall>(ev, g) \<in> set ws. lists_from B ev" and "pc_rank B pc \<le> length ws"
  shows "ended (snd (chat_path deps q pc ws))"
  using assms(3,4)
proof (induction ws arbitrary: pc)
  case Nil
  then show ?case by (cases pc) simp_all
next
  case (Cons w ws)
  obtain ev g where w: "w = (ev, g)" by (cases w)
  show ?case
  proof (cases "ended pc")
    case True
    then show ?thesis by (simp add: ended_path)
  next
    case False
    then show ?thesis using Cons chat_step_rank [OF assms(1,2) _ False, of ev q g] w by auto
  qed
qed

text \<open>The backends called, in order.\<close>

fun called_ids :: "(chat_pc \<times> ('e, 'x) chat_env \<times> ('s, 'c, 'l, 'r) gateway) list \<Rightarrow> uuid list" where
  "called_ids [] = []"
| "called_ids ((CCall _ _ sel _, ev, g) # steps) = mb_ID (sel_Backend sel) # called_ids steps"
| "called_ids (_ # steps) = called_ids steps"

text \<open>The backends a point has called before, and that a point at its call has just added its backend.\<close>

fun pc_past :: "chat_pc \<Rightarrow> uuid list" where
  "pc_past (CSelect _ tried) = tried"
| "pc_past (CCall _ tried _ _) = butlast tried"
| "pc_past (CReport _ tried _ _ _) = tried"
| "pc_past (CLedger _ tried _ _ _ _) = tried"
| "pc_past (CRelease _ tried _ _ _) = tried"
| "pc_past (CCalled _ tried _ _) = tried"
| "pc_past _ = []"

fun call_fresh :: "chat_pc \<Rightarrow> bool" where
  "call_fresh (CCall _ tried sel _) \<longleftrightarrow> (\<exists>past. tried = past @ [mb_ID (sel_Backend sel)] \<and> mb_ID (sel_Backend sel) \<notin> set past)"
| "call_fresh _ = True"

fun past_calls :: "chat_pc \<Rightarrow> bool" where
  "past_calls (CHit _ _) = True"
| "past_calls (CPut _ _ _) = True"
| "past_calls (CRespond _ _ _) = True"
| "past_calls (CFinish _ _) = True"
| "past_calls (CUnwind _ _) = True"
| "past_calls (CDone _) = True"
| "past_calls (CAborted _) = True"
| "past_calls _ = False"

lemma past_calls_path: "past_calls pc \<Longrightarrow> called_ids (fst (chat_path deps q pc ws)) = []"
proof (induction ws arbitrary: pc)
  case (Cons w ws)
  then show ?case by (cases w; cases pc) (simp_all add: hit_step_def put_step_def respondChat_def)
qed simp

lemma call_step_past:
  assumes "call_fresh pc"
  shows "call_fresh (fst (chat_step deps q ev pc g))
    \<and> (past_calls (fst (chat_step deps q ev pc g))
       \<or> pc_past (fst (chat_step deps q ev pc g)) = pc_past pc @ called_ids [(pc, ev, g)])"
proof -
  have s: "call_fresh (start_step deps q) \<and> pc_past (start_step deps q) = []"
    by (simp add: start_step_def fail_early_def Let_def split: option.splits sum.splits)
  have sel: "call_fresh (fst (select_step deps q ev wk tried g))
      \<and> (past_calls (fst (select_step deps q ev wk tried g)) \<or> pc_past (fst (select_step deps q ev wk tried g)) = tried)" for wk tried
    by (cases rule: select_step_cases [of deps q ev wk tried g]) (auto simp: butlast_append dest!: Select_Inr_handles)
  have early: "call_fresh (fst (check_step deps q ev job g)) \<and> (past_calls (fst (check_step deps q ev job g)) \<or> pc_past (fst (check_step deps q ev job g)) = [])"
    "call_fresh (fst (allow_step deps q ev job g)) \<and> (past_calls (fst (allow_step deps q ev job g)) \<or> pc_past (fst (allow_step deps q ev job g)) = [])"
    "call_fresh (fst (begin_step deps q ev job g)) \<and> (past_calls (fst (begin_step deps q ev job g)) \<or> pc_past (fst (begin_step deps q ev job g)) = [])"
    "call_fresh (fst (lookup_step deps q ev job rec g)) \<and> (past_calls (fst (lookup_step deps q ev job rec g)) \<or> pc_past (fst (lookup_step deps q ev job rec g)) = [])"
    for job rec
    by (simp_all add: check_step_def allow_step_def begin_step_def after_decision_def lookup_step_def fail_early_def Let_def
      split: option.splits prod.splits sum.splits bool.splits applied.splits)
  show ?thesis
  proof (cases pc)
    case (CSelect wk tried)
    then show ?thesis using sel by simp
  next
    case (CCall wk tried sel h)
    then show ?thesis using assms by (auto simp: butlast_append)
  qed (use s early in \<open>simp_all add: hit_step_def report_step_def ledger_row_step_def called_step_def put_step_def respondChat_def Let_def
      split: option.splits prod.splits do_result.splits\<close>)
qed

lemma called_ids_Cons: "called_ids ((pc, ev, g) # steps) = called_ids [(pc, ev, g)] @ called_ids steps"
  by (cases pc) auto

lemma called_distinct:
  "call_fresh pc \<Longrightarrow> distinct (pc_past pc) \<Longrightarrow> distinct (pc_past pc @ called_ids (fst (chat_path deps q pc ws)))"
proof (induction ws arbitrary: pc)
  case (Cons w ws)
  obtain ev g where w: "w = (ev, g)" by (cases w)
  let ?pc = "fst (chat_step deps q ev pc g)"
  have d: "distinct (pc_past pc @ called_ids [(pc, ev, g)])" using Cons.prems by (cases pc) auto
  have c: "called_ids (fst (chat_path deps q pc (w # ws))) = called_ids [(pc, ev, g)] @ called_ids (fst (chat_path deps q ?pc ws))"
    by (simp only: w chat_path_Cons called_ids_Cons [of pc ev g "fst (chat_path deps q ?pc ws)"])
  from call_step_past [OF Cons.prems(1), of deps q ev g] show ?case
  proof (elim conjE disjE)
    assume "past_calls ?pc"
    then show ?thesis using d unfolding c by (simp add: past_calls_path)
  next
    assume "call_fresh ?pc" and "pc_past ?pc = pc_past pc @ called_ids [(pc, ev, g)]"
    then show ?thesis using Cons.IH [of ?pc] d unfolding c by (simp add: append.assoc)
  qed
qed simp

text \<open>C23: Failover ends and tries every backend at most once. While the store lists backends with ids from a finite
  set, a request has returned (or been aborted by a panic) after at most seven steps per backend and ten more,
  whatever the other requests do, and the backends it called are pairwise different.\<close>

theorem chat_terminates_without_retrying_backends:
  assumes "intn_ok (dp_intn deps)" and "finite B" and "\<forall>(ev, g) \<in> set ws. lists_from B ev"
    and "7 * card B + 10 \<le> length ws"
  shows "ended (snd (chat_path deps q CStart ws)) \<and> distinct (called_ids (fst (chat_path deps q CStart ws)))"
  using chat_path_ends [OF assms(1-3), of CStart q] called_distinct [of CStart deps q ws] assms(4) by simp

theorem chat_terminates_without_retrying_backends_witness:
  "ended (snd (chat_path sample_deps (sample_chat_http ''k'') CStart (replicate 24 (sample_chat_env sample_backends, sample_gw))))"
proof -
  have "\<forall>(ev, g) \<in> set (replicate 24 (sample_chat_env sample_backends, sample_gw)). lists_from {1, 2} ev"
    by (auto simp: lists_from_def sample_chat_env_def sample_backends_def sample_rows_def sample_backend_def)
  moreover have "intn_ok (dp_intn sample_deps)" using intn_ok_zero by (simp add: sample_deps_def)
  ultimately show ?thesis using chat_terminates_without_retrying_backends [of sample_deps "{1, 2}"] by simp
qed

end
