(* ===== verification/Chat_Cache.thy ===== *)
theory Chat_Cache
  imports Chat_System
begin

section \<open>Where cached completions come from\<close>

text \<open>
  The history of cache writes of an execution, and that a hit gives a request nothing but a completion that was
  stored for an equal request of the same tenant and API key.
\<close>

definition stored_entry :: "string \<Rightarrow> Entry" where
  "stored_entry body = \<lparr>en_StatusCode = 200, en_ContentType = json_content_type, en_Body = body\<rparr>"

text \<open>The completions put into the cache, by the requests of this gateway and by its peers.\<close>

fun event_puts :: "('s, 'c, 'l, 'r) chat_sys \<Rightarrow> ('e, 's, 'l, 'x) chat_event \<Rightarrow> (chat_work \<times> string) list" where
  "event_puts y (Sched i ev) =
     (if i < length (sy_reqs y) then (case snd (sy_reqs y ! i) of CPut wk _ body \<Rightarrow> [(wk, body)] | _ \<Rightarrow> []) else [])"
| "event_puts y (PeerPut _ wk body) = [(wk, body)]"
| "event_puts y _ = []"

fun chat_puts ::
  "('e, 's, 'c, 'l, 'r, 'x) Deps \<Rightarrow> ('s, 'c, 'l, 'r) chat_sys \<Rightarrow> ('e, 's, 'l, 'x) chat_event list \<Rightarrow> (chat_work \<times> string) list" where
  "chat_puts deps y [] = []"
| "chat_puts deps y (e # es) = event_puts y e @ chat_puts deps (chat_sys_step deps y e) es"

text \<open>A work whose key was computed from its own request, as \<open>lookup_step\<close> does.\<close>

definition keyed_work :: "('e, 's, 'c, 'l, 'r, 'x) Deps \<Rightarrow> chat_work \<Rightarrow> bool" where
  "keyed_work deps wk \<longleftrightarrow>
     (\<exists>canonical. CanonicalBody (dp_lib deps) (cacheRequest (cj_req (ck_job wk))) = Some canonical
        \<and> ck_cacheKey wk = Key (dp_lib deps) (cache_scope deps (cj_principal (ck_job wk))) canonical)"

fun pc_keyed :: "('e, 's, 'c, 'l, 'r, 'x) Deps \<Rightarrow> chat_pc \<Rightarrow> bool" where
  "pc_keyed deps (CHit wk _) \<longleftrightarrow> keyed_work deps wk"
| "pc_keyed deps (CSelect wk _) \<longleftrightarrow> (ck_eligible wk \<longrightarrow> keyed_work deps wk)"
| "pc_keyed deps (CCall wk _ _ _) \<longleftrightarrow> (ck_eligible wk \<longrightarrow> keyed_work deps wk)"
| "pc_keyed deps (CReport wk _ _ _ _) \<longleftrightarrow> (ck_eligible wk \<longrightarrow> keyed_work deps wk)"
| "pc_keyed deps (CLedger wk _ _ _ _ _) \<longleftrightarrow> (ck_eligible wk \<longrightarrow> keyed_work deps wk)"
| "pc_keyed deps (CRelease wk _ _ _ _) \<longleftrightarrow> (ck_eligible wk \<longrightarrow> keyed_work deps wk)"
| "pc_keyed deps (CCalled wk _ _ _) \<longleftrightarrow> (ck_eligible wk \<longrightarrow> keyed_work deps wk)"
| "pc_keyed deps (CPut wk _ _) \<longleftrightarrow> keyed_work deps wk"
| "pc_keyed deps _ \<longleftrightarrow> True"

text \<open>An entry under a key comes from a put, and a request at a hit got such an entry for its own key.\<close>

definition from_put :: "(chat_work \<times> string) list \<Rightarrow> string \<Rightarrow> Entry \<Rightarrow> bool" where
  "from_put ps key e \<longleftrightarrow> (\<exists>(wk, body) \<in> set ps. ck_cacheKey wk = key \<and> e = stored_entry body)"

definition pc_sound :: "('e, 's, 'c, 'l, 'r, 'x) Deps \<Rightarrow> (chat_work \<times> string) list \<Rightarrow> chat_pc \<Rightarrow> bool" where
  "pc_sound deps ps pc \<longleftrightarrow> pc_keyed deps pc \<and> (\<forall>wk e. pc = CHit wk e \<longrightarrow> from_put ps (ck_cacheKey wk) e)"

definition provenance ::
  "('e, 's, 'c, 'l, 'r, 'x) Deps \<Rightarrow> ('c \<Rightarrow> string \<Rightarrow> (string \<times> time) option) \<Rightarrow> (chat_work \<times> string) list \<Rightarrow> ('s, 'c, 'l, 'r) chat_sys \<Rightarrow> bool" where
  "provenance deps view ps y \<longleftrightarrow>
     (\<forall>k e. cached (dp_Cache deps) view (gw_cache (sy_gw y)) k e \<longrightarrow> from_put ps k e)
   \<and> (\<forall>r \<in> set (sy_reqs y). pc_sound deps ps (snd r))
   \<and> (\<forall>p \<in> set ps. keyed_work deps (fst p))"

definition cache_ok :: "'c Cache \<Rightarrow> ('c \<Rightarrow> string \<Rightarrow> (string \<times> time) option) \<Rightarrow> bool" where
  "cache_ok c view \<longleftrightarrow> strings_ok (ca_rdb c) view \<and> 0 < ca_ttl c \<and> entries_survive (ca_json c)"

fun peer_keyed :: "('e, 's, 'c, 'l, 'r, 'x) Deps \<Rightarrow> ('e, 's, 'l, 'x) chat_event \<Rightarrow> bool" where
  "peer_keyed deps (PeerPut _ wk _) \<longleftrightarrow> keyed_work deps wk"
| "peer_keyed deps _ \<longleftrightarrow> True"

lemma from_put_mono: "from_put ps k e \<Longrightarrow> from_put (ps @ ps') k e"
  by (auto simp: from_put_def)

lemma pc_sound_mono: "pc_sound deps ps pc \<Longrightarrow> pc_sound deps (ps @ ps') pc"
  by (auto simp: pc_sound_def from_put_mono)

lemma lookup_step_keyed:
  "pc_keyed deps (fst (lookup_step deps q ev job rec g))"
  by (auto simp: lookup_step_def Let_def keyed_work_def split: option.splits prod.splits sum.splits)

lemma lookup_step_hit:
  assumes "fst (lookup_step deps q ev job rec g) = CHit wk e"
  shows "\<exists>c. cache_Get (dp_Cache deps) (cv_now ev) (ck_cacheKey wk) (gw_cache g) = (Inr (Some e), c)"
  using assms by (auto simp: lookup_step_def Let_def split: option.splits prod.splits sum.splits if_splits)

lemma lookup_step_cache:
  assumes "strings_ok (ca_rdb (dp_Cache deps)) view"
  shows "view (gw_cache (snd (lookup_step deps q ev job rec g))) = view (gw_cache g)"
proof -
  have g: "cache_Get (dp_Cache deps) now key d = (r, c) \<Longrightarrow> view c = view d" for now key d r c
    using cache_Get_view [OF assms, of now key d] by simp
  show ?thesis by (auto simp: lookup_step_def Let_def count_event_def dest: g split: option.splits prod.splits sum.splits)
qed

lemma pc_keyed_step: "pc_keyed deps pc \<Longrightarrow> pc_keyed deps (fst (chat_step deps q ev pc g))"
proof (cases pc)
  case CStart
  then show ?thesis by (simp add: start_step_def fail_early_def Let_def split: option.splits sum.splits)
next
  case (CLookup job rec)
  then show ?thesis using lookup_step_keyed by simp
next
  case (CSelect wk tried)
  assume "pc_keyed deps pc"
  then show ?thesis using CSelect by (cases rule: select_step_cases [of deps q ev wk tried g]) simp_all
qed (simp_all add: check_step_def allow_step_def begin_step_def after_decision_def hit_step_def report_step_def ledger_row_step_def
    called_step_def put_step_def respondChat_def fail_early_def Let_def
    split: option.splits prod.splits sum.splits do_result.splits bool.splits applied.splits)

lemma hit_only_from_lookup:
  assumes "fst (chat_step deps q ev pc g) = CHit wk e"
  shows "\<exists>job rec. pc = CLookup job rec"
proof (cases pc)
  case CStart
  then show ?thesis using assms by (simp add: start_step_def fail_early_def Let_def split: option.splits sum.splits if_splits)
next
  case (CSelect wk tried)
  then show ?thesis using assms by (cases rule: select_step_cases [of deps q ev wk tried g]) simp_all
qed (use assms in \<open>simp_all add: check_step_def allow_step_def begin_step_def after_decision_def hit_step_def report_step_def ledger_row_step_def
    called_step_def put_step_def respondChat_def fail_early_def Let_def
    split: option.splits prod.splits sum.splits do_result.splits bool.splits applied.splits if_splits\<close>)

lemma cached_Get:
  assumes "strings_ok (ca_rdb c) view" and "view d' = view d"
  shows "cached c view d' k e = cached c view d k e"
  using assms by (simp add: cached_def)

lemma provenance_put:
  assumes "provenance deps view ps y" and "cache_ok (dp_Cache deps) view" and "keyed_work deps wk"
    and "g = (sy_gw y)\<lparr>gw_cache := snd (cache_Put (dp_Cache deps) now (ck_cacheKey wk) (stored_entry body) (gw_cache (sy_gw y)))\<rparr>"
    and "\<forall>r \<in> set rs. pc_sound deps (ps @ [(wk, body)]) (snd r)"
  shows "provenance deps view (ps @ [(wk, body)]) (y\<lparr>sy_reqs := rs, sy_gw := g\<rparr>)"
proof -
  have "from_put (ps @ [(wk, body)]) k e" if "cached (dp_Cache deps) view (gw_cache g) k e" for k e
  proof -
    from that have "cached (dp_Cache deps) view (gw_cache (sy_gw y)) k e \<or> (k = ck_cacheKey wk \<and> e = stored_entry body)"
      using cached_after_Put [of "dp_Cache deps" view now "ck_cacheKey wk" "stored_entry body" "gw_cache (sy_gw y)" k e] assms(2,4)
      by (auto simp: cache_ok_def)
    then show ?thesis using assms(1) by (auto simp: provenance_def from_put_def)
  qed
  then show ?thesis using assms(1,3,5) by (auto simp: provenance_def)
qed

lemma provenance_sched:
  assumes prov: "provenance deps view ps y" and ok: "cache_ok (dp_Cache deps) view"
    and i: "i < length (sy_reqs y)" and r: "sy_reqs y ! i = (q, pc)"
  shows "provenance deps view (ps @ event_puts y (Sched i ev)) (chat_sys_step deps y (Sched i ev))"
proof -
  let ?pc = "fst (chat_step deps q ev pc (sy_gw y))" and ?g = "snd (chat_step deps q ev pc (sy_gw y))"
  let ?ps = "event_puts y (Sched i ev)"
  have y': "chat_sys_step deps y (Sched i ev) = y\<lparr>sy_reqs := (sy_reqs y)[i := (q, ?pc)], sy_gw := ?g\<rparr>"
    using i r by (simp add: case_prod_unfold)
  have "(q, pc) \<in> set (sy_reqs y)" using i r nth_mem by metis
  then have s: "pc_sound deps ps pc" using prov by (auto simp: provenance_def)
  then have k: "pc_keyed deps ?pc" using pc_keyed_step by (auto simp: pc_sound_def)
  have so: "strings_ok (ca_rdb (dp_Cache deps)) view" using ok by (simp add: cache_ok_def)
  have h: "from_put ps (ck_cacheKey wk) e" if hit: "?pc = CHit wk e" for wk e
  proof -
    obtain job rec where pc: "pc = CLookup job rec" using hit_only_from_lookup [OF hit] by blast
    then have "cached (dp_Cache deps) view (gw_cache (sy_gw y)) (ck_cacheKey wk) e"
      using lookup_step_hit [of deps q ev job rec "sy_gw y" wk e] hit cache_Get_cached [OF so] by auto
    then show ?thesis using prov by (simp add: provenance_def)
  qed
  then have ss: "pc_sound deps (ps @ ?ps) ?pc" using k by (auto simp: pc_sound_def from_put_mono)
  have rs: "\<forall>r \<in> set ((sy_reqs y)[i := (q, ?pc)]). pc_sound deps (ps @ ?ps) (snd r)"
  proof
    fix r'
    assume "r' \<in> set ((sy_reqs y)[i := (q, ?pc)])"
    then have "r' = (q, ?pc) \<or> r' \<in> set (sy_reqs y)" using set_update_subset_insert by fastforce
    then show "pc_sound deps (ps @ ?ps) (snd r')" using ss prov pc_sound_mono by (fastforce simp: provenance_def)
  qed
  show ?thesis
  proof (cases "\<exists>wk sel body. pc = CPut wk sel body")
    case True
    then obtain wk sel body where pc: "pc = CPut wk sel body" by blast
    have "?g = (sy_gw y)\<lparr>gw_cache := snd (cache_Put (dp_Cache deps) (cv_now ev) (ck_cacheKey wk) (stored_entry body) (gw_cache (sy_gw y)))\<rparr>"
      using pc by (simp add: put_step_def stored_entry_def)
    moreover have "keyed_work deps wk" "?ps = [(wk, body)]" using s pc i r by (simp_all add: pc_sound_def)
    ultimately show ?thesis unfolding y' using provenance_put [OF prov ok] rs by simp
  next
    case False
    have "view (gw_cache ?g) = view (gw_cache (sy_gw y))"
    proof (cases "\<exists>job rec. pc = CLookup job rec")
      case True
      then show ?thesis using lookup_step_cache [OF so] by auto
    next
      case nl: False
      then have "\<not> moves_cache pc" using False by (cases pc) auto
      then show ?thesis using chat_step_cache by metis
    qed
    then have c: "cached (dp_Cache deps) view (gw_cache ?g) k e = cached (dp_Cache deps) view (gw_cache (sy_gw y)) k e" for k e
      by (rule cached_Get [OF so])
    have ps: "?ps = []" using False i r by (cases pc) auto
    show ?thesis unfolding y' provenance_def
    proof (intro conjI)
      show "\<forall>p \<in> set (ps @ ?ps). keyed_work deps (fst p)" using prov ps by (simp add: provenance_def)
    qed (use prov rs c ps in \<open>simp_all add: provenance_def\<close>)
  qed
qed

lemma provenance_step:
  assumes "provenance deps view ps y" and "cache_ok (dp_Cache deps) view" and "peer_keyed deps e"
  shows "provenance deps view (ps @ event_puts y e) (chat_sys_step deps y e)"
proof (cases e)
  case (Sched i ev)
  show ?thesis
  proof (cases "i < length (sy_reqs y)")
    case True
    then show ?thesis using provenance_sched [OF assms(1,2) True, of "fst (sy_reqs y ! i)" "snd (sy_reqs y ! i)" ev] Sched by simp
  qed (use Sched assms in simp)
next
  case (PeerPut now wk body)
  have "\<forall>r \<in> set (sy_reqs y). pc_sound deps (ps @ [(wk, body)]) (snd r)"
    using assms(1) pc_sound_mono by (fastforce simp: provenance_def)
  then have "provenance deps view (ps @ [(wk, body)]) (y\<lparr>sy_reqs := sy_reqs y, sy_gw := (sy_gw y)\<lparr>gw_cache :=
      snd (cache_Put (dp_Cache deps) now (ck_cacheKey wk) (stored_entry body) (gw_cache (sy_gw y)))\<rparr>\<rparr>)"
    using assms(3) PeerPut by (intro provenance_put [OF assms(1,2) _ refl]) simp_all
  then show ?thesis using PeerPut by (simp add: stored_entry_def)
qed (use assms(1) in \<open>auto simp: provenance_def pc_sound_def\<close>)

lemma provenance_run:
  assumes "cache_ok (dp_Cache deps) view"
  shows "provenance deps view ps y \<Longrightarrow> list_all (peer_keyed deps) es \<Longrightarrow>
    provenance deps view (ps @ chat_puts deps y es) (foldl (chat_sys_step deps) y es)"
proof (induction es arbitrary: ps y)
  case (Cons e es)
  then show ?case using provenance_step [OF Cons.prems(1) assms, of e] Cons.IH [of "ps @ event_puts y e"] by simp
qed simp

subsection \<open>A hit is an answer to the same request of the same caller\<close>

text \<open>The texts hashed, and the values printed, for the keys of some works.\<close>

definition key_texts :: "('e, 's, 'c, 'l, 'r, 'x) Deps \<Rightarrow> chat_work set \<Rightarrow> string set" where
  "key_texts deps W = {cache_scope deps (cj_principal (ck_job wk)) @ [CHR 0x00] @ canonical | wk canonical.
     wk \<in> W \<and> CanonicalBody (dp_lib deps) (cacheRequest (cj_req (ck_job wk))) = Some canonical}"

definition key_values :: "('e, 's, 'c, 'l, 'r, 'x) Deps \<Rightarrow> chat_work set \<Rightarrow> json set" where
  "key_values deps W = (\<lambda>wk. canonical_json (dp_lib deps) (cacheRequest (cj_req (ck_job wk)))) ` W"

text \<open>
  What separates the keys of the works \<open>W\<close>: the hash does not collide on their texts, the encoder prints different
  values differently, and printed UUIDs are 36 bytes without a NUL, one per UUID.
\<close>

definition keys_separate :: "('e, 's, 'c, 'l, 'r, 'x) Deps \<Rightarrow> chat_work set \<Rightarrow> bool" where
  "keys_separate deps W \<longleftrightarrow>
     inj_on (sha256_hex (dp_lib deps)) (key_texts deps W) \<and> inj_on (marshal (dp_lib deps)) (key_values deps W)
   \<and> inj (float_text (dp_lib deps)) \<and> uuid_String_ok (dp_uuid_String deps)
   \<and> (\<forall>u. CHR 0x00 \<notin> set (dp_uuid_String deps u))"

lemma cacheRequest_inj: "ChatRequest.truncate (cacheRequest a) = ChatRequest.truncate (cacheRequest b) \<Longrightarrow> a = b"
  by (cases a; cases b) (simp add: cacheRequest_def ChatRequest.extend_def ChatRequest.truncate_def)

lemma cache_scope_inj:
  assumes "uuid_String_ok (dp_uuid_String deps)" and "cache_scope deps p = cache_scope deps p'"
  shows "p = p'"
proof -
  have l: "length (dp_uuid_String deps u) = 36" for u using assms(1) by (simp add: uuid_String_ok_def)
  have "dp_uuid_String deps (pr_TenantID p) = dp_uuid_String deps (pr_TenantID p')"
    "dp_uuid_String deps (pr_APIKeyID p) = dp_uuid_String deps (pr_APIKeyID p')"
    using assms(2) l by (simp_all add: cache_scope_def)
  then have "pr_TenantID p = pr_TenantID p'" "pr_APIKeyID p = pr_APIKeyID p'"
    using assms(1) by (auto simp: uuid_String_ok_def dest: injD)
  then show ?thesis by (cases p; cases p') simp
qed

lemma same_key_same_work:
  assumes sep: "keys_separate deps W" and W: "wk \<in> W" "wk' \<in> W" and k: "keyed_work deps wk" "keyed_work deps wk'"
    and eq: "ck_cacheKey wk = ck_cacheKey wk'"
  shows "cj_principal (ck_job wk) = cj_principal (ck_job wk') \<and> cj_req (ck_job wk) = cj_req (ck_job wk')"
proof -
  let ?lib = "dp_lib deps"
  let ?r = "cacheRequest (cj_req (ck_job wk))" and ?r' = "cacheRequest (cj_req (ck_job wk'))"
  let ?s = "cache_scope deps (cj_principal (ck_job wk))" and ?s' = "cache_scope deps (cj_principal (ck_job wk'))"
  obtain c c' where c: "CanonicalBody ?lib ?r = Some c" "ck_cacheKey wk = Key ?lib ?s c"
    and c': "CanonicalBody ?lib ?r' = Some c'" "ck_cacheKey wk' = Key ?lib ?s' c'"
    using k by (auto simp: keyed_work_def)
  have "?s @ [CHR 0x00] @ c \<in> key_texts deps W" "?s' @ [CHR 0x00] @ c' \<in> key_texts deps W"
    unfolding key_texts_def using W c(1) c'(1) by blast+
  then have h: "sha256_hex ?lib (?s @ [CHR 0x00] @ c) = sha256_hex ?lib (?s' @ [CHR 0x00] @ c') \<longrightarrow>
      ?s @ [CHR 0x00] @ c = ?s' @ [CHR 0x00] @ c'"
    using sep unfolding keys_separate_def inj_on_def by blast
  have m: "marshal ?lib (canonical_json ?lib ?r) = marshal ?lib (canonical_json ?lib ?r') \<longrightarrow> canonical_json ?lib ?r = canonical_json ?lib ?r'"
    using sep W unfolding keys_separate_def inj_on_def key_values_def by blast
  have n: "CHR 0x00 \<notin> set ?s" "CHR 0x00 \<notin> set ?s'" using sep by (simp_all add: keys_separate_def cache_scope_def)
  have "?s = ?s' \<and> ChatRequest.truncate ?r = ChatRequest.truncate ?r'"
    using equal_keys_same_request [OF c(1) c'(1) _ h n m] eq c(2) c'(2) sep by (simp add: keys_separate_def)
  then show ?thesis using cacheRequest_inj cache_scope_inj [of deps] sep by (auto simp: keys_separate_def)
qed

text \<open>C6: A cache hit never crosses callers or requests. Requests of many callers run at once, replicas put their own
  completions into the shared cache, entries expire and Redis may fail: whenever a request is about to answer from
  the cache, the entry is a completion that was stored with status 200 by a request of the same tenant and API key
  with the same model, messages, temperature, token limit and stop list, provided the hash does not collide on the
  keys in play.\<close>

theorem cache_hit_answers_same_caller_and_request:
  assumes "cache_ok (dp_Cache deps) view" and "\<forall>k. view (gw_cache g0) k = None" and "list_all (peer_keyed deps) es"
    and "(q, CHit wk e) \<in> set (sy_reqs (foldl (chat_sys_step deps) \<lparr>sy_reqs = [], sy_gw = g0\<rparr> es))"
    and "keys_separate deps (insert wk (fst ` set (chat_puts deps \<lparr>sy_reqs = [], sy_gw = g0\<rparr> es)))"
  shows "\<exists>(wk', body) \<in> set (chat_puts deps \<lparr>sy_reqs = [], sy_gw = g0\<rparr> es). e = stored_entry body
     \<and> cj_principal (ck_job wk') = cj_principal (ck_job wk) \<and> cj_req (ck_job wk') = cj_req (ck_job wk)"
proof -
  let ?y = "\<lparr>sy_reqs = [], sy_gw = g0\<rparr>"
  let ?ps = "chat_puts deps ?y es"
  have "provenance deps view [] ?y" using assms(2) by (simp add: provenance_def cached_def)
  from provenance_run [OF assms(1) this assms(3)] have prov: "provenance deps view ?ps (foldl (chat_sys_step deps) ?y es)" by simp
  then have "pc_sound deps ?ps (CHit wk e)" using assms(4) by (auto simp: provenance_def)
  then obtain wk' body where p: "(wk', body) \<in> set ?ps" "ck_cacheKey wk' = ck_cacheKey wk" "e = stored_entry body"
    and k: "keyed_work deps wk" by (auto simp: pc_sound_def from_put_def)
  have k': "keyed_work deps wk'" using prov p(1) by (auto simp: provenance_def)
  have "wk' \<in> insert wk (fst ` set ?ps)" "wk \<in> insert wk (fst ` set ?ps)" using p(1) by force+
  from same_key_same_work [OF assms(5) this k' k p(2)] p show ?thesis by blast
qed

text \<open>A cacheable request (temperature 0) that hits what a peer stored.\<close>

definition cold_body :: "(string \<times> json) list" where
  "cold_body = sample_body @ [(''temperature'', JNum ''0'')]"

definition cold_lib :: json_lib where
  "cold_lib = sample_key_lib\<lparr>decode_body := (\<lambda>_. BodyValue (JObj cold_body) False), parse_float := (\<lambda>_. Some 0)\<rparr>"

definition cold_deps ::
  "(idem_env, idem_table, string \<Rightarrow> (string \<times> time) option, string \<Rightarrow> counter, unit, unit) Deps" where
  "cold_deps = sample_deps\<lparr>dp_lib := cold_lib\<rparr>"

definition cold_job :: chat_job where
  "cold_job = (sample_chat_job [])\<lparr>cj_req := sample_request\<lparr>cr_Temperature := Some 0\<rparr>, cj_body := ''m''\<rparr>"

definition cold_work :: chat_work where
  "cold_work = \<lparr>ck_job = cold_job, ck_record = None, ck_eligible = True, ck_cacheResult = CacheResultMiss,
     ck_cacheKey = Key cold_lib (cache_scope cold_deps (cj_principal cold_job)) ''m''\<rparr>"

definition cold_events :: "(idem_env, idem_table, string \<Rightarrow> counter, unit) chat_event list" where
  "cold_events = PeerPut 5 cold_work ''{}'' # Arrive (sample_chat_http []) # replicate 3 (Sched 0 (sample_chat_env sample_backends))"

lemma cold_decodes: "decodeChatRequest cold_lib raw = Inr (sample_request\<lparr>cr_Temperature := Some 0\<rparr>)"
proof -
  have "validate_fields cold_lib cold_body = Inr (sample_request\<lparr>cr_Temperature := Some 0\<rparr>)" by code_simp
  then show ?thesis by (simp add: decodeChatRequest_def cold_lib_def cold_body_def sample_body_def)
qed

lemma cold_marshal:
  "marshal cold_lib j = (case json_member j ''model'' of Some (JStr m) \<Rightarrow> Some m | _ \<Rightarrow> None)"
  "sha256_hex cold_lib s = s" "float_text cold_lib = float_text sample_key_lib"
  by (simp_all add: cold_lib_def sample_key_lib_def sample_json_lib_def)

lemma cold_forward: "forwardBody cold_lib (sample_request\<lparr>cr_Temperature := Some 0\<rparr>) = Some ''m''"
  by (simp add: forwardBody_def forward_json_def cold_marshal sample_request_def)

lemma cold_canonical: "CanonicalBody cold_lib (cacheRequest (cj_req cold_job)) = Some ''m''"
  by (simp add: CanonicalBody_def cold_marshal canonical_members cold_job_def cacheRequest_def ChatRequest.extend_def sample_request_def)

lemma cold_start: "start_step cold_deps (sample_chat_http []) = CAllow cold_job"
  by (simp add: start_step_def cold_deps_def sample_deps_def sample_chat_http_def readChatBody_def maxChatBodyBytes_def
      cold_decodes cold_forward maxIdempotencyKeyLen_def sample_chat_job_def cold_job_def sha256Hex_def cold_marshal Let_def)

lemma cold_allow:
  "fst (allow_step cold_deps (sample_chat_http []) (sample_chat_env bs) cold_job (g\<lparr>gw_limiter := (\<lambda>_. None)\<rparr>)) = CLookup cold_job None"
  by (simp add: allow_step_def allowRate_def Allow_rate_def window_script_def sample_counters_def live_at_def cold_deps_def sample_deps_def
      cold_job_def sample_chat_job_def Milliseconds_def)

lemma cold_lookup:
  assumes "gw_cache g = (\<lambda>_. None)(ck_cacheKey cold_work := Some (''{entry}'', 105))"
  shows "fst (lookup_step cold_deps (sample_chat_http []) (sample_chat_env bs) cold_job None g) = CHit cold_work (stored_entry ''{}'')"
proof -
  have el: "Eligible (cacheRequest (cj_req cold_job))"
    by (simp add: Eligible_def cacheRequest_def ChatRequest.extend_def cold_job_def sample_request_def maxCacheableTemperature_def)
  have lib: "dp_lib cold_deps = cold_lib" "dp_Cache cold_deps = sample_cache" by (simp_all add: cold_deps_def sample_deps_def)
  have "cache_Get sample_cache 5 (ck_cacheKey cold_work) (gw_cache g) = (Inr (Some sample_entry), gw_cache g)"
    using assms by (simp add: cache_Get_def sample_cache_def sample_strings_def unexpired_def sample_entry_json_def)
  moreover have "stored_entry ''{}'' = sample_entry" by (simp add: stored_entry_def sample_entry_def json_content_type_def)
  ultimately show ?thesis using el by (simp add: lookup_step_def Let_def lib cold_canonical sample_chat_env_def cold_work_def)
qed

lemma cold_keyed: "keyed_work cold_deps cold_work"
  unfolding keyed_work_def by (rule exI [of _ "''m''"]) (simp add: cold_work_def cold_canonical cold_deps_def)

lemma cold_run:
  "(sample_chat_http [], CHit cold_work (stored_entry ''{}'')) \<in>
     set (sy_reqs (foldl (chat_sys_step cold_deps) \<lparr>sy_reqs = [], sy_gw = sample_gw\<rparr> cold_events))"
  "chat_puts cold_deps \<lparr>sy_reqs = [], sy_gw = sample_gw\<rparr> cold_events = [(cold_work, ''{}'')]"
proof -
  let ?g = "sample_gw\<lparr>gw_cache := (\<lambda>_. None)(ck_cacheKey cold_work := Some (''{entry}'', 105))\<rparr>"
  let ?q = "sample_chat_http []" and ?ev = "sample_chat_env sample_backends"
  have put: "snd (cache_Put (dp_Cache cold_deps) 5 (ck_cacheKey cold_work)
      \<lparr>en_StatusCode = 200, en_ContentType = json_content_type, en_Body = ''{}''\<rparr> (gw_cache sample_gw)) = gw_cache ?g"
    by (simp add: cache_Put_def cold_deps_def sample_deps_def sample_cache_def sample_entry_json_def sample_entry_def json_content_type_def
        sample_strings_def sample_gw_def)
  have g: "?g = ?g\<lparr>gw_limiter := (\<lambda>_. None)\<rparr>" by (simp add: sample_gw_def)
  obtain g2 where a: "allow_step cold_deps ?q ?ev cold_job ?g = (CLookup cold_job None, g2)"
    using cold_allow [of sample_backends ?g] g by (metis prod.collapse)
  have "gw_cache g2 = gw_cache ?g" using allow_step_frame(2) [of cold_deps ?q ?ev cold_job ?g] a by simp
  then obtain g3 where l: "lookup_step cold_deps ?q ?ev cold_job None g2 = (CHit cold_work (stored_entry ''{}''), g3)"
    using cold_lookup [of g2 sample_backends] by (metis prod.collapse gateway.select_convs(2) gateway.surjective gateway.update_convs(2))
  show "(?q, CHit cold_work (stored_entry ''{}'')) \<in>
     set (sy_reqs (foldl (chat_sys_step cold_deps) \<lparr>sy_reqs = [], sy_gw = sample_gw\<rparr> cold_events))"
    using put a l by (simp add: cold_events_def numeral_eq_Suc cold_start)
  show "chat_puts cold_deps \<lparr>sy_reqs = [], sy_gw = sample_gw\<rparr> cold_events = [(cold_work, ''{}'')]"
    using put a l by (simp add: cold_events_def numeral_eq_Suc cold_start)
qed

lemma cold_separate: "keys_separate cold_deps {cold_work}"
proof -
  have "key_texts cold_deps {cold_work} \<subseteq> {cache_scope cold_deps (cj_principal cold_job) @ [CHR 0x00] @ ''m''}"
    by (auto simp: key_texts_def cold_work_def cold_canonical cold_deps_def)
  then have "inj_on f (key_texts cold_deps {cold_work})" for f :: "string \<Rightarrow> string" by (rule inj_on_subset [rotated]) simp
  moreover have "CHR 0x00 \<notin> set (sample_uuid_String u)" for u using sample_uuid_String_letters [of "CHR 0x00" u] by auto
  moreover have "inj_on f (key_values cold_deps {cold_work})" for f :: "json \<Rightarrow> string option" by (simp add: key_values_def)
  ultimately show ?thesis using sample_float_text_inj sample_uuid_String_ok
    by (simp add: keys_separate_def cold_deps_def sample_deps_def cold_marshal(3))
qed

theorem cache_hit_answers_same_caller_and_request_witness:
  "\<exists>(wk', body) \<in> set (chat_puts cold_deps \<lparr>sy_reqs = [], sy_gw = sample_gw\<rparr> cold_events). stored_entry ''{}'' = stored_entry body
     \<and> cj_principal (ck_job wk') = cj_principal (ck_job cold_work) \<and> cj_req (ck_job wk') = cj_req (ck_job cold_work)"
proof (rule cache_hit_answers_same_caller_and_request [of _ "\<lambda>d. d"])
  show "cache_ok (dp_Cache cold_deps) (\<lambda>d. d)" using sample_cache_ok by (simp add: cache_ok_def cold_deps_def sample_deps_def)
  show "\<forall>k. gw_cache sample_gw k = None" by (simp add: sample_gw_def)
  show "list_all (peer_keyed cold_deps) cold_events" by (simp add: cold_events_def cold_keyed numeral_eq_Suc)
  show "keys_separate cold_deps (insert cold_work (fst ` set (chat_puts cold_deps \<lparr>sy_reqs = [], sy_gw = sample_gw\<rparr> cold_events)))"
    unfolding cold_run(2) using cold_separate by simp
qed (rule cold_run(1))

end
