(* ===== verification/Batch_Request.thy ===== *)
theory Batch_Request
  imports Chat_Request
begin

section \<open>Batch create requests (internal/api/batch.go: reading and decoding)\<close>

text \<open>
  From the body of a batch create request to the model and the items that are stored. A
  \<open>json.RawMessage\<close> is the value it holds. \<open>whole\<close> is \<open>json.Unmarshal\<close>'s reading of a complete text
  (\<open>None\<close> for a syntax error), a parameter like the rest of \<open>json_lib\<close>.
\<close>

definition maxBatchBodyBytes :: nat where "maxBatchBodyBytes = push_bit 20 10"
definition maxBatchRequests :: nat where "maxBatchRequests = 100"

definition allowedBatchFields :: "string list" where "allowedBatchFields = [''requests'']"
definition allowedBatchItemFields :: "string list" where "allowedBatchItemFields = [''custom_id'', ''body'']"

record batchItemInput =
  bi_customID :: string
  bi_body :: string

definition readBatchBody :: "string \<Rightarrow> bool \<Rightarrow> chatError + string" where
  "readBatchBody body readErr =
     (if length body > maxBatchBodyBytes
      then Inl \<lparr>ce_status = 413, ce_code = CodeBadRequest, ce_message = ''request body must not exceed 10 MiB''\<rparr>
      else if readErr then Inl (badRequest ''could not read request body'')
      else Inr body)"

text \<open>\<open>decodeChatRequest\<close> on a \<open>RawMessage\<close>: a complete value, so nothing follows it.\<close>

definition decode_raw :: "json_lib \<Rightarrow> json \<Rightarrow> chatError + ChatRequest" where
  "decode_raw lib v =
     (case read_object v of
        None \<Rightarrow> Inl (badRequest ''request body must be a JSON object'')
      | Some ms \<Rightarrow> validate_fields lib ms)"

lemma decode_raw_agrees: "decode_body lib raw = BodyValue v False \<Longrightarrow> decodeChatRequest lib raw = decode_raw lib v"
  by (simp add: decodeChatRequest_def decode_raw_def split: option.splits)

text \<open>The loop's body for entry \<open>i\<close>: the model so far, the ids seen so far, and the item it appends.\<close>

definition batch_entry ::
  "json_lib \<Rightarrow> nat \<Rightarrow> (string \<times> json) list \<Rightarrow> string \<Rightarrow> string list \<Rightarrow> chatError + string \<times> batchItemInput" where
  "batch_entry lib i entry model seen =
     (case find (\<lambda>k. k \<notin> set allowedBatchItemFields) (map_range lib (remdups (map fst entry))) of
        Some key \<Rightarrow> Inl (badRequest (''unsupported field '' @ jl_quote lib key @ '' in '' @ at_index ''requests'' i))
      | None \<Rightarrow>
     case (case field entry ''custom_id'' of None \<Rightarrow> Inr [] | Some v \<Rightarrow> store_string [] v) of
        Inl _ \<Rightarrow> Inl (badRequest (''invalid type for '' @ at_index ''requests'' i @ ''.custom_id''))
      | Inr customID \<Rightarrow>
     if TrimSpace customID = [] then Inl (badRequest (at_index ''requests'' i @ ''.custom_id is required''))
     else if customID \<in> set seen
     then Inl (badRequest (at_index ''requests'' i @ ''.custom_id '' @ jl_quote lib customID @ '' is not unique within the batch''))
     else case field entry ''body'' of
        None \<Rightarrow> Inl (badRequest (at_index ''requests'' i @ ''.body is required''))
      | Some JNull \<Rightarrow> Inl (badRequest (at_index ''requests'' i @ ''.body is required''))
      | Some body \<Rightarrow>
     case decode_raw lib body of
        Inl cerr \<Rightarrow> Inl (cerr\<lparr>ce_message := at_index ''requests'' i @ ''.body: '' @ ce_message cerr\<rparr>)
      | Inr chatReq \<Rightarrow>
     if model \<noteq> [] \<and> cr_Model chatReq \<noteq> model
     then Inl (badRequest (at_index ''requests'' i @ ''.body.model '' @ jl_quote lib (cr_Model chatReq) @ '' differs from ''
                 @ jl_quote lib model @ ''; all items in a batch must use the same model''))
     else case forwardBody lib chatReq of
        None \<Rightarrow> Inl \<lparr>ce_status = 500, ce_code = CodeInternal, ce_message = ''could not encode item request''\<rparr>
      | Some canonical \<Rightarrow>
          Inr (if model = [] then cr_Model chatReq else model, \<lparr>bi_customID = customID, bi_body = canonical\<rparr>))"

fun batch_entries ::
  "json_lib \<Rightarrow> nat \<Rightarrow> (string \<times> json) list list \<Rightarrow> string \<Rightarrow> string list \<Rightarrow> batchItemInput list
     \<Rightarrow> chatError + string \<times> batchItemInput list" where
  "batch_entries lib i [] model seen items = Inr (model, items)"
| "batch_entries lib i (entry # entries) model seen items =
     (case batch_entry lib i entry model seen of
        Inl cerr \<Rightarrow> Inl cerr
      | Inr (model', it) \<Rightarrow> batch_entries lib (Suc i) entries model' (bi_customID it # seen) (items @ [it]))"

definition decodeBatchCreate ::
  "json_lib \<Rightarrow> (string \<Rightarrow> json option) \<Rightarrow> string \<Rightarrow> chatError + string \<times> batchItemInput list" where
  "decodeBatchCreate lib whole raw =
     (case whole raw of
        None \<Rightarrow> Inl (badRequest ''request body is not valid JSON'')
      | Some v \<Rightarrow>
     case read_object v of
        None \<Rightarrow> Inl (badRequest ''request body must be a JSON object'')
      | Some ms \<Rightarrow>
     case find (\<lambda>k. k \<notin> set allowedBatchFields) (map_range lib (remdups (map fst ms))) of
        Some key \<Rightarrow> Inl (badRequest (''unsupported field '' @ jl_quote lib key))
      | None \<Rightarrow>
     case field ms ''requests'' of
        None \<Rightarrow> Inl (badRequest ''requests is required'')
      | Some JNull \<Rightarrow> Inl (badRequest ''requests is required'')
      | Some rawRequests \<Rightarrow>
     case read_objects rawRequests of
        None \<Rightarrow> Inl (badRequest ''invalid type for field \"requests\"'')
      | Some entries \<Rightarrow>
     if entries = [] then Inl (badRequest ''requests must contain at least 1 item'')
     else if length entries > maxBatchRequests
     then Inl (badRequest (''requests must not contain more than '' @ nat_decimal maxBatchRequests @ '' items''))
     else batch_entries lib 0 entries [] [] [])"

subsection \<open>Accepted batches\<close>

text \<open>The item and the request an entry stands for, without reference to the other entries.\<close>

definition entry_gives :: "json_lib \<Rightarrow> (string \<times> json) list \<Rightarrow> batchItemInput \<times> ChatRequest \<Rightarrow> bool" where
  "entry_gives lib entry p \<longleftrightarrow> (case p of (it, req) \<Rightarrow>
     set (map fst entry) \<subseteq> set allowedBatchItemFields
     \<and> field entry ''custom_id'' = Some (JStr (bi_customID it)) \<and> TrimSpace (bi_customID it) \<noteq> []
     \<and> (\<exists>body. field entry ''body'' = Some body \<and> body \<noteq> JNull \<and> decode_raw lib body = Inr req)
     \<and> forwardBody lib req = Some (bi_body it))"

lemma decode_raw_valid: "decode_raw lib v = Inr req \<Longrightarrow> valid_request req"
  using validate_fields_Inr [of lib _ req] parseMessages_valid parseStop_valid
  by (fastforce simp: decode_raw_def valid_request_def split: option.splits)

lemma entry_gives_valid: "entry_gives lib entry (it, req) \<Longrightarrow> valid_request req \<and> cr_Model req \<noteq> []"
  using decode_raw_valid by (fastforce simp: entry_gives_def valid_request_def)

lemma entries_give_valid: "list_all2 (entry_gives lib) es ps \<Longrightarrow> \<forall>p \<in> set ps. valid_request (snd p)"
  by (induction rule: list_all2_induct) (auto dest: entry_gives_valid)

lemma unknown_keys: "range_ok lib \<Longrightarrow> find (\<lambda>k. k \<notin> A) (map_range lib (remdups (map fst ms))) = None \<longleftrightarrow> set (map fst ms) \<subseteq> A"
  by (auto simp: range_ok_def find_None_iff)

lemma store_string_custom_id:
  "(case v of None \<Rightarrow> Inr [] | Some j \<Rightarrow> store_string [] j) = Inr c \<and> TrimSpace c \<noteq> [] \<longleftrightarrow> v = Some (JStr c) \<and> TrimSpace c \<noteq> []"
proof (cases v)
  case (Some j)
  then show ?thesis by (cases j) auto
qed auto

lemma batch_entry_Inr:
  assumes "range_ok lib"
  shows "batch_entry lib i entry model seen = Inr (model', it) \<longleftrightarrow>
    (\<exists>req. entry_gives lib entry (it, req) \<and> bi_customID it \<notin> set seen \<and> (model = [] \<or> cr_Model req = model) \<and> model' = cr_Model req)"
    (is "?L \<longleftrightarrow> ?R")
proof
  assume ?L
  then obtain c b req where
    "find (\<lambda>k. k \<notin> set allowedBatchItemFields) (map_range lib (remdups (map fst entry))) = None"
    "(case field entry ''custom_id'' of None \<Rightarrow> Inr [] | Some v \<Rightarrow> store_string [] v) = Inr c" "TrimSpace c \<noteq> []" "c \<notin> set seen"
    "field entry ''body'' = Some b" "b \<noteq> JNull" "decode_raw lib b = Inr req" "model = [] \<or> cr_Model req = model"
    "forwardBody lib req = Some (bi_body it)" "bi_customID it = c" "model' = cr_Model req"
    by (auto simp: batch_entry_def split: option.splits sum.splits if_splits json.splits)
  then show ?R using unknown_keys [OF assms] store_string_custom_id [of "field entry ''custom_id''" c] by (auto simp: entry_gives_def)
next
  assume ?R
  then obtain b req where *:
    "find (\<lambda>k. k \<notin> set allowedBatchItemFields) (map_range lib (remdups (map fst entry))) = None"
    "field entry ''custom_id'' = Some (JStr (bi_customID it))" "TrimSpace (bi_customID it) \<noteq> []" "bi_customID it \<notin> set seen"
    "field entry ''body'' = Some b" "b \<noteq> JNull" "decode_raw lib b = Inr req" "model = [] \<or> cr_Model req = model"
    "forwardBody lib req = Some (bi_body it)" "model' = cr_Model req"
    unfolding entry_gives_def prod.case unknown_keys [OF assms] by blast
  then show ?L by (cases b) (auto simp: batch_entry_def)
qed

lemma batch_entries_Inr:
  assumes "range_ok lib"
  shows "batch_entries lib i es model seen acc = Inr (model', items) \<longleftrightarrow>
    (\<exists>ps. items = acc @ map fst ps \<and> list_all2 (entry_gives lib) es ps
       \<and> distinct (map (bi_customID \<circ> fst) ps) \<and> set (map (bi_customID \<circ> fst) ps) \<inter> set seen = {}
       \<and> (\<forall>p \<in> set ps. cr_Model (snd p) = model') \<and> (if es = [] then model' = model else model = [] \<or> model' = model))"
proof (induction es arbitrary: i model seen acc)
  case (Cons e es)
  have "batch_entries lib i (e # es) model seen acc = Inr (model', items) \<longleftrightarrow>
    (\<exists>m it. batch_entry lib i e model seen = Inr (m, it)
       \<and> batch_entries lib (Suc i) es m (bi_customID it # seen) (acc @ [it]) = Inr (model', items))"
    by (auto split: sum.splits prod.splits)
  also have "\<dots> \<longleftrightarrow> (\<exists>it req ps. entry_gives lib e (it, req) \<and> bi_customID it \<notin> set seen \<and> (model = [] \<or> cr_Model req = model)
       \<and> items = acc @ it # map fst ps \<and> list_all2 (entry_gives lib) es ps \<and> distinct (map (bi_customID \<circ> fst) ps)
       \<and> set (map (bi_customID \<circ> fst) ps) \<inter> set (bi_customID it # seen) = {} \<and> (\<forall>p \<in> set ps. cr_Model (snd p) = model')
       \<and> model' = cr_Model req)"
    unfolding batch_entry_Inr [OF assms] Cons.IH
  proof (intro iffI; elim exE conjE)
    fix m it req ps
    assume "entry_gives lib e (it, req)" and "if es = [] then model' = m else m = [] \<or> model' = m" and "m = cr_Model req"
      and a: "bi_customID it \<notin> set seen" "model = [] \<or> cr_Model req = model" "items = (acc @ [it]) @ map fst ps"
        "list_all2 (entry_gives lib) es ps" "distinct (map (bi_customID \<circ> fst) ps)"
        "set (map (bi_customID \<circ> fst) ps) \<inter> set (bi_customID it # seen) = {}" "\<forall>p\<in>set ps. cr_Model (snd p) = model'"
    moreover from this have "model' = cr_Model req" using entry_gives_valid by (metis (no_types))
    ultimately show "\<exists>it req ps. entry_gives lib e (it, req) \<and> bi_customID it \<notin> set seen \<and> (model = [] \<or> cr_Model req = model)
       \<and> items = acc @ it # map fst ps \<and> list_all2 (entry_gives lib) es ps \<and> distinct (map (bi_customID \<circ> fst) ps)
       \<and> set (map (bi_customID \<circ> fst) ps) \<inter> set (bi_customID it # seen) = {} \<and> (\<forall>p \<in> set ps. cr_Model (snd p) = model')
       \<and> model' = cr_Model req" by auto
  qed auto
  also have "\<dots> \<longleftrightarrow> (\<exists>ps. items = acc @ map fst ps \<and> list_all2 (entry_gives lib) (e # es) ps
       \<and> distinct (map (bi_customID \<circ> fst) ps) \<and> set (map (bi_customID \<circ> fst) ps) \<inter> set seen = {}
       \<and> (\<forall>p \<in> set ps. cr_Model (snd p) = model') \<and> (model = [] \<or> model' = model))"
    unfolding list_all2_Cons1
  proof (intro iffI; elim exE conjE)
    fix it req ps
    assume "entry_gives lib e (it, req)" "bi_customID it \<notin> set seen" "model = [] \<or> cr_Model req = model"
       "items = acc @ it # map fst ps" "list_all2 (entry_gives lib) es ps" "distinct (map (bi_customID \<circ> fst) ps)"
       "set (map (bi_customID \<circ> fst) ps) \<inter> set (bi_customID it # seen) = {}" "\<forall>p \<in> set ps. cr_Model (snd p) = model'"
       "model' = cr_Model req"
    then show "\<exists>ps. items = acc @ map fst ps \<and> (\<exists>z zs. ps = z # zs \<and> entry_gives lib e z \<and> list_all2 (entry_gives lib) es zs)
       \<and> distinct (map (bi_customID \<circ> fst) ps) \<and> set (map (bi_customID \<circ> fst) ps) \<inter> set seen = {}
       \<and> (\<forall>p \<in> set ps. cr_Model (snd p) = model') \<and> (model = [] \<or> model' = model)"
      by (intro exI [of _ "(it, req) # ps"]) auto
  next
    fix ps z zs
    assume "items = acc @ map fst ps" "ps = z # zs" "entry_gives lib e z" "list_all2 (entry_gives lib) es zs"
      "distinct (map (bi_customID \<circ> fst) ps)" "set (map (bi_customID \<circ> fst) ps) \<inter> set seen = {}"
      "\<forall>p \<in> set ps. cr_Model (snd p) = model'" "model = [] \<or> model' = model"
    then show "\<exists>it req ps. entry_gives lib e (it, req) \<and> bi_customID it \<notin> set seen \<and> (model = [] \<or> cr_Model req = model)
       \<and> items = acc @ it # map fst ps \<and> list_all2 (entry_gives lib) es ps \<and> distinct (map (bi_customID \<circ> fst) ps)
       \<and> set (map (bi_customID \<circ> fst) ps) \<inter> set (bi_customID it # seen) = {} \<and> (\<forall>p \<in> set ps. cr_Model (snd p) = model')
       \<and> model' = cr_Model req"
      by (intro exI [of _ "fst z"] exI [of _ "snd z"] exI [of _ zs]) auto
  qed
  finally show ?case by (simp only: list.distinct if_False)
qed auto

text \<open>C29: The validation loop of a batch create accepts exactly the well-formed batches. \<open>decodeBatchCreate\<close> returns a
  model and items exactly when the body is an object whose only member is \<open>requests\<close>, an array of 1 to 100 entries,
  each entry stands on its own for an item (only the two known keys, a non-blank id, a body that is a valid chat
  request, whose canonical form is stored), no id occurs twice and every body names that model; and then every stored
  request is valid, the model is not blank and the items are in the order of the entries.\<close>

theorem batch_accepted_iff_well_formed:
  assumes "range_ok lib"
  shows "(decodeBatchCreate lib whole raw = Inr (model, items) \<longleftrightarrow>
    (\<exists>v ms xs es ps. whole raw = Some v \<and> read_object v = Some ms \<and> set (map fst ms) \<subseteq> set allowedBatchFields
       \<and> field ms ''requests'' = Some (JArr xs) \<and> those (map read_object xs) = Some es
       \<and> 1 \<le> length es \<and> length es \<le> maxBatchRequests
       \<and> list_all2 (entry_gives lib) es ps \<and> items = map fst ps
       \<and> distinct (map (bi_customID \<circ> fst) ps) \<and> (\<forall>p \<in> set ps. cr_Model (snd p) = model)))
    \<and> (\<forall>es ps. list_all2 (entry_gives lib) es ps \<longrightarrow> (\<forall>p \<in> set ps. valid_request (snd p)))"
proof -
  have e: "(if es = [] then model = [] else [] = [] \<or> model = []) \<longleftrightarrow> es \<noteq> [] \<or> model = []" for es :: "(string \<times> json) list list" by auto
  have "decodeBatchCreate lib whole raw = Inr (model, items) \<longleftrightarrow>
    (\<exists>v ms xs es. whole raw = Some v \<and> read_object v = Some ms \<and> set (map fst ms) \<subseteq> set allowedBatchFields
       \<and> field ms ''requests'' = Some (JArr xs) \<and> those (map read_object xs) = Some es \<and> es \<noteq> [] \<and> length es \<le> maxBatchRequests
       \<and> batch_entries lib 0 es [] [] [] = Inr (model, items))"
    unfolding unknown_keys [OF assms, symmetric]
    by (auto simp: decodeBatchCreate_def split: option.splits json.splits if_splits)
  also have "\<dots> \<longleftrightarrow> (\<exists>v ms xs es ps. whole raw = Some v \<and> read_object v = Some ms \<and> set (map fst ms) \<subseteq> set allowedBatchFields
       \<and> field ms ''requests'' = Some (JArr xs) \<and> those (map read_object xs) = Some es
       \<and> 1 \<le> length es \<and> length es \<le> maxBatchRequests
       \<and> list_all2 (entry_gives lib) es ps \<and> items = map fst ps
       \<and> distinct (map (bi_customID \<circ> fst) ps) \<and> (\<forall>p \<in> set ps. cr_Model (snd p) = model))"
    unfolding batch_entries_Inr [OF assms] e by (auto simp: Suc_le_eq)
  finally show ?thesis using entries_give_valid by blast
qed

definition sample_batch :: json where
  "sample_batch = JObj [(''requests'', JArr [JObj [(''custom_id'', JStr ''a''), (''body'', JObj sample_body)]])]"

lemma sample_batch_decodes:
  "decodeBatchCreate sample_json_lib (\<lambda>_. Some sample_batch) [] = Inr (''m'', [\<lparr>bi_customID = ''a'', bi_body = ''{}''\<rparr>])"
  by code_simp

theorem batch_accepted_iff_well_formed_witness:
  "\<exists>es ps. list_all2 (entry_gives sample_json_lib) es ps \<and> length es = 1 \<and> map fst ps = [\<lparr>bi_customID = ''a'', bi_body = ''{}''\<rparr>]"
proof -
  have "range_ok sample_json_lib" by (simp add: range_ok_def sample_json_lib_def)
  from iffD1 [OF conjunct1 [OF batch_accepted_iff_well_formed [OF this]] sample_batch_decodes]
  obtain es ps where *: "list_all2 (entry_gives sample_json_lib) es ps" "[\<lparr>bi_customID = ''a'', bi_body = ''{}''\<rparr>] = map fst ps"
    by (elim exE conjE) (rule that)
  have "length es = length (map fst ps)" using list_all2_lengthD [OF *(1)] by simp
  then have "length es = 1" unfolding *(2) [symmetric] by simp
  then show ?thesis using * by (intro exI [of _ es] exI [of _ ps]) simp
qed

end
