(* ===== verification/Config.thy ===== *)
theory Config
  imports Go_Strings
begin

section \<open>Configuration (internal/config/config.go)\<close>

text \<open>
  Loading the settings from environment variables and the validators of the three run modes.
  \<open>env v\<close> is \<open>os.Getenv(v)\<close> (empty when unset). An \<open>int\<close> setting is a 64-bit value; the retry
  budget is computed in \<open>time.Duration\<close>, which wraps around. Errors are accumulated in order.
  \<open>net/url\<close>'s scheme and host of a URL, and the printed form of a duration, are parameters.
\<close>

definition minKeyHashSecretBytes :: nat where "minKeyHashSecretBytes = 32"
definition ServerWriteTimeout :: duration where "ServerWriteTimeout = 30 * 10 ^ 9"
definition inferenceResponseMargin :: duration where "inferenceResponseMargin = 2 * 10 ^ 9"

record app_Config =
  AppEnv :: string
  AppPort :: int
  LogLevel :: string
  DatabaseURL :: string
  RedisAddr :: string
  RedisDB :: int
  AppKeyHashSecret :: string
  AdminToken :: string
  DevAPIKey :: string
  AutoMigrate :: bool
  AutoSeed :: bool
  RateLimitQPS :: int
  CacheTTLSeconds :: int
  IdempotencyTTLSeconds :: int
  BackendTimeoutMS :: int
  RetryMaxAttempts :: int
  RetryBaseMS :: int
  RetryMaxMS :: int
  CBFailureThreshold :: int
  CBCooldownMS :: int
  WorkerConcurrency :: int
  WorkerMetricsPort :: int
  WorkerMaxItemAttempts :: int
  StreamKey :: string
  StreamGroup :: string
  SeedBackendFastURL :: string
  SeedBackendCheapURL :: string

subsection \<open>strconv\<close>

definition is_digit :: "char \<Rightarrow> bool" where
  "is_digit c \<longleftrightarrow> 48 \<le> (of_char c :: nat) \<and> (of_char c :: nat) \<le> 57"

text \<open>\<open>strconv.Atoi\<close>: an optional sign, then decimal digits, within 64 bits.\<close>

definition Atoi :: "string \<Rightarrow> int option" where
  "Atoi s =
     (let (neg, ds) = (case s of c # cs \<Rightarrow> (if c = CHR ''-'' then (True, cs) else if c = CHR ''+'' then (False, cs) else (False, s))
                                | [] \<Rightarrow> (False, s));
          n = int (decimal_value ds);
          v = (if neg then - n else n)
      in if ds = [] \<or> \<not> list_all is_digit ds then None
         else if - (2 ^ 63) \<le> v \<and> v < 2 ^ 63 then Some v else None)"

definition ParseBool :: "string \<Rightarrow> bool option" where
  "ParseBool s =
     (if s \<in> set [''1'', ''t'', ''T'', ''TRUE'', ''true'', ''True''] then Some True
      else if s \<in> set [''0'', ''f'', ''F'', ''FALSE'', ''false'', ''False''] then Some False
      else None)"

subsection \<open>Load\<close>

definition getString :: "(string \<Rightarrow> string) \<Rightarrow> string \<Rightarrow> string \<Rightarrow> string" where
  "getString env key def = (if env key \<noteq> [] then env key else def)"

text \<open>The value, and the message appended to the errors (if any); \<open>qt\<close> is \<open>%q\<close>.\<close>

definition getInt :: "(string \<Rightarrow> string) \<Rightarrow> (string \<Rightarrow> string) \<Rightarrow> string \<Rightarrow> int \<Rightarrow> int \<times> string list" where
  "getInt qt env key def =
     (if env key = [] then (def, [])
      else case Atoi (env key) of
             None \<Rightarrow> (def, [key @ '': not an integer: '' @ qt (env key)])
           | Some n \<Rightarrow> (n, []))"

definition getBool :: "(string \<Rightarrow> string) \<Rightarrow> (string \<Rightarrow> string) \<Rightarrow> string \<Rightarrow> bool \<Rightarrow> bool \<times> string list" where
  "getBool qt env key def =
     (if env key = [] then (def, [])
      else case ParseBool (env key) of
             None \<Rightarrow> (def, [key @ '': not a boolean: '' @ qt (env key)])
           | Some b \<Rightarrow> (b, []))"

text \<open>\<open>strings.Join(errs, "; ")\<close>.\<close>

fun join_semi :: "string list \<Rightarrow> string" where
  "join_semi [] = []"
| "join_semi [e] = e"
| "join_semi (e # es) = e @ ''; '' @ join_semi es"

text \<open>The integer and boolean variables with their defaults, in the order \<open>Load\<close> reads them.\<close>

definition int_vars :: "(string \<times> int) list" where
  "int_vars = [(''APP_PORT'', 8080), (''REDIS_DB'', 0), (''RATE_LIMIT_QPS'', 20), (''CACHE_TTL_SECONDS'', 300),
     (''IDEMPOTENCY_TTL_SECONDS'', 86400), (''BACKEND_TIMEOUT_MS'', 5000), (''RETRY_MAX_ATTEMPTS'', 3),
     (''RETRY_BASE_MS'', 50), (''RETRY_MAX_MS'', 2000), (''CB_FAILURE_THRESHOLD'', 5), (''CB_COOLDOWN_MS'', 10000),
     (''WORKER_CONCURRENCY'', 8), (''WORKER_METRICS_PORT'', 9100), (''WORKER_MAX_ITEM_ATTEMPTS'', 3)]"

definition bool_vars :: "(string \<times> bool) list" where
  "bool_vars = [(''AEGISROUTE_AUTO_MIGRATE'', False), (''AEGISROUTE_AUTO_SEED'', False)]"

definition Load :: "(string \<Rightarrow> string) \<Rightarrow> (string \<Rightarrow> string) \<Rightarrow> string + app_Config" where
  "Load qt env =
     (let i = (\<lambda>key. getInt qt env key (the (map_of int_vars key)));
          b = (\<lambda>key. getBool qt env key (the (map_of bool_vars key)));
          cfg = \<lparr>AppEnv = getString env ''APP_ENV'' ''dev'', AppPort = fst (i ''APP_PORT''),
                 LogLevel = getString env ''LOG_LEVEL'' ''info'',
                 DatabaseURL = getString env ''DATABASE_URL'' '''',
                 RedisAddr = getString env ''REDIS_ADDR'' ''localhost:6379'', RedisDB = fst (i ''REDIS_DB''),
                 AppKeyHashSecret = getString env ''APP_KEY_HASH_SECRET'' '''',
                 AdminToken = getString env ''ADMIN_TOKEN'' '''', DevAPIKey = getString env ''DEV_API_KEY'' '''',
                 AutoMigrate = fst (b ''AEGISROUTE_AUTO_MIGRATE''), AutoSeed = fst (b ''AEGISROUTE_AUTO_SEED''),
                 RateLimitQPS = fst (i ''RATE_LIMIT_QPS''), CacheTTLSeconds = fst (i ''CACHE_TTL_SECONDS''),
                 IdempotencyTTLSeconds = fst (i ''IDEMPOTENCY_TTL_SECONDS''),
                 BackendTimeoutMS = fst (i ''BACKEND_TIMEOUT_MS''), RetryMaxAttempts = fst (i ''RETRY_MAX_ATTEMPTS''),
                 RetryBaseMS = fst (i ''RETRY_BASE_MS''), RetryMaxMS = fst (i ''RETRY_MAX_MS''),
                 CBFailureThreshold = fst (i ''CB_FAILURE_THRESHOLD''), CBCooldownMS = fst (i ''CB_COOLDOWN_MS''),
                 WorkerConcurrency = fst (i ''WORKER_CONCURRENCY''), WorkerMetricsPort = fst (i ''WORKER_METRICS_PORT''),
                 WorkerMaxItemAttempts = fst (i ''WORKER_MAX_ITEM_ATTEMPTS''),
                 StreamKey = getString env ''STREAM_KEY'' ''aegisroute:batch_jobs'',
                 StreamGroup = getString env ''STREAM_GROUP'' ''aegisroute-workers'',
                 SeedBackendFastURL = getString env ''SEED_BACKEND_FAST_URL'' '''',
                 SeedBackendCheapURL = getString env ''SEED_BACKEND_CHEAP_URL'' ''''\<rparr>;
          errs = concat (map (\<lambda>k. snd (i k)) [''APP_PORT'', ''REDIS_DB''])
               @ concat (map (\<lambda>k. snd (b k)) (map fst bool_vars))
               @ concat (map (\<lambda>k. snd (i k)) (drop 2 (map fst int_vars)))
      in if errs \<noteq> [] then Inl (''config: '' @ join_semi errs) else Inr cfg)"

subsection \<open>Checks\<close>

text \<open>Each check appends to the errors; here it is the list it appends.\<close>

definition requireNonEmpty :: "string \<Rightarrow> string \<Rightarrow> string list" where
  "requireNonEmpty name v = (if v = [] then [name @ '': required''] else [])"

definition checkKeyHashSecret :: "string \<Rightarrow> string list" where
  "checkKeyHashSecret v =
     (if v = [] then [''APP_KEY_HASH_SECRET: required'']
      else if length v < minKeyHashSecretBytes
      then [''APP_KEY_HASH_SECRET: must be at least '' @ nat_decimal minKeyHashSecretBytes @ '' bytes, got '' @ nat_decimal (length v)]
      else [])"

text \<open>\<open>parse_url\<close>: \<open>None\<close> when \<open>url.Parse\<close> fails, else the scheme and the host.\<close>

type_synonym parse_url = "string \<Rightarrow> (string \<times> string) option"

definition requireAbsoluteURL :: "parse_url \<Rightarrow> string \<Rightarrow> string \<Rightarrow> string list" where
  "requireAbsoluteURL parse name v =
     (if v = [] then [name @ '': required'']
      else case parse v of
             None \<Rightarrow> [name @ '': must be an absolute URL (scheme://host)'']
           | Some (sch, host) \<Rightarrow>
               (if sch = [] \<or> host = [] then [name @ '': must be an absolute URL (scheme://host)''] else []))"

definition requirePort :: "string \<Rightarrow> int \<Rightarrow> string list" where
  "requirePort name v =
     (if v < 1 \<or> v > 65535 then [name @ '': must be a valid TCP port (1-65535), got '' @ int_decimal v] else [])"

definition requirePositive :: "string \<Rightarrow> int \<Rightarrow> string list" where
  "requirePositive name v = (if v < 1 then [name @ '': must be > 0, got '' @ int_decimal v] else [])"

text \<open>
  \<open>strings.ToLower\<close>, as far as a comparison with ASCII words can see: besides the ASCII letters, the
  letters U+0130 and U+212A have an ASCII lower case; every other byte sequence stays non-ASCII.
\<close>

fun ToLower :: "string \<Rightarrow> string" where
  "ToLower [] = []"
| "ToLower (c # cs) =
     (if prefix [CHR 0xC4, CHR 0xB0] (c # cs) then CHR ''i'' # ToLower (drop 1 cs)
      else if prefix [CHR 0xE2, CHR 0x84, CHR 0xAA] (c # cs) then CHR ''k'' # ToLower (drop 2 cs)
      else ascii_lower c # ToLower cs)"

definition requireLogLevel :: "string \<Rightarrow> string list" where
  "requireLogLevel v =
     (if ToLower v \<in> set [''debug'', ''info'', ''warn'', ''error''] then []
      else [''LOG_LEVEL: must be one of debug, info, warn, error''])"

definition config_join :: "string list \<Rightarrow> string option" where
  "config_join errs = (if errs = [] then None else Some (''invalid config: '' @ join_semi errs))"

subsection \<open>The retry budget\<close>

definition InferenceBudget :: duration where
  "InferenceBudget = ServerWriteTimeout - inferenceResponseMargin"

text \<open>Each product and the sum are 64-bit.\<close>

definition worstCaseBackendCall :: "app_Config \<Rightarrow> duration" where
  "worstCaseBackendCall c =
     (let attempts = int64 (int64 (RetryMaxAttempts c * BackendTimeoutMS c) * 1000000);
          backoff = int64 (int64 (int64 (RetryMaxAttempts c - 1) * RetryMaxMS c) * 1000000)
      in int64 (attempts + backoff))"

subsection \<open>The validators\<close>

definition ValidateForMigrate :: "app_Config \<Rightarrow> string option" where
  "ValidateForMigrate c = config_join (requireNonEmpty ''DATABASE_URL'' (DatabaseURL c))"

definition ValidateForSeed :: "parse_url \<Rightarrow> app_Config \<Rightarrow> string option" where
  "ValidateForSeed parse c = config_join
     (requireNonEmpty ''DATABASE_URL'' (DatabaseURL c) @ checkKeyHashSecret (AppKeyHashSecret c)
      @ requireNonEmpty ''DEV_API_KEY'' (DevAPIKey c)
      @ requireAbsoluteURL parse ''SEED_BACKEND_FAST_URL'' (SeedBackendFastURL c)
      @ requireAbsoluteURL parse ''SEED_BACKEND_CHEAP_URL'' (SeedBackendCheapURL c))"

definition retry_order :: "app_Config \<Rightarrow> string list" where
  "retry_order c =
     (if RetryMaxMS c \<ge> 1 \<and> RetryBaseMS c \<ge> 1 \<and> RetryMaxMS c < RetryBaseMS c
      then [''RETRY_MAX_MS: must be >= RETRY_BASE_MS''] else [])"

definition ValidateForServe :: "(duration \<Rightarrow> string) \<Rightarrow> app_Config \<Rightarrow> string option" where
  "ValidateForServe dur c = config_join
     (requireNonEmpty ''DATABASE_URL'' (DatabaseURL c) @ requireNonEmpty ''REDIS_ADDR'' (RedisAddr c)
      @ (if RedisDB c < 0 then [''REDIS_DB: must be >= 0''] else [])
      @ checkKeyHashSecret (AppKeyHashSecret c) @ requireNonEmpty ''ADMIN_TOKEN'' (AdminToken c)
      @ requirePort ''APP_PORT'' (AppPort c) @ requirePort ''WORKER_METRICS_PORT'' (WorkerMetricsPort c)
      @ requireLogLevel (LogLevel c) @ requirePositive ''RATE_LIMIT_QPS'' (RateLimitQPS c)
      @ requirePositive ''CACHE_TTL_SECONDS'' (CacheTTLSeconds c)
      @ requirePositive ''IDEMPOTENCY_TTL_SECONDS'' (IdempotencyTTLSeconds c)
      @ requirePositive ''BACKEND_TIMEOUT_MS'' (BackendTimeoutMS c)
      @ requirePositive ''RETRY_MAX_ATTEMPTS'' (RetryMaxAttempts c)
      @ requirePositive ''RETRY_BASE_MS'' (RetryBaseMS c) @ requirePositive ''RETRY_MAX_MS'' (RetryMaxMS c)
      @ retry_order c
      @ requirePositive ''CB_FAILURE_THRESHOLD'' (CBFailureThreshold c)
      @ requirePositive ''CB_COOLDOWN_MS'' (CBCooldownMS c)
      @ requirePositive ''WORKER_CONCURRENCY'' (WorkerConcurrency c)
      @ requirePositive ''WORKER_MAX_ITEM_ATTEMPTS'' (WorkerMaxItemAttempts c)
      @ requireNonEmpty ''STREAM_KEY'' (StreamKey c) @ requireNonEmpty ''STREAM_GROUP'' (StreamGroup c)
      @ (if BackendTimeoutMS c \<ge> 1 \<and> RetryMaxAttempts c \<ge> 1 \<and> RetryBaseMS c \<ge> 1 \<and> RetryMaxMS c \<ge> 1
            \<and> worstCaseBackendCall c > InferenceBudget
         then [''BACKEND_TIMEOUT_MS'' @ [CHR 0xC3, CHR 0x97] @ ''RETRY_MAX_ATTEMPTS plus backoff (worst case ''
                @ dur (worstCaseBackendCall c) @ '') must not exceed the inference budget '' @ dur InferenceBudget
                @ '' (ServerWriteTimeout '' @ dur ServerWriteTimeout @ '' minus '' @ dur inferenceResponseMargin
                @ '' response margin)'']
         else []))"

definition ValidateForWorker :: "app_Config \<Rightarrow> string option" where
  "ValidateForWorker c = config_join
     (requireNonEmpty ''DATABASE_URL'' (DatabaseURL c) @ requireNonEmpty ''REDIS_ADDR'' (RedisAddr c)
      @ (if RedisDB c < 0 then [''REDIS_DB: must be >= 0''] else [])
      @ requirePort ''WORKER_METRICS_PORT'' (WorkerMetricsPort c) @ requireLogLevel (LogLevel c)
      @ requirePositive ''BACKEND_TIMEOUT_MS'' (BackendTimeoutMS c)
      @ requirePositive ''RETRY_MAX_ATTEMPTS'' (RetryMaxAttempts c)
      @ requirePositive ''RETRY_BASE_MS'' (RetryBaseMS c) @ requirePositive ''RETRY_MAX_MS'' (RetryMaxMS c)
      @ retry_order c
      @ requirePositive ''CB_FAILURE_THRESHOLD'' (CBFailureThreshold c)
      @ requirePositive ''CB_COOLDOWN_MS'' (CBCooldownMS c)
      @ requirePositive ''WORKER_CONCURRENCY'' (WorkerConcurrency c)
      @ requirePositive ''WORKER_MAX_ITEM_ATTEMPTS'' (WorkerMaxItemAttempts c)
      @ requireNonEmpty ''STREAM_KEY'' (StreamKey c) @ requireNonEmpty ''STREAM_GROUP'' (StreamGroup c))"

lemmas check_defs = requireNonEmpty_def checkKeyHashSecret_def requirePort_def requirePositive_def
  requireLogLevel_def retry_order_def

subsection \<open>What a validated configuration guarantees\<close>

lemma config_join_None [simp]: "config_join errs = None \<longleftrightarrow> errs = []"
  by (simp add: config_join_def)

lemma check_Nil [simp]:
  "requireNonEmpty name v = [] \<longleftrightarrow> v \<noteq> []" "requirePositive name i = [] \<longleftrightarrow> 1 \<le> i"
  "requirePort name i = [] \<longleftrightarrow> 1 \<le> i \<and> i \<le> 65535" "checkKeyHashSecret v = [] \<longleftrightarrow> minKeyHashSecretBytes \<le> length v"
  by (auto simp: check_defs minKeyHashSecretBytes_def)

lemma int64_sum:
  assumes "0 \<le> a" and "0 \<le> b" and "(a + b) * 1000000 < 2 ^ 63"
  shows "int64 (int64 (int64 a * 1000000) + int64 (int64 b * 1000000)) = (a + b) * 1000000"
proof -
  have "int64 a = a" "int64 b = b" "int64 (a * 1000000) = a * 1000000" "int64 (b * 1000000) = b * 1000000"
    using assms by (auto intro!: int64_id)
  moreover have "int64 ((a + b) * 1000000) = (a + b) * 1000000" using assms by (intro int64_id) simp_all
  ultimately show ?thesis by (simp add: distrib_right)
qed

lemma int64_pred: "1 \<le> n \<Longrightarrow> n \<le> a \<Longrightarrow> 0 \<le> b \<Longrightarrow> (a + b) * 1000000 < 2 ^ 63 \<Longrightarrow> int64 (n - 1) = n - 1"
  by (rule int64_id) auto

lemma worstCase_exact:
  assumes "1 \<le> RetryMaxAttempts c" and "1 \<le> BackendTimeoutMS c" and "1 \<le> RetryMaxMS c"
    and "(RetryMaxAttempts c * BackendTimeoutMS c + (RetryMaxAttempts c - 1) * RetryMaxMS c) * 1000000 < 2 ^ 63"
  shows "worstCaseBackendCall c
     = (RetryMaxAttempts c * BackendTimeoutMS c + (RetryMaxAttempts c - 1) * RetryMaxMS c) * 1000000"
proof -
  let ?a = "RetryMaxAttempts c * BackendTimeoutMS c" and ?b = "(RetryMaxAttempts c - 1) * RetryMaxMS c"
  have nn: "0 \<le> ?a" "0 \<le> ?b" using assms(1-3) by simp_all
  have "RetryMaxAttempts c \<le> ?a" using assms(1,2) by (simp add: mult_le_cancel_left1)
  from int64_pred [OF assms(1) this nn(2) assms(4)] show ?thesis using int64_sum [OF nn assms(4)] by (simp add: worstCaseBackendCall_def Let_def)
qed


definition sample_app_config :: "int \<Rightarrow> int \<Rightarrow> app_Config" where
  "sample_app_config attempts timeout_ms =
     \<lparr>AppEnv = ''dev'', AppPort = 8080, LogLevel = ''info'', DatabaseURL = ''postgres://db'', RedisAddr = ''r:6379'',
      RedisDB = 0, AppKeyHashSecret = replicate 32 CHR ''s'', AdminToken = ''t'', DevAPIKey = '''', AutoMigrate = False,
      AutoSeed = False, RateLimitQPS = 20, CacheTTLSeconds = 300, IdempotencyTTLSeconds = 86400,
      BackendTimeoutMS = timeout_ms, RetryMaxAttempts = attempts, RetryBaseMS = 1, RetryMaxMS = 1,
      CBFailureThreshold = 5, CBCooldownMS = 10000, WorkerConcurrency = 8, WorkerMetricsPort = 9100,
      WorkerMaxItemAttempts = 3, StreamKey = ''k'', StreamGroup = ''g'', SeedBackendFastURL = '''', SeedBackendCheapURL = ''''\<rparr>"

lemma sample_app_config_ok:
  "ValidateForServe (\<lambda>_. []) (sample_app_config 3 5000) = None"
  by code_simp


text \<open>The budget check can be defeated by wrap-around: with 64 attempts and a timeout of 2^58 milliseconds
  (both representable, both positive) the computed worst case wraps to 63 milliseconds, so the validator
  accepts a configuration whose true worst case is more than nine billion years.\<close>

theorem budget_check_overflows:
  "ValidateForServe dur (sample_app_config 64 (2 ^ 58)) = None
   \<and> worstCaseBackendCall (sample_app_config 64 (2 ^ 58)) = 63000000
   \<and> RetryMaxAttempts (sample_app_config 64 (2 ^ 58)) * BackendTimeoutMS (sample_app_config 64 (2 ^ 58)) * 1000000 > 28 * 10 ^ 9"
proof -
  have w: "worstCaseBackendCall (sample_app_config 64 (2 ^ 58)) = 63000000" by code_simp
  have "requireLogLevel ''info'' = []" by code_simp
  moreover have "checkKeyHashSecret (replicate 32 CHR ''s'') = []" by code_simp
  ultimately have "ValidateForServe dur (sample_app_config 64 (2 ^ 58)) = None"
    unfolding ValidateForServe_def w
    by (simp add: sample_app_config_def requireNonEmpty_def requirePort_def requirePositive_def retry_order_def
        InferenceBudget_def ServerWriteTimeout_def inferenceResponseMargin_def)
  then show ?thesis using w by (simp add: sample_app_config_def)
qed

text \<open>Loading fails exactly when some integer variable is set to something that is not a 64-bit decimal
  integer, or some boolean variable to something \<open>strconv.ParseBool\<close> rejects; presence is never required
  and an empty environment yields the documented defaults.\<close>

theorem Load_fails_iff_malformed:
  "(\<exists>err. Load qt env = Inl err) \<longleftrightarrow>
     list_ex (\<lambda>v. env v \<noteq> [] \<and> Atoi (env v) = None) (map fst int_vars)
     \<or> list_ex (\<lambda>v. env v \<noteq> [] \<and> ParseBool (env v) = None) (map fst bool_vars)"
proof -
  have i: "snd (getInt qt env k d) = [] \<longleftrightarrow> \<not> (env k \<noteq> [] \<and> Atoi (env k) = None)" for k d
    by (simp add: getInt_def split: option.splits)
  have b: "snd (getBool qt env k d) = [] \<longleftrightarrow> \<not> (env k \<noteq> [] \<and> ParseBool (env k) = None)" for k d
    by (simp add: getBool_def split: option.splits)
  let ?i = "\<lambda>k. getInt qt env k (the (map_of int_vars k))" and ?b = "\<lambda>k. getBool qt env k (the (map_of bool_vars k))"
  have Nil: "concat (map f ks) = [] \<longleftrightarrow> list_all (\<lambda>k. f k = []) ks" for f :: "string \<Rightarrow> string list" and ks
    by (simp add: list_all_iff)
  have two: "map fst int_vars = [''APP_PORT'', ''REDIS_DB''] @ drop 2 (map fst int_vars)" by (simp add: int_vars_def)
  have "(\<exists>err. Load qt env = Inl err) \<longleftrightarrow>
      \<not> (list_all (\<lambda>k. snd (?i k) = []) [''APP_PORT'', ''REDIS_DB''] \<and> list_all (\<lambda>k. snd (?b k) = []) (map fst bool_vars)
          \<and> list_all (\<lambda>k. snd (?i k) = []) (drop 2 (map fst int_vars)))"
    unfolding Load_def Let_def using Nil [of "\<lambda>k. snd (?i k)"] Nil [of "\<lambda>k. snd (?b k)"] by (simp only: append_is_Nil_conv split: if_split) blast
  also have "\<dots> \<longleftrightarrow> \<not> (list_all (\<lambda>k. snd (?i k) = []) (map fst int_vars) \<and> list_all (\<lambda>k. snd (?b k) = []) (map fst bool_vars))"
    by (subst (2) two) (simp only: list_all_append, blast)
  also have "\<dots> \<longleftrightarrow> list_ex (\<lambda>v. env v \<noteq> [] \<and> Atoi (env v) = None) (map fst int_vars)
     \<or> list_ex (\<lambda>v. env v \<noteq> [] \<and> ParseBool (env v) = None) (map fst bool_vars)"
    unfolding i b by (simp only: list_all_iff list_ex_iff) blast
  finally show ?thesis .
qed

end
