(* ===== verification/Router.thy ===== *)
theory Router
  imports Chat_System Config
begin

section \<open>The HTTP surface (internal/api/router.go, middleware.go, health.go, models_handler.go)\<close>

text \<open>
  A handler takes the request, the response writer and the gateway and returns or panics. Middleware is a
  function from handlers to handlers, as in the code, and \<open>NewRouter\<close> composes the same chain around the
  same table of routes. Which entry of the table a request matches is decided by the chi package: its choice
  is a parameter, so what is proved holds for every choice. The handlers of the larger endpoints have their
  own theories and are a parameter here.
\<close>

subsection \<open>Requests and handlers\<close>

record http_request =
  rq_method :: string
  rq_path :: string
  rq_headers :: header_map
  rq_query :: "string list"
  rq_requestID :: string
  rq_principal :: "Principal option"
  rq_route :: string

datatype completion = Returned_normally | Panicked

type_synonym 'g handler = "http_request \<Rightarrow> response_writer \<Rightarrow> 'g \<Rightarrow> completion \<times> response_writer \<times> 'g"
type_synonym 'g middleware = "'g handler \<Rightarrow> 'g handler"

text \<open>\<open>observability.RequestIDFromContext\<close> and the route pattern are fields of the request.\<close>

definition routePattern :: "http_request \<Rightarrow> string" where
  "routePattern q = (if rq_route q \<noteq> [] then rq_route q else ''unmatched'')"

definition requestIDHeader :: string where "requestIDHeader = ''X-Request-ID''"

text \<open>The access log and the request counter, beside the gateway.\<close>

record access_line =
  al_method :: string
  al_route :: string
  al_status :: int
  al_requestID :: string

record 'g server =
  sv_gw :: 'g
  sv_log :: "access_line list"
  sv_panics :: "string list"
  sv_HTTPRequestsTotal :: "(string \<times> string \<times> int) list"

subsection \<open>Middleware\<close>

definition credentialQueryParams :: "string list" where
  "credentialQueryParams = [''api_key'', ''apikey'', ''access_token'', ''token'', ''authorization'', ''admin_token'',
     ''x_admin_token'', ''x-api-key'']"

definition recoverer :: "json_lib \<Rightarrow> 'g server middleware" where
  "recoverer lib next = (\<lambda>q w s.
     case next q w s of
       (Returned_normally, w, s) \<Rightarrow> (Returned_normally, w, s)
     | (Panicked, w, s) \<Rightarrow>
         (let id = Header_Get (rw_header w) requestIDHeader;
              q = (if id \<noteq> [] then q\<lparr>rq_requestID := id\<rparr> else q)
          in (Returned_normally, httperror_Write lib (rq_requestID q) 500 CodeInternal ''internal server error'' w,
              s\<lparr>sv_panics := sv_panics s @ [id]\<rparr>)))"

text \<open>\<open>fresh\<close> is what \<open>uuid.NewString\<close> would give.\<close>

definition requestID :: "string \<Rightarrow> 'g middleware" where
  "requestID fresh next = (\<lambda>q w s.
     let id = TrimSpace (Header_Get (rq_headers q) requestIDHeader);
         id = (if id = [] then fresh else id)
     in next (q\<lparr>rq_requestID := id\<rparr>) (set_header requestIDHeader id w) s)"

text \<open>
  What a \<open>statusRecorder\<close> around the writer remembers (see \<open>recorder_tracks_status\<close>); the code after
  \<open>next.ServeHTTP\<close> does not run when \<open>next\<close> panics. chi fills in the route while \<open>next\<close> dispatches: the
  middleware reads it through the shared route context, here the route of the dispatched request.
\<close>

definition observed_status :: "response_writer \<Rightarrow> int" where
  "observed_status w = (case rw_sent w of None \<Rightarrow> 200 | Some (st, _) \<Rightarrow> st)"

definition requestLogger :: "(http_request \<Rightarrow> string) \<Rightarrow> 'g server middleware" where
  "requestLogger route_of next = (\<lambda>q w s.
     case next q w s of
       (Panicked, w, s) \<Rightarrow> (Panicked, w, s)
     | (Returned_normally, w, s) \<Rightarrow>
         (Returned_normally, w,
          s\<lparr>sv_log := sv_log s @ [\<lparr>al_method = rq_method q, al_route = route_of q, al_status = observed_status w,
                                    al_requestID = rq_requestID q\<rparr>]\<rparr>))"

definition metricsMiddleware :: "(http_request \<Rightarrow> string) \<Rightarrow> 'g server middleware" where
  "metricsMiddleware route_of next = (\<lambda>q w s.
     case next q w s of
       (Panicked, w, s) \<Rightarrow> (Panicked, w, s)
     | (Returned_normally, w, s) \<Rightarrow>
         (Returned_normally, w,
          s\<lparr>sv_HTTPRequestsTotal := sv_HTTPRequestsTotal s @ [(route_of q, rq_method q, observed_status w)]\<rparr>))"

definition rejectQueryCredentials :: "json_lib \<Rightarrow> 'g middleware" where
  "rejectQueryCredentials lib next = (\<lambda>q w s.
     if list_ex (\<lambda>name. ToLower name \<in> set credentialQueryParams) (rq_query q)
     then (Returned_normally,
           httperror_Write lib (rq_requestID q) 400 CodeBadRequest ''credentials must not be supplied in query parameters'' w, s)
     else next q w s)"

text \<open>The two guards of internal/auth/auth.go as middleware.\<close>

definition bearer_middleware :: "json_lib \<Rightarrow> (string \<Rightarrow> string \<Rightarrow> string) \<Rightarrow> string \<Rightarrow> key_store \<Rightarrow> 'g middleware" where
  "bearer_middleware lib hmac secret keys next = (\<lambda>q w s.
     case BearerAuth hmac secret keys (Header_Get (rq_headers q)) of
       Inl cerr \<Rightarrow> (Returned_normally, httperror_Write lib (rq_requestID q) (ce_status cerr) (ce_code cerr) (ce_message cerr) w, s)
     | Inr p \<Rightarrow> next (q\<lparr>rq_principal := Some p\<rparr>) w s)"

definition admin_middleware :: "json_lib \<Rightarrow> string \<Rightarrow> 'g middleware" where
  "admin_middleware lib adminToken next = (\<lambda>q w s.
     case AdminAuth adminToken (Header_Get (rq_headers q)) of
       Inl cerr \<Rightarrow> (Returned_normally, httperror_Write lib (rq_requestID q) (ce_status cerr) (ce_code cerr) (ce_message cerr) w, s)
     | Inr _ \<Rightarrow> next q w s)"

definition rateLimitMiddleware ::
  "('e, 's, 'c, 'l, 'r, 'x) Deps \<Rightarrow> time \<Rightarrow> ('s, 'c, 'l, 'r) gateway server middleware" where
  "rateLimitMiddleware deps now next = (\<lambda>q w s.
     case rq_principal q of
       None \<Rightarrow> (Returned_normally, httperror_Write (dp_lib deps) (rq_requestID q) 500 CodeInternal ''missing authenticated principal'' w, s)
     | Some p \<Rightarrow>
         (case allowRate deps now p (sv_gw s) of
            (False, g) \<Rightarrow> (Returned_normally, rateLimited (dp_lib deps) (rq_requestID q) w, s\<lparr>sv_gw := g\<rparr>)
          | (True, g) \<Rightarrow> next q w (s\<lparr>sv_gw := g\<rparr>)))"

subsection \<open>Small endpoints\<close>

definition notFound :: "json_lib \<Rightarrow> 'g handler" where
  "notFound lib = (\<lambda>q w s. (Returned_normally, httperror_Write lib (rq_requestID q) 404 CodeNotFound ''resource not found'' w, s))"

definition methodNotAllowed :: "json_lib \<Rightarrow> 'g handler" where
  "methodNotAllowed lib = (\<lambda>q w s. (Returned_normally, httperror_Write lib (rq_requestID q) 405 CodeBadRequest ''method not allowed'' w, s))"

definition healthz :: "json_lib \<Rightarrow> 'g handler" where
  "healthz lib = (\<lambda>q w s. (Returned_normally, writeJSON lib 200 (JObj [(''status'', JStr ''ok'')]) w, s))"

text \<open>The two pings succeed or fail.\<close>

definition readyz :: "json_lib \<Rightarrow> bool \<Rightarrow> bool \<Rightarrow> 'g handler" where
  "readyz lib dbUp redisUp = (\<lambda>q w s.
     if \<not> dbUp then (Returned_normally, httperror_Write lib (rq_requestID q) 503 CodeUpstreamUnavailable ''database not ready'' w, s)
     else if \<not> redisUp then (Returned_normally, httperror_Write lib (rq_requestID q) 503 CodeUpstreamUnavailable ''redis not ready'' w, s)
     else (Returned_normally, writeJSON lib 200 (JObj [(''status'', JStr ''ready'')]) w, s))"

definition modelObject :: "string \<Rightarrow> json" where
  "modelObject i = JObj [(''id'', JStr i), (''object'', JStr ''model''), (''owned_by'', JStr ''aegisroute'')]"

definition modelList :: "json list \<Rightarrow> json" where
  "modelList data = JObj [(''object'', JStr ''list''), (''data'', JArr data)]"

text \<open>The loop with its \<open>seen\<close> set, over the rows in the store's order.\<close>

fun model_names :: "string list \<Rightarrow> ModelBackend list \<Rightarrow> string list" where
  "model_names seen [] = []"
| "model_names seen (b # bs) =
     (if mb_ModelName b \<in> set seen then model_names seen bs
      else mb_ModelName b # model_names (mb_ModelName b # seen) bs)"

definition listModels :: "json_lib \<Rightarrow> db_error + ModelBackend list \<Rightarrow> 'g handler" where
  "listModels lib rows = (\<lambda>q w s.
     case rows of
       Inl err \<Rightarrow> (Returned_normally, httperror_Write lib (rq_requestID q) 500 CodeInternal ''could not list models'' w, s)
     | Inr backends \<Rightarrow> (Returned_normally, writeJSON lib 200 (modelList (map modelObject (model_names [] backends))) w, s))"

subsection \<open>The router\<close>

datatype endpoint =
    Healthz | Readyz | MetricsHandler | ListModels | ChatCompletions
  | CreateBatchJob | ListBatchJobs | GetBatchJob | ListBatchJobItems
  | ListBackends | CreateBackend | PatchBackend | ListPolicies | CreatePolicy | PatchPolicy

datatype guard = Public | Bearer | BearerLimited | Admin

text \<open>The registered routes; an empty method stands for \<open>Handle\<close>, which takes every method.\<close>

definition routes :: "(string \<times> string \<times> guard \<times> endpoint) list" where
  "routes =
     [(''GET'', ''/healthz'', Public, Healthz), (''GET'', ''/readyz'', Public, Readyz), ([], ''/metrics'', Public, MetricsHandler),
      (''GET'', ''/v1/models'', BearerLimited, ListModels), (''POST'', ''/v1/chat/completions'', Bearer, ChatCompletions),
      (''POST'', ''/api/v1/batch-jobs/'', Bearer, CreateBatchJob), (''GET'', ''/api/v1/batch-jobs/'', BearerLimited, ListBatchJobs),
      (''GET'', ''/api/v1/batch-jobs/{id}'', BearerLimited, GetBatchJob),
      (''GET'', ''/api/v1/batch-jobs/{id}/items'', BearerLimited, ListBatchJobItems),
      (''GET'', ''/api/v1/backends/'', Admin, ListBackends), (''POST'', ''/api/v1/backends/'', Admin, CreateBackend),
      (''PATCH'', ''/api/v1/backends/{id}'', Admin, PatchBackend),
      (''GET'', ''/api/v1/routing-policies/'', Admin, ListPolicies), (''POST'', ''/api/v1/routing-policies/'', Admin, CreatePolicy),
      (''PATCH'', ''/api/v1/routing-policies/{id}'', Admin, PatchPolicy)]"

text \<open>chi's answer: the index of the registered route and the pattern it reports for it.\<close>

datatype chi_match = Matched nat string | NoRoute | OtherMethod

text \<open>What the router is built from, and what one request reads from outside.\<close>

record ('e, 's, 'c, 'l, 'r, 'x) router_config =
  rc_deps :: "('e, 's, 'c, 'l, 'r, 'x) Deps"
  rc_KeyHashSecret :: string
  rc_AdminToken :: string
  rc_hmac :: "string \<Rightarrow> string \<Rightarrow> string"
  rc_chi :: "string \<Rightarrow> string \<Rightarrow> chi_match"

record request_env =
  rv_now :: time
  rv_fresh_id :: string
  rv_keys :: key_store

definition guarded ::
  "('e, 's, 'c, 'l, 'r, 'x) router_config \<Rightarrow> request_env \<Rightarrow> guard \<Rightarrow> ('s, 'c, 'l, 'r) gateway server middleware" where
  "guarded rc env gd next =
     (let lib = dp_lib (rc_deps rc);
          bearer = bearer_middleware lib (rc_hmac rc) (rc_KeyHashSecret rc) (rv_keys env)
      in case gd of
           Public \<Rightarrow> next
         | Bearer \<Rightarrow> bearer next
         | BearerLimited \<Rightarrow> bearer (rateLimitMiddleware (rc_deps rc) (rv_now env) next)
         | Admin \<Rightarrow> admin_middleware lib (rc_AdminToken rc) next)"

definition dispatch ::
  "('e, 's, 'c, 'l, 'r, 'x) router_config \<Rightarrow> request_env \<Rightarrow> (endpoint \<Rightarrow> ('s, 'c, 'l, 'r) gateway server handler)
     \<Rightarrow> ('s, 'c, 'l, 'r) gateway server handler" where
  "dispatch rc env handle q w s =
     (case rc_chi rc (rq_method q) (rq_path q) of
        NoRoute \<Rightarrow> notFound (dp_lib (rc_deps rc)) q w s
      | OtherMethod \<Rightarrow> methodNotAllowed (dp_lib (rc_deps rc)) q w s
      | Matched i pattern \<Rightarrow>
          (case routes ! i of (_, _, gd, ep) \<Rightarrow> guarded rc env gd (handle ep) (q\<lparr>rq_route := pattern\<rparr>) w s))"

text \<open>The pattern the two observing middlewares read after the dispatch; a request rejected before it has none.\<close>

definition dispatched_route :: "('e, 's, 'c, 'l, 'r, 'x) router_config \<Rightarrow> http_request \<Rightarrow> string" where
  "dispatched_route rc q =
     (if list_ex (\<lambda>name. ToLower name \<in> set credentialQueryParams) (rq_query q) then routePattern q
      else case rc_chi rc (rq_method q) (rq_path q) of
             Matched _ pattern \<Rightarrow> routePattern (q\<lparr>rq_route := pattern\<rparr>)
           | _ \<Rightarrow> routePattern q)"

definition NewRouter ::
  "('e, 's, 'c, 'l, 'r, 'x) router_config \<Rightarrow> request_env \<Rightarrow> (endpoint \<Rightarrow> ('s, 'c, 'l, 'r) gateway server handler)
     \<Rightarrow> ('s, 'c, 'l, 'r) gateway server handler" where
  "NewRouter rc env handle =
     (let lib = dp_lib (rc_deps rc)
      in recoverer lib
           (requestID (rv_fresh_id env)
             (requestLogger (dispatched_route rc)
               (metricsMiddleware (dispatched_route rc)
                 (rejectQueryCredentials lib (dispatch rc env handle))))))"

subsection \<open>The recorder\<close>

datatype writer_op = SetHeader string string | SendStatus int | SendBytes string

fun run_op :: "response_writer \<Rightarrow> writer_op \<Rightarrow> response_writer" where
  "run_op w (SetHeader k v) = set_header k v w"
| "run_op w (SendStatus st) = WriteHeader st w"
| "run_op w (SendBytes b) = write_bytes b w"

fun record_op :: "statusRecorder \<Rightarrow> writer_op \<Rightarrow> statusRecorder" where
  "record_op r (SetHeader k v) = r\<lparr>sr_writer := set_header k v (sr_writer r)\<rparr>"
| "record_op r (SendStatus st) = recorder_WriteHeader st r"
| "record_op r (SendBytes b) = recorder_Write b r"

text \<open>Whatever a handler does with the recorder, it reports the status that went out.\<close>

lemma recorder_tracks_status:
  assumes "\<forall>st. SendStatus st \<in> set ops \<longrightarrow> st \<noteq> 0" and "rw_sent w = None"
  shows "sr_writer (foldl record_op \<lparr>sr_writer = w, sr_code = 0\<rparr> ops) = foldl run_op w ops
    \<and> recorder_status (foldl record_op \<lparr>sr_writer = w, sr_code = 0\<rparr> ops) = observed_status (foldl run_op w ops)"
proof -
  let ?I = "\<lambda>r. (sr_code r = 0 \<longleftrightarrow> rw_sent (sr_writer r) = None) \<and> (\<forall>st h. rw_sent (sr_writer r) = Some (st, h) \<longrightarrow> sr_code r = st)"
  have step: "sr_writer (record_op r x) = run_op (sr_writer r) x \<and> ?I (record_op r x)"
    if "?I r" "\<forall>st. x = SendStatus st \<longrightarrow> st \<noteq> 0" for r x
    using that by (cases x) (auto simp: recorder_WriteHeader_def recorder_Write_def WriteHeader_def write_bytes_def set_header_def Let_def)
  have "?I r \<Longrightarrow> \<forall>st. SendStatus st \<in> set ops \<longrightarrow> st \<noteq> 0 \<Longrightarrow>
      sr_writer (foldl record_op r ops) = foldl run_op (sr_writer r) ops \<and> ?I (foldl record_op r ops)" for r ops
  proof (induction ops arbitrary: r)
    case (Cons x ops)
    have "sr_writer (record_op r x) = run_op (sr_writer r) x \<and> ?I (record_op r x)" using Cons.prems by (intro step) auto
    then show ?case using Cons.IH [of "record_op r x"] Cons.prems(2) by auto
  qed simp
  from this [of "\<lparr>sr_writer = w, sr_code = 0\<rparr>" ops] assms show ?thesis
    by (auto simp: recorder_status_def observed_status_def split: option.splits)
qed

subsection \<open>Credentials\<close>

definition chi_ok :: "(string \<Rightarrow> string \<Rightarrow> chi_match) \<Rightarrow> bool" where
  "chi_ok chi \<longleftrightarrow> (\<forall>m p i pat. chi m p = Matched i pat \<longrightarrow> i < length routes)"

definition tenant_endpoints :: "endpoint list" where
  "tenant_endpoints = [ListModels, ChatCompletions, CreateBatchJob, ListBatchJobs, GetBatchJob, ListBatchJobItems]"

definition admin_endpoints :: "endpoint list" where
  "admin_endpoints = [ListBackends, CreateBackend, PatchBackend, ListPolicies, CreatePolicy, PatchPolicy]"

text \<open>The endpoints a request's credentials open.\<close>

definition opened :: "('e, 's, 'c, 'l, 'r, 'x) router_config \<Rightarrow> request_env \<Rightarrow> http_request \<Rightarrow> endpoint set" where
  "opened rc env q =
     (if list_ex (\<lambda>name. ToLower name \<in> set credentialQueryParams) (rq_query q) then {}
      else {Healthz, Readyz, MetricsHandler}
        \<union> (case BearerAuth (rc_hmac rc) (rc_KeyHashSecret rc) (rv_keys env) (Header_Get (rq_headers q)) of
             Inr _ \<Rightarrow> set tenant_endpoints | Inl _ \<Rightarrow> {})
        \<union> (case AdminAuth (rc_AdminToken rc) (Header_Get (rq_headers q)) of Inr _ \<Rightarrow> set admin_endpoints | Inl _ \<Rightarrow> {}))"

lemma route_guard:
  assumes "i < length routes" and "routes ! i = (m, p, gd, ep)"
  shows "case gd of Public \<Rightarrow> ep \<in> {Healthz, Readyz, MetricsHandler} | Bearer \<Rightarrow> ep \<in> set tenant_endpoints
    | BearerLimited \<Rightarrow> ep \<in> set tenant_endpoints | Admin \<Rightarrow> ep \<in> set admin_endpoints"
proof -
  have "list_all (\<lambda>(m, p, gd, ep). case gd of Public \<Rightarrow> ep \<in> set [Healthz, Readyz, MetricsHandler] | Bearer \<Rightarrow> ep \<in> set tenant_endpoints
    | BearerLimited \<Rightarrow> ep \<in> set tenant_endpoints | Admin \<Rightarrow> ep \<in> set admin_endpoints) routes" by code_simp
  then show ?thesis using assms by (auto simp: list_all_length split: guard.splits)
qed

lemma dispatch_opened:
  assumes "chi_ok (rc_chi rc)" and "\<forall>ep \<in> opened rc env q. h ep = h' ep"
    and "\<not> list_ex (\<lambda>name. ToLower name \<in> set credentialQueryParams) (rq_query q)"
  shows "dispatch rc env h (q\<lparr>rq_requestID := i\<rparr>) w s = dispatch rc env h' (q\<lparr>rq_requestID := i\<rparr>) w s"
proof (cases "rc_chi rc (rq_method q) (rq_path q)")
  case (Matched k pat)
  obtain m p gd ep where r: "routes ! k = (m, p, gd, ep)" by (cases "routes ! k")
  have k: "k < length routes" using assms(1) Matched by (auto simp: chi_ok_def)
  show ?thesis
  proof (cases "ep \<in> opened rc env q")
    case True
    then show ?thesis using assms(2) Matched r by (simp add: dispatch_def)
  next
    case False
    then show ?thesis using route_guard [OF k r] assms(3) Matched r
      by (cases gd) (auto simp: dispatch_def guarded_def Let_def opened_def bearer_middleware_def admin_middleware_def
          split: sum.splits if_splits)
  qed
qed (simp_all add: dispatch_def)

text \<open>C26: Credentials open endpoints and nothing else does. Whatever route chi matches, the response to a request, the
  gateway's state, the log and the metrics depend only on the handlers its credentials open: the public ones, the
  tenant endpoints when its bearer token is a stored key, the admin endpoints when it presents the admin token; and
  on none at all when a credential is in its query string. No other handler runs.\<close>

theorem handlers_need_credentials:
  assumes "chi_ok (rc_chi rc)" and "\<forall>ep \<in> opened rc env q. h ep = h' ep"
  shows "NewRouter rc env h q w s = NewRouter rc env h' q w s"
proof -
  let ?i = "let id = TrimSpace (Header_Get (rq_headers q) requestIDHeader) in if id = [] then rv_fresh_id env else id"
  have "rejectQueryCredentials lib (dispatch rc env h) (q\<lparr>rq_requestID := ?i\<rparr>) w s =
      rejectQueryCredentials lib (dispatch rc env h') (q\<lparr>rq_requestID := ?i\<rparr>) w s" for lib w s
    using dispatch_opened [OF assms, of ?i w s] by (simp add: rejectQueryCredentials_def)
  then show ?thesis
    by (simp add: NewRouter_def Let_def recoverer_def requestID_def requestLogger_def metricsMiddleware_def)
qed

definition sample_rc ::
  "(idem_env, idem_table, string \<Rightarrow> (string \<times> time) option, string \<Rightarrow> counter, unit, unit) router_config" where
  "sample_rc = \<lparr>rc_deps = sample_deps, rc_KeyHashSecret = ''secret'', rc_AdminToken = ''admin'', rc_hmac = (\<lambda>s k. k),
     rc_chi = (\<lambda>m p. if p = ''/v1/chat/completions'' then Matched 4 p else NoRoute)\<rparr>"

definition sample_request_env :: request_env where
  "sample_request_env = \<lparr>rv_now = 5, rv_fresh_id = ''id'', rv_keys = (\<lambda>_. Inl DB_ErrNotFound)\<rparr>"

definition sample_http_request :: http_request where
  "sample_http_request = \<lparr>rq_method = ''POST'', rq_path = ''/v1/chat/completions'', rq_headers = (\<lambda>_. []), rq_query = [],
     rq_requestID = [], rq_principal = None, rq_route = []\<rparr>"

definition sample_server :: "(idem_table, string \<Rightarrow> (string \<times> time) option, string \<Rightarrow> counter, unit) gateway server" where
  "sample_server = \<lparr>sv_gw = sample_gw, sv_log = [], sv_panics = [], sv_HTTPRequestsTotal = []\<rparr>"

definition panicking_handler :: "'g handler" where
  "panicking_handler = (\<lambda>q w s. (Panicked, w, s))"

lemma sample_chi_ok: "chi_ok (rc_chi sample_rc)"
  by (simp add: chi_ok_def sample_rc_def routes_def)

text \<open>Without a token, the completions endpoint cannot be told from one that panics at once.\<close>

theorem handlers_need_credentials_witness:
  "NewRouter sample_rc sample_request_env (\<lambda>ep. if ep = ChatCompletions then panicking_handler else healthz sample_json_lib)
      sample_http_request fresh_writer sample_server
   = NewRouter sample_rc sample_request_env (\<lambda>ep. healthz sample_json_lib) sample_http_request fresh_writer sample_server"
proof (rule handlers_need_credentials [OF sample_chi_ok])
  have "ChatCompletions \<notin> opened sample_rc sample_request_env sample_http_request"
    by (simp add: opened_def sample_http_request_def BearerAuth_def bearerToken_def Header_Get_def bearerPrefix_def AdminAuth_def
        ConstantTimeCompare_def sample_rc_def)
  then show "\<forall>ep \<in> opened sample_rc sample_request_env sample_http_request.
      (if ep = ChatCompletions then panicking_handler else healthz sample_json_lib) = (healthz sample_json_lib :: (idem_table, _, _, _) gateway server handler)"
    by auto
qed

subsection \<open>Request ids\<close>

text \<open>The id a request is served under.\<close>

definition effective_id :: "request_env \<Rightarrow> http_request \<Rightarrow> string" where
  "effective_id env q =
     (let id = TrimSpace (Header_Get (rq_headers q) requestIDHeader) in if id = [] then rv_fresh_id env else id)"

text \<open>A writer that still carries the id in its header map and in what was sent.\<close>

definition carries :: "string \<Rightarrow> response_writer \<Rightarrow> bool" where
  "carries i w \<longleftrightarrow> Header_Get (rw_header w) requestIDHeader = i
     \<and> (\<forall>st h. rw_sent w = Some (st, h) \<longrightarrow> Header_Get h requestIDHeader = i)"

definition keeps_id :: "'g handler \<Rightarrow> bool" where
  "keeps_id h \<longleftrightarrow> (\<forall>q w s i. carries i w \<longrightarrow> carries i (fst (snd (h q w s))))"

lemma other_header: "k \<noteq> CanonicalHeaderKey requestIDHeader \<Longrightarrow> Header_Get (h(k := v)) requestIDHeader = Header_Get h requestIDHeader"
  by (simp add: Header_Get_def)

lemma content_type_key: "CanonicalHeaderKey ''Content-Type'' \<noteq> CanonicalHeaderKey requestIDHeader"
  by code_simp

lemma carries_httperror: "carries i w \<Longrightarrow> carries i (httperror_Write lib rid st code msg w)"
  using content_type_key
  by (auto simp: carries_def httperror_Write_def WriteHeader_def write_bytes_def set_header_def Header_Set_def other_header Let_def
      split: option.splits if_splits)

lemma keeps_id_guarded: "keeps_id next \<Longrightarrow> keeps_id (guarded rc env gd next)"
  by (cases gd) (auto simp: keeps_id_def guarded_def Let_def bearer_middleware_def admin_middleware_def rateLimitMiddleware_def
      rateLimited_def carries_httperror split: sum.splits option.splits prod.splits bool.splits)

lemma keeps_id_dispatch: "\<forall>ep. keeps_id (handle ep) \<Longrightarrow> keeps_id (dispatch rc env handle)"
  using keeps_id_guarded
  by (auto simp: keeps_id_def dispatch_def notFound_def methodNotAllowed_def carries_httperror split: chi_match.splits prod.splits) blast

lemma keeps_id_inner:
  "keeps_id next \<Longrightarrow> keeps_id (requestLogger f (metricsMiddleware g (rejectQueryCredentials lib next)))"
  by (auto simp: keeps_id_def requestLogger_def metricsMiddleware_def rejectQueryCredentials_def carries_httperror
      split: prod.splits completion.splits) (metis fst_conv snd_conv)+

text \<open>Every response is attributable. For handlers that leave the request-id header alone, every response of the
  gateway, whether the request was served, rejected, unmatched or ended in a panic, is sent with the effective
  request id: the client's own when it presented one, else a fresh one; and no request ends in a panic.\<close>

theorem every_response_carries_the_request_id:
  assumes "\<forall>ep. keeps_id (handle ep)" and "rw_sent w = None" and "NewRouter rc env handle q w s = (out, w', s')"
  shows "out = Returned_normally \<and> carries (effective_id env q) w'"
proof -
  let ?i = "effective_id env q" and ?lib = "dp_lib (rc_deps rc)"
  let ?in = "requestLogger (dispatched_route rc) (metricsMiddleware (dispatched_route rc) (rejectQueryCredentials ?lib (dispatch rc env handle)))"
  let ?q = "q\<lparr>rq_requestID := ?i\<rparr>" and ?w = "set_header requestIDHeader ?i w"
  have "carries ?i ?w" using assms(2) by (simp add: carries_def set_header_def Header_Set_def Header_Get_def)
  then have c: "carries ?i (fst (snd (?in ?q ?w s)))"
    using keeps_id_inner [OF keeps_id_dispatch [OF assms(1)]] unfolding keeps_id_def by blast
  have "requestID (rv_fresh_id env) ?in q w s = ?in ?q ?w s" by (simp add: requestID_def effective_id_def Let_def)
  then show ?thesis using assms(3) c
    by (cases "?in ?q ?w s" rule: prod_cases3) (auto simp: NewRouter_def recoverer_def Let_def carries_httperror split: completion.splits)
qed

theorem every_response_carries_the_request_id_witness:
  "carries ''id'' (fst (snd (NewRouter sample_rc sample_request_env (\<lambda>ep. panicking_handler) sample_http_request fresh_writer sample_server)))"
proof -
  have "\<forall>ep :: endpoint. keeps_id (panicking_handler :: (idem_table, string \<Rightarrow> (string \<times> time) option, string \<Rightarrow> counter, unit) gateway server handler)"
    by (simp add: keeps_id_def panicking_handler_def)
  moreover have "effective_id sample_request_env sample_http_request = ''id''"
    by (simp add: effective_id_def sample_http_request_def sample_request_env_def Header_Get_def)
  moreover have "rw_sent fresh_writer = None" by (simp add: fresh_writer_def)
  moreover obtain out w' s' where
    "NewRouter sample_rc sample_request_env (\<lambda>ep. panicking_handler) sample_http_request fresh_writer sample_server = (out, w', s')"
    by (cases rule: prod_cases3)
  ultimately show ?thesis
    using every_response_carries_the_request_id [of "\<lambda>ep. panicking_handler" fresh_writer sample_rc sample_request_env sample_http_request sample_server out w' s']
    by simp
qed

text \<open>A panic becomes a plain 500 and escapes the request metrics. When a handler panics before it sent anything, the
  client gets a 500 with the error envelope and nothing of the panic, and the panic is logged; but the access log and
  the request counter, which the comment on the logger promises for every request, do not record the request.\<close>

theorem panic_is_500_but_not_counted:
  assumes "dispatch rc env handle (q\<lparr>rq_requestID := effective_id env q\<rparr>) (set_header requestIDHeader (effective_id env q) w) s = (Panicked, w', s')"
    and "\<not> list_ex (\<lambda>name. ToLower name \<in> set credentialQueryParams) (rq_query q)" and "rw_sent w' = None"
  shows "\<exists>w''. NewRouter rc env handle q w s =
       (Returned_normally, w'', s'\<lparr>sv_panics := sv_panics s' @ [Header_Get (rw_header w') requestIDHeader]\<rparr>)
     \<and> sent_status w'' = Some 500
     \<and> (\<exists>rid. w'' = httperror_Write (dp_lib (rc_deps rc)) rid 500 CodeInternal ''internal server error'' w')"
proof -
  let ?i = "effective_id env q" and ?lib = "dp_lib (rc_deps rc)"
  let ?in = "requestLogger (dispatched_route rc) (metricsMiddleware (dispatched_route rc) (rejectQueryCredentials ?lib (dispatch rc env handle)))"
  have "requestID (rv_fresh_id env) ?in q w s = (Panicked, w', s')"
    using assms(1,2) by (simp add: requestID_def effective_id_def Let_def requestLogger_def metricsMiddleware_def rejectQueryCredentials_def)
  moreover have "sent_status (httperror_Write ?lib rid 500 CodeInternal msg w') = Some 500" for rid msg
    using httperror_Write_sent [OF assms(3)] by (simp add: sent_status_def)
  ultimately show ?thesis by (auto simp: NewRouter_def recoverer_def Let_def)
qed

theorem panic_is_500_but_not_counted_witness:
  "\<exists>w''. NewRouter (sample_rc\<lparr>rc_chi := (\<lambda>m p. Matched 0 p)\<rparr>) sample_request_env (\<lambda>ep. panicking_handler) sample_http_request fresh_writer
       \<lparr>sv_gw = sample_gw, sv_log = [], sv_panics = [], sv_HTTPRequestsTotal = []\<rparr> =
       (Returned_normally, w'', \<lparr>sv_gw = sample_gw, sv_log = [], sv_panics = [''id''], sv_HTTPRequestsTotal = []\<rparr>)
     \<and> sent_status w'' = Some 500"
proof -
  let ?rc = "sample_rc\<lparr>rc_chi := (\<lambda>m p. Matched 0 p)\<rparr>" and ?q = sample_http_request and ?env = sample_request_env
  let ?s = "\<lparr>sv_gw = sample_gw, sv_log = [], sv_panics = [], sv_HTTPRequestsTotal = []\<rparr>"
  have i: "effective_id ?env ?q = ''id''"
    by (simp add: effective_id_def sample_http_request_def sample_request_env_def Header_Get_def)
  have "dispatch ?rc ?env (\<lambda>ep. panicking_handler) (?q\<lparr>rq_requestID := effective_id ?env ?q\<rparr>)
      (set_header requestIDHeader (effective_id ?env ?q) fresh_writer) ?s = (Panicked, set_header requestIDHeader ''id'' fresh_writer, ?s)"
    unfolding i by (simp add: dispatch_def routes_def guarded_def panicking_handler_def)
  from panic_is_500_but_not_counted [OF this] show ?thesis
    by (auto simp: sample_http_request_def set_header_def Header_Set_def Header_Get_def fresh_writer_def)
qed

subsection \<open>The completions handler keeps the request id\<close>

lemma ascii_case_fold [simp]: "ascii_lower (ascii_upper c) = ascii_lower c" "ascii_lower (ascii_lower c) = ascii_lower c"
proof -
  have n: "(of_char c :: nat) < 256" by simp
  have "(of_char (char_of (of_char c - 32 :: nat)) :: nat) = of_char c - 32" "(of_char (char_of (of_char c + 32 :: nat)) :: nat) = (of_char c + 32) mod 256"
    using n by (simp_all add: less_imp_diff_less)
  then show "ascii_lower (ascii_upper c) = ascii_lower c" "ascii_lower (ascii_lower c) = ascii_lower c"
    using n by (auto simp: ascii_lower_def ascii_upper_def)
qed

lemma canonical_from_fold: "map ascii_lower (canonical_from up s) = map ascii_lower s"
  by (induction s arbitrary: up) simp_all

text \<open>Only a spelling of the name itself is stored under it.\<close>

lemma canonical_request_id:
  assumes "CanonicalHeaderKey k = CanonicalHeaderKey requestIDHeader"
  shows "EqualFold k ''X-Request-ID''"
proof -
  have r: "CanonicalHeaderKey requestIDHeader = canonical_from True ''X-Request-ID''" "list_all token_char (canonical_from True ''X-Request-ID'')"
    by code_simp+
  show ?thesis
  proof (cases "list_all token_char k")
    case True
    then have "map ascii_lower (canonical_from True k) = map ascii_lower (canonical_from True ''X-Request-ID'')"
      using assms r(1) by (simp add: CanonicalHeaderKey_def)
    then show ?thesis unfolding canonical_from_fold by (rule EqualFold_ascii_case)
  next
    case False
    then show ?thesis using assms r by (auto simp: CanonicalHeaderKey_def)
  qed
qed

definition safe_headers :: "(string \<times> string) list \<Rightarrow> bool" where
  "safe_headers hs \<longleftrightarrow> list_all (\<lambda>(k, v). CanonicalHeaderKey k \<noteq> CanonicalHeaderKey requestIDHeader) hs"

lemma carries_write_headers: "carries i w \<Longrightarrow> safe_headers hs \<Longrightarrow> carries i (write_headers hs w)"
proof (induction hs arbitrary: w)
  case (Cons kv hs)
  obtain k v where kv: "kv = (k, v)" by (cases kv)
  have "carries i (set_header k v w)" using Cons.prems kv by (auto simp: carries_def set_header_def Header_Set_def safe_headers_def other_header)
  then show ?case using Cons kv by (auto simp: write_headers_def safe_headers_def)
qed (simp add: write_headers_def)

lemma carries_write_response: "carries i w \<Longrightarrow> carries i (write_response st b w)"
  by (auto simp: carries_def write_response_def write_bytes_def WriteHeader_def Let_def split: if_splits)

fun pc_carries :: "string \<Rightarrow> chat_pc \<Rightarrow> bool" where
  "pc_carries i (CRespond _ _ rs) \<longleftrightarrow> safe_headers (cs_headers rs)"
| "pc_carries i (CFinish _ w) \<longleftrightarrow> carries i w"
| "pc_carries i (CUnwind _ w) \<longleftrightarrow> carries i w"
| "pc_carries i (CDone w) \<longleftrightarrow> carries i w"
| "pc_carries i (CAborted w) \<longleftrightarrow> carries i w"
| "pc_carries i _ \<longleftrightarrow> True"

lemma safe_gateway_headers:
  "safe_headers [(''Content-Type'', a)]" "safe_headers [(''Content-Type'', a), (headerCache, b)]"
  "safe_headers [(''Content-Type'', a), (headerBackend, b), (headerRoutingPolicy, c), (headerCache, d)]"
proof -
  have "CanonicalHeaderKey headerCache \<noteq> CanonicalHeaderKey requestIDHeader" "CanonicalHeaderKey headerBackend \<noteq> CanonicalHeaderKey requestIDHeader"
    "CanonicalHeaderKey headerRoutingPolicy \<noteq> CanonicalHeaderKey requestIDHeader" by code_simp+
  then show "safe_headers [(''Content-Type'', a)]" "safe_headers [(''Content-Type'', a), (headerCache, b)]"
    "safe_headers [(''Content-Type'', a), (headerBackend, b), (headerRoutingPolicy, c), (headerCache, d)]"
    using content_type_key by (simp_all add: safe_headers_def)
qed

lemma safe_respondError: "safe_headers (cs_headers (respondError lib rid parts))"
  using safe_gateway_headers(1) by (cases parts) (simp add: respondError_def Let_def)

lemma carries_after_decision:
  assumes "carries i (hq_writer q)" and "pc_carries i nxt"
  shows "pc_carries i (after_decision lib q dec nxt)"
proof -
  have "safe_headers (filter (\<lambda>(k, _). \<not> EqualFold k ''X-Request-ID'') hs)" for hs
    unfolding safe_headers_def list_all_iff set_filter using canonical_request_id by blast
  then show ?thesis using assms
    by (auto simp del: EqualFold.simps simp: after_decision_def applyIdempotencyDecision_def carries_write_response carries_write_headers carries_httperror
        split: Action.splits option.splits)
qed

lemma carries_fail_early: "carries i (hq_writer q) \<Longrightarrow> pc_carries i (fail_early lib q st code msg)"
  by (simp add: fail_early_def carries_httperror)

lemma carries_start: "carries i (hq_writer q) \<Longrightarrow> pc_carries i (start_step deps q)"
  by (simp add: start_step_def Let_def carries_fail_early split: option.splits sum.splits)

lemma chat_step_carries:
  assumes "carries i (hq_writer q)" and "pc_carries i pc"
  shows "pc_carries i (fst (chat_step deps q ev pc g))"
proof (cases pc)
  case CStart
  then show ?thesis using carries_start [OF assms(1)] by simp
next
  case (CSelect wk tried)
  then show ?thesis using assms(1) safe_respondError
    by (simp add: select_step_def Let_def split: option.splits prod.splits sum.splits)
qed (use assms in \<open>simp_all add: check_step_def allow_step_def begin_step_def lookup_step_def hit_step_def report_step_def ledger_row_step_def
    called_step_def put_step_def respondChat_def completion_response_def Let_def safe_respondError safe_gateway_headers carries_fail_early
    carries_after_decision carries_write_response carries_write_headers rateLimited_def carries_httperror
    split: option.splits prod.splits sum.splits do_result.splits bool.splits\<close>)

text \<open>
  So a completion leaves with the id of its own request, also when it replays a stored response or a cached one.
\<close>

lemma chat_keeps_request_id:
  assumes "carries i (hq_writer q)"
  shows "pc_carries i (snd (chat_path deps q CStart ws))"
proof -
  have "pc_carries i pc \<Longrightarrow> pc_carries i (snd (chat_path deps q pc ws))" for pc
  proof (induction ws arbitrary: pc)
    case (Cons a ws)
    then show ?case by (cases a) (simp add: chat_step_carries [OF assms])
  qed simp
  then show ?thesis by simp
qed

end
