(* ===== verification/Api_Helpers.thy ===== *)
theory Api_Helpers
  imports Router
begin

section \<open>What the larger handlers share (internal/api/admin.go: request helpers)\<close>

text \<open>
  The four short error writers and the parsing of the \<open>id\<close> path parameter. \<open>uuid.Parse\<close> is a parameter.
\<close>

definition writeBadRequest :: "json_lib \<Rightarrow> http_request \<Rightarrow> string \<Rightarrow> response_writer \<Rightarrow> response_writer" where
  "writeBadRequest lib q msg = httperror_Write lib (rq_requestID q) 400 CodeBadRequest msg"

definition writeNotFound :: "json_lib \<Rightarrow> http_request \<Rightarrow> string \<Rightarrow> response_writer \<Rightarrow> response_writer" where
  "writeNotFound lib q msg = httperror_Write lib (rq_requestID q) 404 CodeNotFound msg"

definition writeInternal :: "json_lib \<Rightarrow> http_request \<Rightarrow> string \<Rightarrow> response_writer \<Rightarrow> response_writer" where
  "writeInternal lib q msg = httperror_Write lib (rq_requestID q) 500 CodeInternal msg"

text \<open>\<open>Inl\<close> is the writer after the 400.\<close>

definition parseID ::
  "json_lib \<Rightarrow> (string \<Rightarrow> uuid option) \<Rightarrow> string \<Rightarrow> http_request \<Rightarrow> response_writer \<Rightarrow> response_writer + uuid" where
  "parseID lib uuid_Parse urlParam q w =
     (case uuid_Parse urlParam of
        None \<Rightarrow> Inl (writeBadRequest lib q ''invalid id'' w)
      | Some i \<Rightarrow> Inr i)"

text \<open>A value that may fail to marshal below the top level: then only the status and headers are sent.\<close>

definition write_value :: "json_lib \<Rightarrow> int \<Rightarrow> json option \<Rightarrow> response_writer \<Rightarrow> response_writer" where
  "write_value lib status v w =
     (case v of
        None \<Rightarrow> WriteHeader status (set_header ''Content-Type'' json_content_type w)
      | Some j \<Rightarrow> writeJSON lib status j w)"

lemma writeJSON_sent:
  "rw_sent w = None \<Longrightarrow> rw_sent (writeJSON lib st v w) = Some (st, Header_Set ''Content-Type'' json_content_type (rw_header w))"
  by (simp add: writeJSON_def WriteHeader_def set_header_def write_bytes_def Let_def split: option.splits)

lemma write_value_sent:
  "rw_sent w = None \<Longrightarrow> rw_sent (write_value lib st v w) = Some (st, Header_Set ''Content-Type'' json_content_type (rw_header w))"
  by (cases v) (simp_all add: write_value_def writeJSON_sent, simp add: WriteHeader_def set_header_def)

end
