(* ===== verification/Jobs.thy ===== *)
theory Jobs
  imports Db "HOL-Library.Product_Lexorder" "HOL-Library.List_Lexorder" "HOL-Library.Char_ord"
begin

section \<open>Batch jobs: status machines and the in-memory store (internal/jobs)\<close>

text \<open>
  The transition and aggregation functions of \<open>status.go\<close>, the \<open>JobStore\<close> interface of \<open>store.go\<close>
  as a record of operations, and the in-memory \<open>MemStore\<close>. A Go map is the list of its values (keys are
  the values' ids), iterated in list order. The clock and the UUIDs a call draws are its first argument.
\<close>

subsection \<open>Status machines (status.go)\<close>

fun ValidJobTransition :: "JobStatus \<Rightarrow> JobStatus \<Rightarrow> bool" where
  "ValidJobTransition JobStatusQueued to \<longleftrightarrow> to = JobStatusRunning"
| "ValidJobTransition JobStatusRunning to \<longleftrightarrow>
     to = JobStatusSucceeded \<or> to = JobStatusPartiallyFailed \<or> to = JobStatusFailed"
| "ValidJobTransition _ to \<longleftrightarrow> False"

fun ValidItemTransition :: "ItemStatus \<Rightarrow> ItemStatus \<Rightarrow> bool" where
  "ValidItemTransition ItemStatusQueued to \<longleftrightarrow> to = ItemStatusRunning \<or> to = ItemStatusFailed"
| "ValidItemTransition ItemStatusRunning to \<longleftrightarrow>
     to = ItemStatusSucceeded \<or> to = ItemStatusFailed \<or> to = ItemStatusQueued"
| "ValidItemTransition _ to \<longleftrightarrow> False"

definition AggregateJobStatus :: "nat \<Rightarrow> nat \<Rightarrow> nat \<Rightarrow> JobStatus" where
  "AggregateJobStatus total_items succeeded failed =
     (if succeeded + failed < total_items then JobStatusRunning
      else if failed = 0 then JobStatusSucceeded
      else if succeeded = 0 then JobStatusFailed
      else JobStatusPartiallyFailed)"

definition item_terminal :: "ItemStatus \<Rightarrow> bool" where
  "item_terminal s \<longleftrightarrow> s = ItemStatusSucceeded \<or> s = ItemStatusFailed"

definition job_terminal :: "JobStatus \<Rightarrow> bool" where
  "job_terminal s \<longleftrightarrow> s = JobStatusSucceeded \<or> s = JobStatusPartiallyFailed \<or> s = JobStatusFailed"

subsection \<open>The store interface (store.go)\<close>

datatype jobs_error =
    Jobs_ErrNotFound
  | NotTerminalStatus ItemStatus
  | JobsDbErr pg_error

datatype ClaimOutcome = ClaimNone | ClaimClaimed | ClaimExhausted

text \<open>The item is \<open>None\<close> for \<open>ClaimNone\<close> (the zero item of the code).\<close>

record ClaimResult =
  cr_Outcome :: ClaimOutcome
  cr_Item :: "BatchJobItem option"

definition ExhaustedError :: "int \<Rightarrow> int \<Rightarrow> string" where
  "ExhaustedError attempts maxAttempts =
     ''exhausted after '' @ int_decimal attempts @ '' of '' @ int_decimal maxAttempts @ '' attempts''"

record ('e, 's) JobStore =
  js_CreateWithItemsAndOutbox :: "'e \<Rightarrow> BatchJob \<Rightarrow> BatchJobItem list \<Rightarrow> 's \<Rightarrow> (jobs_error + BatchJob \<times> BatchJobOutbox) \<times> 's"
  js_Get :: "'e \<Rightarrow> uuid \<Rightarrow> uuid \<Rightarrow> 's \<Rightarrow> jobs_error + BatchJob"
  js_List :: "'e \<Rightarrow> uuid \<Rightarrow> 's \<Rightarrow> jobs_error + BatchJob list"
  js_Items :: "'e \<Rightarrow> uuid \<Rightarrow> uuid \<Rightarrow> 's \<Rightarrow> jobs_error + BatchJobItem list"
  js_MarkJobRunning :: "'e \<Rightarrow> uuid \<Rightarrow> 's \<Rightarrow> (jobs_error + unit) \<times> 's"
  js_RequeueRunningItems :: "'e \<Rightarrow> uuid \<Rightarrow> 's \<Rightarrow> (jobs_error + nat) \<times> 's"
  js_ClaimNextQueuedItem :: "'e \<Rightarrow> uuid \<Rightarrow> int \<Rightarrow> 's \<Rightarrow> (jobs_error + ClaimResult) \<times> 's"
  js_UpdateItemTerminal :: "'e \<Rightarrow> uuid \<Rightarrow> ItemStatus \<Rightarrow> string \<Rightarrow> string option \<Rightarrow> 's \<Rightarrow> (jobs_error + unit) \<times> 's"
  js_RecomputeAndUpdateJobStatus :: "'e \<Rightarrow> uuid \<Rightarrow> 's \<Rightarrow> (jobs_error + JobStatus) \<times> 's"
  js_PendingOutbox :: "'e \<Rightarrow> int \<Rightarrow> 's \<Rightarrow> jobs_error + BatchJobOutbox list"
  js_MarkOutboxPublished :: "'e \<Rightarrow> uuid \<Rightarrow> 's \<Rightarrow> (jobs_error + unit) \<times> 's"
  js_MarkOutboxFailedAttempt :: "'e \<Rightarrow> uuid \<Rightarrow> string \<Rightarrow> 's \<Rightarrow> (jobs_error + unit) \<times> 's"

subsection \<open>MemStore (memstore.go)\<close>

text \<open>\<open>me_now\<close> is \<open>time.Now()\<close>, \<open>me_new k\<close> the \<open>k\<close>-th \<open>uuid.New()\<close> of the call.\<close>

record mem_env =
  me_now :: time
  me_new :: "nat \<Rightarrow> uuid"

record MemStore =
  ms_jobs :: "BatchJob list"
  ms_items :: "(uuid \<times> BatchJobItem list) list"
  ms_outbox :: "BatchJobOutbox list"

definition NewMemStore :: MemStore where
  "NewMemStore = \<lparr>ms_jobs = [], ms_items = [], ms_outbox = []\<rparr>"

definition find_job :: "uuid \<Rightarrow> BatchJob list \<Rightarrow> BatchJob option" where
  "find_job i js = find (\<lambda>j. job_ID j = i) js"

definition upd_job :: "uuid \<Rightarrow> (BatchJob \<Rightarrow> BatchJob) \<Rightarrow> BatchJob list \<Rightarrow> BatchJob list" where
  "upd_job i f js = map (\<lambda>j. if job_ID j = i then f j else j) js"

definition items_of :: "uuid \<Rightarrow> (uuid \<times> BatchJobItem list) list \<Rightarrow> BatchJobItem list" where
  "items_of i its = (case map_of its i of None \<Rightarrow> [] | Some l \<Rightarrow> l)"

definition upd_items ::
  "uuid \<Rightarrow> (BatchJobItem list \<Rightarrow> BatchJobItem list) \<Rightarrow> (uuid \<times> BatchJobItem list) list
     \<Rightarrow> (uuid \<times> BatchJobItem list) list" where
  "upd_items i f its = map (\<lambda>(k, l). (k, if k = i then f l else l)) its"

definition find_outbox :: "uuid \<Rightarrow> BatchJobOutbox list \<Rightarrow> BatchJobOutbox option" where
  "find_outbox i obs = find (\<lambda>ob. ob_ID ob = i) obs"

definition upd_outbox :: "uuid \<Rightarrow> (BatchJobOutbox \<Rightarrow> BatchJobOutbox) \<Rightarrow> BatchJobOutbox list \<Rightarrow> BatchJobOutbox list" where
  "upd_outbox i f obs = map (\<lambda>ob. if ob_ID ob = i then f ob else ob) obs"

text \<open>Assigning to a fresh or an existing key of a Go map.\<close>

definition put_job :: "BatchJob \<Rightarrow> BatchJob list \<Rightarrow> BatchJob list" where
  "put_job j js = filter (\<lambda>x. job_ID x \<noteq> job_ID j) js @ [j]"

definition put_outbox :: "BatchJobOutbox \<Rightarrow> BatchJobOutbox list \<Rightarrow> BatchJobOutbox list" where
  "put_outbox ob obs = filter (\<lambda>x. ob_ID x \<noteq> ob_ID ob) obs @ [ob]"

definition put_items ::
  "uuid \<Rightarrow> BatchJobItem list \<Rightarrow> (uuid \<times> BatchJobItem list) list \<Rightarrow> (uuid \<times> BatchJobItem list) list" where
  "put_items i l its = filter (\<lambda>(k, _). k \<noteq> i) its @ [(i, l)]"

definition mem_CreateWithItemsAndOutbox ::
  "mem_env \<Rightarrow> BatchJob \<Rightarrow> BatchJobItem list \<Rightarrow> MemStore
     \<Rightarrow> (jobs_error + BatchJob \<times> BatchJobOutbox) \<times> MemStore" where
  "mem_CreateWithItemsAndOutbox e job items s =
     (let now = me_now e;
          job = job\<lparr>job_ID := me_new e 0, job_Status := JobStatusQueued, job_TotalItems := length items,
                    job_CompletedItems := 0, job_FailedItems := 0, job_CreatedAt := now,
                    job_UpdatedAt := now\<rparr>;
          stored = map (\<lambda>(k, it). it\<lparr>item_ID := me_new e (Suc k), item_JobID := job_ID job,
                            item_Status := ItemStatusQueued, item_Attempts := 0,
                            item_CreatedAt := now, item_UpdatedAt := now\<rparr>)
                     (zip [0..<length items] items);
          ob = \<lparr>ob_ID = me_new e (Suc (length items)), ob_JobID = job_ID job,
                ob_Status = OutboxStatusPending, ob_Attempts = 0, ob_LastError = None,
                ob_PublishedAt = None, ob_CreatedAt = now, ob_UpdatedAt = now\<rparr>
      in (Inr (job, ob),
          s\<lparr>ms_jobs := put_job job (ms_jobs s), ms_items := put_items (job_ID job) stored (ms_items s),
            ms_outbox := put_outbox ob (ms_outbox s)\<rparr>))"

definition mem_Get :: "mem_env \<Rightarrow> uuid \<Rightarrow> uuid \<Rightarrow> MemStore \<Rightarrow> jobs_error + BatchJob" where
  "mem_Get e tenantID jobID s =
     (case find_job jobID (ms_jobs s) of
        None \<Rightarrow> Inl Jobs_ErrNotFound
      | Some job \<Rightarrow> (if job_TenantID job \<noteq> tenantID then Inl Jobs_ErrNotFound else Inr job))"

text \<open>
  A UUID prints as 32 lower-case hexadecimal digits with dashes in fixed places, so comparing printed
  UUIDs is comparing their values.
\<close>

definition mem_List :: "mem_env \<Rightarrow> uuid \<Rightarrow> MemStore \<Rightarrow> jobs_error + BatchJob list" where
  "mem_List e tenantID s =
     Inr (sort_key (\<lambda>j. (- job_CreatedAt j, - uint (job_ID j)))
            (filter (\<lambda>j. job_TenantID j = tenantID) (ms_jobs s)))"

definition mem_Items :: "mem_env \<Rightarrow> uuid \<Rightarrow> uuid \<Rightarrow> MemStore \<Rightarrow> jobs_error + BatchJobItem list" where
  "mem_Items e tenantID jobID s =
     (case find_job jobID (ms_jobs s) of
        None \<Rightarrow> Inl Jobs_ErrNotFound
      | Some job \<Rightarrow>
          (if job_TenantID job \<noteq> tenantID then Inl Jobs_ErrNotFound
           else Inr (sort_key item_CustomID (items_of jobID (ms_items s)))))"

definition mem_MarkJobRunning :: "mem_env \<Rightarrow> uuid \<Rightarrow> MemStore \<Rightarrow> (jobs_error + unit) \<times> MemStore" where
  "mem_MarkJobRunning e jobID s =
     (case find_job jobID (ms_jobs s) of
        None \<Rightarrow> (Inl Jobs_ErrNotFound, s)
      | Some job \<Rightarrow>
          (Inr (),
           if ValidJobTransition (job_Status job) JobStatusRunning
           then s\<lparr>ms_jobs := upd_job jobID
                    (\<lambda>j. j\<lparr>job_Status := JobStatusRunning, job_UpdatedAt := me_now e\<rparr>) (ms_jobs s)\<rparr>
           else s))"

definition requeue_item :: "time \<Rightarrow> BatchJobItem \<Rightarrow> BatchJobItem" where
  "requeue_item now it =
     (if item_Status it = ItemStatusRunning
      then it\<lparr>item_Status := ItemStatusQueued, item_UpdatedAt := now\<rparr> else it)"

definition mem_RequeueRunningItems :: "mem_env \<Rightarrow> uuid \<Rightarrow> MemStore \<Rightarrow> (jobs_error + nat) \<times> MemStore" where
  "mem_RequeueRunningItems e jobID s =
     (Inr (length (filter (\<lambda>it. item_Status it = ItemStatusRunning) (items_of jobID (ms_items s)))),
      s\<lparr>ms_items := upd_items jobID (map (requeue_item (me_now e))) (ms_items s)\<rparr>)"

text \<open>What a claim does to the item it picked: exhaust it, or hand it out.\<close>

definition exhaust_item :: "time \<Rightarrow> int \<Rightarrow> BatchJobItem \<Rightarrow> BatchJobItem" where
  "exhaust_item now maxAttempts it =
     it\<lparr>item_Status := ItemStatusFailed, item_Error := Some (ExhaustedError (item_Attempts it) maxAttempts),
        item_UpdatedAt := now\<rparr>"

definition start_item :: "time \<Rightarrow> BatchJobItem \<Rightarrow> BatchJobItem" where
  "start_item now it =
     it\<lparr>item_Attempts := item_Attempts it + 1, item_Status := ItemStatusRunning, item_UpdatedAt := now\<rparr>"

text \<open>The loop over the job's items.\<close>

fun claim_scan :: "time \<Rightarrow> int \<Rightarrow> BatchJobItem list \<Rightarrow> ClaimResult \<times> BatchJobItem list" where
  "claim_scan now maxAttempts [] = (\<lparr>cr_Outcome = ClaimNone, cr_Item = None\<rparr>, [])"
| "claim_scan now maxAttempts (it # its) =
     (if item_Status it \<noteq> ItemStatusQueued
      then (let (res, its') = claim_scan now maxAttempts its in (res, it # its'))
      else if item_Attempts it + 1 > maxAttempts
      then (let it' = exhaust_item now maxAttempts it
            in (\<lparr>cr_Outcome = ClaimExhausted, cr_Item = Some it'\<rparr>, it' # its))
      else (let it' = start_item now it
            in (\<lparr>cr_Outcome = ClaimClaimed, cr_Item = Some it'\<rparr>, it' # its)))"

definition mem_ClaimNextQueuedItem ::
  "mem_env \<Rightarrow> uuid \<Rightarrow> int \<Rightarrow> MemStore \<Rightarrow> (jobs_error + ClaimResult) \<times> MemStore" where
  "mem_ClaimNextQueuedItem e jobID maxAttempts s =
     (Inr (fst (claim_scan (me_now e) maxAttempts (items_of jobID (ms_items s)))),
      s\<lparr>ms_items := upd_items jobID (\<lambda>l. snd (claim_scan (me_now e) maxAttempts l)) (ms_items s)\<rparr>)"

text \<open>
  The first item with the id, over all jobs in map order: \<open>append(json.RawMessage(nil), response...)\<close>
  of an empty response is \<open>nil\<close>.
\<close>

definition terminal_item :: "time \<Rightarrow> ItemStatus \<Rightarrow> string option \<Rightarrow> string option \<Rightarrow> BatchJobItem \<Rightarrow> BatchJobItem" where
  "terminal_item now status response errMsg it =
     it\<lparr>item_Status := status, item_Response := response, item_Error := errMsg, item_UpdatedAt := now\<rparr>"

definition mem_UpdateItemTerminal ::
  "mem_env \<Rightarrow> uuid \<Rightarrow> ItemStatus \<Rightarrow> string \<Rightarrow> string option \<Rightarrow> MemStore \<Rightarrow> (jobs_error + unit) \<times> MemStore" where
  "mem_UpdateItemTerminal e itemID status response errMsg s =
     (if status \<noteq> ItemStatusSucceeded \<and> status \<noteq> ItemStatusFailed then (Inl (NotTerminalStatus status), s)
      else case find (\<lambda>it. item_ID it = itemID) (concat (map snd (ms_items s))) of
        None \<Rightarrow> (Inl Jobs_ErrNotFound, s)
      | Some it \<Rightarrow>
          (if \<not> ValidItemTransition (item_Status it) status then (Inl Jobs_ErrNotFound, s)
           else (Inr (),
                 s\<lparr>ms_items := map (\<lambda>(k, l). (k, map (\<lambda>x. if item_ID x = itemID
                       then terminal_item (me_now e) status (if response = [] then None else Some response) errMsg x
                       else x) l)) (ms_items s)\<rparr>)))"

definition count_status :: "ItemStatus \<Rightarrow> BatchJobItem list \<Rightarrow> nat" where
  "count_status st its = length (filter (\<lambda>it. item_Status it = st) its)"

definition mem_RecomputeAndUpdateJobStatus ::
  "mem_env \<Rightarrow> uuid \<Rightarrow> MemStore \<Rightarrow> (jobs_error + JobStatus) \<times> MemStore" where
  "mem_RecomputeAndUpdateJobStatus e jobID s =
     (case find_job jobID (ms_jobs s) of
        None \<Rightarrow> (Inl Jobs_ErrNotFound, s)
      | Some job \<Rightarrow>
          (let succeeded = count_status ItemStatusSucceeded (items_of jobID (ms_items s));
               failed = count_status ItemStatusFailed (items_of jobID (ms_items s));
               status = AggregateJobStatus (job_TotalItems job) succeeded failed
           in (Inr status,
               s\<lparr>ms_jobs := upd_job jobID
                   (\<lambda>j. j\<lparr>job_CompletedItems := succeeded, job_FailedItems := failed,
                           job_Status := status, job_UpdatedAt := me_now e\<rparr>) (ms_jobs s)\<rparr>)))"

definition mem_PendingOutbox :: "mem_env \<Rightarrow> int \<Rightarrow> MemStore \<Rightarrow> jobs_error + BatchJobOutbox list" where
  "mem_PendingOutbox e limit s =
     Inr (take (nat limit)
            (sort_key (\<lambda>ob. (ob_CreatedAt ob, uint (ob_ID ob)))
               (filter (\<lambda>ob. ob_Status ob = OutboxStatusPending) (ms_outbox s))))"

definition mem_MarkOutboxPublished :: "mem_env \<Rightarrow> uuid \<Rightarrow> MemStore \<Rightarrow> (jobs_error + unit) \<times> MemStore" where
  "mem_MarkOutboxPublished e outboxID s =
     (case find_outbox outboxID (ms_outbox s) of
        None \<Rightarrow> (Inl Jobs_ErrNotFound, s)
      | Some ob \<Rightarrow>
          (Inr (),
           if ob_Status ob = OutboxStatusPending
           then s\<lparr>ms_outbox := upd_outbox outboxID
                    (\<lambda>ob. ob\<lparr>ob_Status := OutboxStatusPublished, ob_PublishedAt := Some (me_now e),
                             ob_UpdatedAt := me_now e\<rparr>) (ms_outbox s)\<rparr>
           else s))"

definition mem_MarkOutboxFailedAttempt ::
  "mem_env \<Rightarrow> uuid \<Rightarrow> string \<Rightarrow> MemStore \<Rightarrow> (jobs_error + unit) \<times> MemStore" where
  "mem_MarkOutboxFailedAttempt e outboxID lastErr s =
     (case find_outbox outboxID (ms_outbox s) of
        None \<Rightarrow> (Inl Jobs_ErrNotFound, s)
      | Some ob \<Rightarrow>
          (Inr (),
           if ob_Status ob = OutboxStatusPending
           then s\<lparr>ms_outbox := upd_outbox outboxID
                    (\<lambda>ob. ob\<lparr>ob_Attempts := ob_Attempts ob + 1, ob_LastError := Some lastErr,
                             ob_UpdatedAt := me_now e\<rparr>) (ms_outbox s)\<rparr>
           else s))"

definition mem_Outbox :: "uuid \<Rightarrow> MemStore \<Rightarrow> jobs_error + BatchJobOutbox" where
  "mem_Outbox jobID s =
     (case find (\<lambda>ob. ob_JobID ob = jobID) (ms_outbox s) of
        None \<Rightarrow> Inl Jobs_ErrNotFound | Some ob \<Rightarrow> Inr ob)"

definition MemJobStore :: "(mem_env, MemStore) JobStore" where
  "MemJobStore =
     \<lparr>js_CreateWithItemsAndOutbox = mem_CreateWithItemsAndOutbox, js_Get = mem_Get, js_List = mem_List,
      js_Items = mem_Items, js_MarkJobRunning = mem_MarkJobRunning,
      js_RequeueRunningItems = mem_RequeueRunningItems,
      js_ClaimNextQueuedItem = mem_ClaimNextQueuedItem, js_UpdateItemTerminal = mem_UpdateItemTerminal,
      js_RecomputeAndUpdateJobStatus = mem_RecomputeAndUpdateJobStatus,
      js_PendingOutbox = mem_PendingOutbox, js_MarkOutboxPublished = mem_MarkOutboxPublished,
      js_MarkOutboxFailedAttempt = mem_MarkOutboxFailedAttempt\<rparr>"

subsection \<open>What a job store promises about items\<close>

text \<open>
  The abstract item table and its only steps: rows are added queued with no attempts; the running rows
  of a job in \<open>J\<close> go back to queued; a queued row with attempts left is started, one without is failed; a
  running (or queued) row gets a terminal status that \<open>ValidItemTransition\<close> allows.
\<close>

definition replace_item :: "BatchJobItem \<Rightarrow> BatchJobItem list \<Rightarrow> BatchJobItem list" where
  "replace_item it' its = map (\<lambda>x. if item_ID x = item_ID it' then it' else x) its"

inductive items_step :: "int \<Rightarrow> uuid set \<Rightarrow> BatchJobItem list \<Rightarrow> BatchJobItem list \<Rightarrow> bool" for M J where
  keep: "items_step M J its its"
| create: "distinct (map item_ID (its @ new)) \<Longrightarrow>
     \<forall>it \<in> set new. item_Status it = ItemStatusQueued \<and> item_Attempts it = 0 \<Longrightarrow> items_step M J its (its @ new)"
| requeue: "j \<in> J \<Longrightarrow> items_step M J its (map (\<lambda>it. if item_JobID it = j then requeue_item now it else it) its)"
| start: "it \<in> set its \<Longrightarrow> item_Status it = ItemStatusQueued \<Longrightarrow> item_Attempts it + 1 \<le> M \<Longrightarrow>
     items_step M J its (replace_item (start_item now it) its)"
| exhaust: "it \<in> set its \<Longrightarrow> item_Status it = ItemStatusQueued \<Longrightarrow> item_Attempts it + 1 > M \<Longrightarrow>
     items_step M J its (replace_item (exhaust_item now M it) its)"
| finish: "it \<in> set its \<Longrightarrow> item_terminal st \<Longrightarrow> ValidItemTransition (item_Status it) st \<Longrightarrow>
     items_step M J its (replace_item (terminal_item now st r e it) its)"

lemma item_op_fields [simp]:
  "item_ID (start_item now it) = item_ID it" "item_ID (exhaust_item now M it) = item_ID it"
  "item_ID (terminal_item now st r e it) = item_ID it" "item_ID (requeue_item now it) = item_ID it"
  "item_JobID (start_item now it) = item_JobID it" "item_JobID (exhaust_item now M it) = item_JobID it"
  "item_JobID (terminal_item now st r e it) = item_JobID it" "item_JobID (requeue_item now it) = item_JobID it"
  "item_Status (start_item now it) = ItemStatusRunning" "item_Status (exhaust_item now M it) = ItemStatusFailed"
  "item_Status (terminal_item now st r e it) = st"
  "item_Attempts (start_item now it) = item_Attempts it + 1"
  "item_Attempts (exhaust_item now M it) = item_Attempts it"
  "item_Attempts (terminal_item now st r e it) = item_Attempts it"
  "item_Attempts (requeue_item now it) = item_Attempts it"
  "item_Request (start_item now it) = item_Request it"
  by (simp_all add: start_item_def exhaust_item_def terminal_item_def requeue_item_def)

lemma map_ID_replace [simp]: "map item_ID (replace_item it' its) = map item_ID its"
  by (simp add: replace_item_def)

lemma set_replace:
  "distinct (map item_ID its) \<Longrightarrow> it \<in> set its \<Longrightarrow> item_ID it' = item_ID it \<Longrightarrow>
     set (replace_item it' its) = insert it' (set its - {it})"
  by (auto simp: replace_item_def distinct_map inj_on_def)

lemma items_step_distinct:
  "items_step M J its its' \<Longrightarrow> distinct (map item_ID its) \<Longrightarrow> distinct (map item_ID its')"
proof (induction rule: items_step.induct)
  case (requeue j its now)
  have "map item_ID (map (\<lambda>it. if item_JobID it = j then requeue_item now it else it) its) = map item_ID its"
    by simp
  with requeue show ?case by (simp only:)
qed simp_all

text \<open>A terminal row never changes.\<close>

lemma items_step_terminal:
  assumes "items_step M J its its'" and "distinct (map item_ID its)" and "x \<in> set its"
    and "item_terminal (item_Status x)"
  shows "x \<in> set its'"
  using assms
proof (cases rule: items_step.cases)
  case (requeue j now)
  have "requeue_item now x = x" using assms(4) by (auto simp: requeue_item_def item_terminal_def)
  with requeue assms(3) show ?thesis by (force simp: image_iff)
next
  case (start it now)
  have "x \<noteq> it" using start(3) assms(4) by (auto simp: item_terminal_def)
  then show ?thesis using start assms(2,3) by (simp add: set_replace)
next
  case (exhaust it now)
  have "x \<noteq> it" using exhaust(3) assms(4) by (auto simp: item_terminal_def)
  then show ?thesis using exhaust assms(2,3) by (simp add: set_replace)
next
  case (finish it st now r e)
  have "x \<noteq> it" using finish(4) assms(4) by (auto simp: item_terminal_def)
  then show ?thesis using finish assms(2,3) by (simp add: set_replace)
qed auto

text \<open>A row that is not queued stays so until its job's running items are requeued.\<close>

lemma items_step_taken:
  assumes "items_step M J its its'" and "distinct (map item_ID its)" and "x \<in> set its"
    and "item_Status x \<noteq> ItemStatusQueued" and "item_JobID x \<notin> J"
  shows "\<exists>x' \<in> set its'. item_ID x' = item_ID x \<and> item_JobID x' = item_JobID x \<and> item_Status x' \<noteq> ItemStatusQueued"
  using assms(1)
proof (cases rule: items_step.cases)
  case (requeue j now)
  then show ?thesis using assms(3-5) by (auto intro!: bexI [of _ x] simp: image_iff)
next
  case (start it now)
  then show ?thesis using assms(2-4) by (intro bexI [of _ x]) (auto simp: set_replace)
next
  case (exhaust it now)
  then show ?thesis using assms(2-4) by (intro bexI [of _ x]) (auto simp: set_replace)
next
  case (finish it st now r e)
  show ?thesis
  proof (cases "x = it")
    case True
    then show ?thesis using finish assms(2-4)
      by (intro bexI [of _ "terminal_item now st r e it"]) (auto simp: set_replace item_terminal_def)
  next
    case False
    then show ?thesis using finish assms(2-4) by (intro bexI [of _ x]) (auto simp: set_replace)
  qed
qed (use assms in auto)

text \<open>Attempts stay within the bound of the claims.\<close>

lemma items_step_attempts:
  assumes "items_step M J its its'" and "distinct (map item_ID its)"
    and "\<forall>x \<in> set its. 0 \<le> item_Attempts x \<and> item_Attempts x \<le> M" and "0 \<le> M"
  shows "\<forall>x \<in> set its'. 0 \<le> item_Attempts x \<and> item_Attempts x \<le> M"
  using assms
proof (cases rule: items_step.cases)
  case (start it now)
  with assms show ?thesis by (auto simp: set_replace)
next
  case (exhaust it now)
  with assms show ?thesis by (auto simp: set_replace)
next
  case (finish it st now r e)
  with assms show ?thesis by (auto simp: set_replace)
qed auto

subsection \<open>Executions of a store\<close>

datatype 'e job_event =
    JCreate 'e BatchJob "BatchJobItem list"
  | JMarkRunning 'e uuid
  | JRequeue 'e uuid
  | JClaim 'e uuid int
  | JUpdate 'e uuid ItemStatus string "string option"
  | JRecompute 'e uuid
  | JOutboxPublished 'e uuid
  | JOutboxFailed 'e uuid string

fun job_step :: "('e, 's) JobStore \<Rightarrow> 's \<Rightarrow> 'e job_event \<Rightarrow> 's" where
  "job_step st s (JCreate e job items) = snd (js_CreateWithItemsAndOutbox st e job items s)"
| "job_step st s (JMarkRunning e j) = snd (js_MarkJobRunning st e j s)"
| "job_step st s (JRequeue e j) = snd (js_RequeueRunningItems st e j s)"
| "job_step st s (JClaim e j M) = snd (js_ClaimNextQueuedItem st e j M s)"
| "job_step st s (JUpdate e i sta r m) = snd (js_UpdateItemTerminal st e i sta r m s)"
| "job_step st s (JRecompute e j) = snd (js_RecomputeAndUpdateJobStatus st e j s)"
| "job_step st s (JOutboxPublished e i) = snd (js_MarkOutboxPublished st e i s)"
| "job_step st s (JOutboxFailed e i m) = snd (js_MarkOutboxFailedAttempt st e i m s)"

abbreviation job_run :: "('e, 's) JobStore \<Rightarrow> 's \<Rightarrow> 'e job_event list \<Rightarrow> 's" where
  "job_run st \<equiv> foldl (job_step st)"

fun claims_with :: "int \<Rightarrow> 'e job_event \<Rightarrow> bool" where
  "claims_with M (JClaim e j M') \<longleftrightarrow> M' = M"
| "claims_with M _ \<longleftrightarrow> True"

text \<open>The jobs whose running items an event puts back to queued.\<close>

fun requeues :: "'e job_event \<Rightarrow> uuid set" where
  "requeues (JRequeue e j) = {j}"
| "requeues _ = {}"

text \<open>Every creation of a run draws ids that are new where it happens.\<close>

fun fresh_run ::
  "('e, 's) JobStore \<Rightarrow> ('s \<Rightarrow> 'e job_event \<Rightarrow> bool) \<Rightarrow> 's \<Rightarrow> 'e job_event list \<Rightarrow> bool" where
  "fresh_run st fr s [] \<longleftrightarrow> True"
| "fresh_run st fr s (ev # evs) \<longleftrightarrow> fr s ev \<and> fresh_run st fr (job_step st s ev) evs"

text \<open>
  The interface. \<open>items\<close> and \<open>jobs\<close> read the rows of a store, \<open>fresh\<close> says that the ids a creation
  draws are new, \<open>quiet\<close> that no other transaction holds item rows locked while an operation runs.
\<close>

locale job_store =
  fixes store :: "('e, 's) JobStore"
    and inv :: "'s \<Rightarrow> bool"
    and items :: "'s \<Rightarrow> BatchJobItem list"
    and jobs :: "'s \<Rightarrow> BatchJob list"
    and fresh :: "'s \<Rightarrow> 'e job_event \<Rightarrow> bool"
    and quiet :: "'e \<Rightarrow> bool"
  assumes inv_distinct: "inv s \<Longrightarrow> distinct (map item_ID (items s))"
    and step_inv: "inv s \<Longrightarrow> fresh s ev \<Longrightarrow> inv (job_step store s ev)"
    and step_items: "inv s \<Longrightarrow> fresh s ev \<Longrightarrow> claims_with M ev \<Longrightarrow>
      items_step M (requeues ev) (items s) (items (job_step store s ev))"
    and fresh_other: "(\<And>e job its. ev \<noteq> JCreate e job its) \<Longrightarrow> fresh s ev"
    and mark_items: "items (snd (js_MarkJobRunning store e j s)) = items s"
    and mark_missing: "js_MarkJobRunning store e j s = (Inl Jobs_ErrNotFound, s') \<Longrightarrow>
      s' = s \<and> (\<forall>job \<in> set (jobs s). job_ID job \<noteq> j)"
    and requeue_ok: "inv s \<Longrightarrow> js_RequeueRunningItems store e j s = (Inr n, s') \<Longrightarrow> \<exists>now.
      items s' = map (\<lambda>it. if item_JobID it = j then requeue_item now it else it) (items s)"
    and claim_none: "inv s \<Longrightarrow> js_ClaimNextQueuedItem store e j M s = (Inr res, s') \<Longrightarrow>
      cr_Outcome res = ClaimNone \<Longrightarrow> items s' = items s"
    and claim_none_quiet: "inv s \<Longrightarrow> quiet e \<Longrightarrow> js_ClaimNextQueuedItem store e j M s = (Inr res, s') \<Longrightarrow>
      cr_Outcome res = ClaimNone \<Longrightarrow> (\<forall>it \<in> set (items s). item_JobID it = j \<longrightarrow> item_Status it \<noteq> ItemStatusQueued)"
    and claim_claimed: "inv s \<Longrightarrow> js_ClaimNextQueuedItem store e j M s = (Inr res, s') \<Longrightarrow>
      cr_Outcome res = ClaimClaimed \<Longrightarrow> \<exists>it now. it \<in> set (items s) \<and> item_JobID it = j
        \<and> item_Status it = ItemStatusQueued \<and> item_Attempts it + 1 \<le> M \<and> cr_Item res = Some (start_item now it)
        \<and> items s' = replace_item (start_item now it) (items s)"
    and claim_exhausted: "inv s \<Longrightarrow> js_ClaimNextQueuedItem store e j M s = (Inr res, s') \<Longrightarrow>
      cr_Outcome res = ClaimExhausted \<Longrightarrow> \<exists>it now. it \<in> set (items s) \<and> item_JobID it = j
        \<and> item_Status it = ItemStatusQueued \<and> item_Attempts it + 1 > M \<and> cr_Item res = Some (exhaust_item now M it)
        \<and> items s' = replace_item (exhaust_item now M it) (items s)"
    and update_ok: "inv s \<Longrightarrow> js_UpdateItemTerminal store e i sta r m s = (Inr (), s') \<Longrightarrow>
      item_terminal sta \<and> (\<exists>it now r'. it \<in> set (items s) \<and> item_ID it = i
        \<and> items s' = replace_item (terminal_item now sta r' m it) (items s))"
    and update_missing: "inv s \<Longrightarrow> js_UpdateItemTerminal store e i sta r m s = (Inl Jobs_ErrNotFound, s') \<Longrightarrow>
      items s' = items s \<and> (\<forall>it \<in> set (items s). item_ID it = i \<longrightarrow> item_Status it \<noteq> ItemStatusRunning)"
    and recompute_ok: "inv s \<Longrightarrow> js_RecomputeAndUpdateJobStatus store e j s = (Inr jst, s') \<Longrightarrow>
      items s' = items s
      \<and> jst = AggregateJobStatus (length (filter (\<lambda>it. item_JobID it = j) (items s)))
                (count_status ItemStatusSucceeded (filter (\<lambda>it. item_JobID it = j) (items s)))
                (count_status ItemStatusFailed (filter (\<lambda>it. item_JobID it = j) (items s)))
      \<and> (\<exists>job \<in> set (jobs s'). job_ID job = j \<and> job_Status job = jst)"
    and recompute_missing: "js_RecomputeAndUpdateJobStatus store e j s = (Inl Jobs_ErrNotFound, s') \<Longrightarrow>
      s' = s \<and> (\<forall>job \<in> set (jobs s). job_ID job \<noteq> j)"
begin

lemma run_inv: "inv s \<Longrightarrow> fresh_run store fresh s evs \<Longrightarrow> inv (job_run store s evs)"
  by (induction evs arbitrary: s) (auto simp: step_inv)

lemma run_terminal:
  "inv s \<Longrightarrow> fresh_run store fresh s evs \<Longrightarrow> it \<in> set (items s) \<Longrightarrow> item_terminal (item_Status it) \<Longrightarrow>
     it \<in> set (items (job_run store s evs))"
proof (induction evs arbitrary: s)
  case (Cons ev evs)
  obtain M where "claims_with M ev" by (cases ev) auto
  with Cons.prems have "items_step M (requeues ev) (items s) (items (job_step store s ev))" by (simp add: step_items)
  then have "it \<in> set (items (job_step store s ev))"
    using inv_distinct [OF Cons.prems(1)] Cons.prems(3,4) by (rule items_step_terminal)
  moreover have "inv (job_step store s ev)" using Cons.prems by (simp add: step_inv)
  ultimately show ?case using Cons.IH [of "job_step store s ev"] Cons.prems(2,4) by simp
qed simp

lemma run_taken:
  "inv s \<Longrightarrow> fresh_run store fresh s evs \<Longrightarrow> x \<in> set (items s) \<Longrightarrow> item_Status x \<noteq> ItemStatusQueued \<Longrightarrow>
     \<forall>ev \<in> set evs. item_JobID x \<notin> requeues ev \<Longrightarrow>
     \<exists>x' \<in> set (items (job_run store s evs)). item_ID x' = item_ID x \<and> item_Status x' \<noteq> ItemStatusQueued"
proof (induction evs arbitrary: s x)
  case (Cons ev evs)
  obtain M where "claims_with M ev" by (cases ev) auto
  with Cons.prems have "items_step M (requeues ev) (items s) (items (job_step store s ev))" by (simp add: step_items)
  from items_step_taken [OF this inv_distinct [OF Cons.prems(1)] Cons.prems(3,4)] Cons.prems(5)
  obtain y where y: "y \<in> set (items (job_step store s ev))" "item_ID y = item_ID x" "item_JobID y = item_JobID x"
    "item_Status y \<noteq> ItemStatusQueued" by auto
  have "inv (job_step store s ev)" "fresh_run store fresh (job_step store s ev) evs"
    "\<forall>ev \<in> set evs. item_JobID y \<notin> requeues ev"
    using Cons.prems y(3) by (simp_all add: step_inv)
  from Cons.IH [OF this(1,2) y(1,4) this(3)] y(2) show ?case by simp
qed auto

text \<open>A claim that hands out an item excludes every other claim of it until a requeue.\<close>

lemma claim_exclusive:
  assumes "inv s" and "js_ClaimNextQueuedItem store e j M s = (Inr res, s1)" and "cr_Item res = Some it"
    and "cr_Outcome res = ClaimClaimed" and "fresh_run store fresh s1 evs" and "\<forall>ev \<in> set evs. j \<notin> requeues ev"
    and "js_ClaimNextQueuedItem store e' j' M' (job_run store s1 evs) = (Inr res', s2)"
    and "cr_Item res' = Some it'" and "cr_Outcome res' = ClaimClaimed"
  shows "item_ID it' \<noteq> item_ID it"
proof -
  have "fresh s (JClaim e j M)" by (simp add: fresh_other)
  from step_inv [OF assms(1) this] have inv1: "inv s1" using assms(2) by simp
  have inv2: "inv (job_run store s1 evs)" by (rule run_inv [OF inv1 assms(5)])
  from claim_claimed [OF assms(1,2,4)] obtain x now where x: "x \<in> set (items s)" "item_JobID x = j"
    "cr_Item res = Some (start_item now x)" "items s1 = replace_item (start_item now x) (items s)" by blast
  have "start_item now x \<in> set (items s1)" using x inv_distinct [OF assms(1)] by (simp add: set_replace)
  from run_taken [OF inv1 assms(5) this] assms(3,6) x(2,3)
  obtain y where y: "y \<in> set (items (job_run store s1 evs))" "item_ID y = item_ID it" "item_Status y \<noteq> ItemStatusQueued"
    by auto
  from claim_claimed [OF inv2 assms(7,9)] obtain z now' where z: "z \<in> set (items (job_run store s1 evs))"
    "item_Status z = ItemStatusQueued" "cr_Item res' = Some (start_item now' z)" by blast
  have "z \<noteq> y" using y(3) z(2) by auto
  then have "item_ID z \<noteq> item_ID y" using inv_distinct [OF inv2] y(1) z(1) by (auto simp: distinct_map inj_on_def)
  then show ?thesis using y(2) z(3) assms(8) by auto
qed

lemma run_attempts:
  "inv s \<Longrightarrow> fresh_run store fresh s evs \<Longrightarrow> list_all (claims_with M) evs \<Longrightarrow> 0 \<le> M \<Longrightarrow>
     \<forall>it \<in> set (items s). 0 \<le> item_Attempts it \<and> item_Attempts it \<le> M \<Longrightarrow>
     \<forall>it \<in> set (items (job_run store s evs)). 0 \<le> item_Attempts it \<and> item_Attempts it \<le> M"
proof (induction evs arbitrary: s)
  case (Cons ev evs)
  then have "items_step M (requeues ev) (items s) (items (job_step store s ev))" by (simp add: step_items)
  then have "\<forall>it \<in> set (items (job_step store s ev)). 0 \<le> item_Attempts it \<and> item_Attempts it \<le> M"
    using inv_distinct [OF Cons.prems(1)] Cons.prems(5,4) by (rule items_step_attempts)
  moreover have "inv (job_step store s ev)" using Cons.prems by (simp add: step_inv)
  ultimately show ?case using Cons.IH [of "job_step store s ev"] Cons.prems(2-4) by simp
qed simp

end

subsection \<open>MemStore keeps the promises\<close>

abbreviation mem_all_items :: "MemStore \<Rightarrow> BatchJobItem list" where
  "mem_all_items s \<equiv> concat (map snd (ms_items s))"

definition mem_inv :: "MemStore \<Rightarrow> bool" where
  [inv_defs]: "mem_inv s \<longleftrightarrow>
     distinct (map fst (ms_items s)) \<and> distinct (map item_ID (mem_all_items s))
     \<and> (\<forall>(k, l) \<in> set (ms_items s). \<forall>it \<in> set l. item_JobID it = k)
     \<and> distinct (map job_ID (ms_jobs s))
     \<and> (\<forall>job \<in> set (ms_jobs s). job_TotalItems job = length (items_of (job_ID job) (ms_items s)))"

fun mem_fresh :: "MemStore \<Rightarrow> mem_env job_event \<Rightarrow> bool" where
  "mem_fresh s (JCreate e job items) \<longleftrightarrow>
     me_new e 0 \<notin> fst ` set (ms_items s) \<and> me_new e 0 \<notin> job_ID ` set (ms_jobs s)
     \<and> distinct (map (\<lambda>k. me_new e (Suc k)) [0..<length items])
     \<and> (\<forall>k < length items. me_new e (Suc k) \<notin> item_ID ` set (mem_all_items s))"
| "mem_fresh s _ \<longleftrightarrow> True"

lemma filter_job_items:
  assumes "distinct (map fst its)" and "\<forall>(k, l) \<in> set its. \<forall>it \<in> set l. item_JobID it = k"
  shows "filter (\<lambda>it. item_JobID it = j) (concat (map snd its)) = items_of j its"
  using assms
proof (induction its)
  case Nil
  then show ?case by (simp add: items_of_def)
next
  case (Cons p its)
  obtain k l where p: "p = (k, l)" by fastforce
  have l: "filter (\<lambda>it. item_JobID it = j) l = (if k = j then l else [])"
    using Cons.prems(2) p by (auto simp: filter_id_conv filter_empty_conv)
  have "items_of j its = []" if "k = j"
    using Cons.prems(1) p that map_of_eq_None_iff [of its j] by (simp add: items_of_def)
  then show ?case using Cons l p by (auto simp: items_of_def)
qed

lemma mem_items_of:
  "mem_inv s \<Longrightarrow> items_of j (ms_items s) = filter (\<lambda>it. item_JobID it = j) (mem_all_items s)"
  by (rule filter_job_items [symmetric]) (auto simp: mem_inv_def)

lemma concat_upd_items:
  assumes "\<forall>(k, l) \<in> set its. \<forall>it \<in> set l. item_JobID it = k"
  shows "concat (map snd (upd_items j (map f) its)) =
     map (\<lambda>it. if item_JobID it = j then f it else it) (concat (map snd its))"
  using assms
proof (induction its)
  case (Cons p its)
  obtain k l where p: "p = (k, l)" by fastforce
  have "(if k = j then map f l else l) = map (\<lambda>it. if item_JobID it = j then f it else it) l"
    using Cons.prems p by (auto intro: map_idI [symmetric] map_cong)
  then show ?case using Cons p by (simp add: upd_items_def)
qed (simp add: upd_items_def)

lemma claim_scan_cases:
  obtains (none) "claim_scan now M its = (\<lparr>cr_Outcome = ClaimNone, cr_Item = None\<rparr>, its)"
      "\<forall>it \<in> set its. item_Status it \<noteq> ItemStatusQueued"
    | (exhausted) it where "it \<in> set its" "item_Status it = ItemStatusQueued" "item_Attempts it + 1 > M"
      "fst (claim_scan now M its) = \<lparr>cr_Outcome = ClaimExhausted, cr_Item = Some (exhaust_item now M it)\<rparr>"
      "distinct (map item_ID its) \<Longrightarrow> snd (claim_scan now M its) = replace_item (exhaust_item now M it) its"
    | (claimed) it where "it \<in> set its" "item_Status it = ItemStatusQueued" "item_Attempts it + 1 \<le> M"
      "fst (claim_scan now M its) = \<lparr>cr_Outcome = ClaimClaimed, cr_Item = Some (start_item now it)\<rparr>"
      "distinct (map item_ID its) \<Longrightarrow> snd (claim_scan now M its) = replace_item (start_item now it) its"
proof (induction its arbitrary: thesis)
  case Nil
  then show ?case by simp
next
  case (Cons x xs)
  have skip: "replace_item y xs = xs" if "item_ID y \<notin> item_ID ` set xs" for y
    using that by (auto simp: replace_item_def image_iff intro!: map_idI)
  show ?case
  proof (cases "item_Status x = ItemStatusQueued")
    case True
    then show ?thesis
      using Cons.prems(2) [of x] Cons.prems(3) [of x] skip [of "exhaust_item now M x"] skip [of "start_item now x"]
      by (cases "item_Attempts x + 1 > M") (auto simp: Let_def replace_item_def)
  next
    case False
    obtain res its' where cs: "claim_scan now M xs = (res, its')" by fastforce
    show ?thesis
    proof (rule Cons.IH)
      assume "claim_scan now M xs = (\<lparr>cr_Outcome = ClaimNone, cr_Item = None\<rparr>, xs)"
        "\<forall>it \<in> set xs. item_Status it \<noteq> ItemStatusQueued"
      then show ?thesis using False Cons.prems(1) by simp
    next
      fix it
      assume it: "it \<in> set xs" "item_Status it = ItemStatusQueued" "item_Attempts it + 1 > M"
        "fst (claim_scan now M xs) = \<lparr>cr_Outcome = ClaimExhausted, cr_Item = Some (exhaust_item now M it)\<rparr>"
        "distinct (map item_ID xs) \<Longrightarrow> snd (claim_scan now M xs) = replace_item (exhaust_item now M it) xs"
      show ?thesis
        using False it cs by (intro Cons.prems(2) [of it]) (auto simp: replace_item_def image_iff)
    next
      fix it
      assume it: "it \<in> set xs" "item_Status it = ItemStatusQueued" "item_Attempts it + 1 \<le> M"
        "fst (claim_scan now M xs) = \<lparr>cr_Outcome = ClaimClaimed, cr_Item = Some (start_item now it)\<rparr>"
        "distinct (map item_ID xs) \<Longrightarrow> snd (claim_scan now M xs) = replace_item (start_item now it) xs"
      show ?thesis
        using False it cs by (intro Cons.prems(3) [of it]) (auto simp: replace_item_def image_iff)
    qed
  qed
qed

lemma mem_claim_items:
  assumes "mem_inv s"
  shows "mem_all_items (snd (mem_ClaimNextQueuedItem e j M s)) =
     (case cr_Item (fst (claim_scan (me_now e) M (items_of j (ms_items s)))) of
        None \<Rightarrow> mem_all_items s
      | Some it' \<Rightarrow> replace_item it' (mem_all_items s))"
proof -
  have gen: "concat (map snd (upd_items j (\<lambda>l. snd (claim_scan now M l)) its)) =
     (case cr_Item (fst (claim_scan now M (items_of j its))) of
        None \<Rightarrow> concat (map snd its) | Some it' \<Rightarrow> replace_item it' (concat (map snd its)))"
    if "distinct (map fst its)" "distinct (map item_ID (concat (map snd its)))" for now its
    using that
  proof (induction its)
    case Nil
    then show ?case by (simp add: upd_items_def items_of_def)
  next
    case (Cons p its)
    obtain k l where p: "p = (k, l)" by fastforce
    have skip: "replace_item y xs = xs" if "item_ID y \<notin> item_ID ` set xs" for y xs
      using that by (auto simp: replace_item_def image_iff intro!: map_idI)
    have other: "upd_items j f its = its" if "k = j" for f
      using that Cons.prems(1) p by (force simp: upd_items_def intro!: map_idI)
    have dl: "distinct (map item_ID l)" using Cons.prems(2) p by simp
    have app: "replace_item y (xs @ ys) = replace_item y xs @ replace_item y ys" for y xs ys
      by (simp add: replace_item_def)
    show ?case
    proof (cases "k = j")
      case True
      have io: "items_of j (p # its) = l" using p True by (simp add: items_of_def)
      show ?thesis
      proof (cases rule: claim_scan_cases [of now M l])
        case none
        then show ?thesis using p True other io by (simp add: upd_items_def)
      next
        case (exhausted it)
        have "item_ID it \<notin> item_ID ` set (concat (map snd its))" using exhausted(1) Cons.prems(2) p by auto
        then show ?thesis using p True other io exhausted(4,5) dl skip app by (simp add: upd_items_def)
      next
        case (claimed it)
        have "item_ID it \<notin> item_ID ` set (concat (map snd its))" using claimed(1) Cons.prems(2) p by auto
        then show ?thesis using p True other io claimed(4,5) dl skip app by (simp add: upd_items_def)
      qed
    next
      case False
      have io: "items_of j (p # its) = items_of j its" using p False by (simp add: items_of_def)
      have sub: "set (items_of j its) \<subseteq> set (concat (map snd its))"
        by (cases "map_of its j") (auto simp: items_of_def dest: map_of_SomeD)
      have ih: "concat (map snd (upd_items j (\<lambda>l. snd (claim_scan now M l)) its)) =
         (case cr_Item (fst (claim_scan now M (items_of j its))) of
            None \<Rightarrow> concat (map snd its) | Some it' \<Rightarrow> replace_item it' (concat (map snd its)))"
        using Cons by simp
      have nl: "item_ID x \<notin> item_ID ` set l" if "x \<in> set (items_of j its)" for x
        using that sub Cons.prems(2) p by auto
      show ?thesis
      proof (cases rule: claim_scan_cases [of now M "items_of j its"])
        case none
        then show ?thesis using ih io p False by (simp add: upd_items_def)
      next
        case (exhausted it)
        then show ?thesis using ih io p False nl [OF exhausted(1)] skip app by (simp add: upd_items_def)
      next
        case (claimed it)
        then show ?thesis using ih io p False nl [OF claimed(1)] skip app by (simp add: upd_items_def)
      qed
    qed
  qed
  show ?thesis using gen assms by (simp add: mem_ClaimNextQueuedItem_def mem_inv_def)
qed

text \<open>Operations that rewrite the item lists row by row keep the invariant.\<close>

lemma mem_inv_rewrite:
  assumes "mem_inv s" and "ms_items s' = map (\<lambda>(k, l). (k, g k l)) (ms_items s)"
    and ids: "\<And>k l. map item_ID (g k l) = map item_ID l"
    and jobids: "\<And>k l. map item_JobID (g k l) = map item_JobID l"
    and jobs: "map (\<lambda>j. (job_ID j, job_TotalItems j)) (ms_jobs s') = map (\<lambda>j. (job_ID j, job_TotalItems j)) (ms_jobs s)"
  shows "mem_inv s'"
proof -
  have len: "length (g k l) = length l" for k l using arg_cong [OF ids, of length] by simp
  have of: "length (items_of i (map (\<lambda>(k, l). (k, g k l)) its)) = length (items_of i its)" for i its
    by (induction its) (auto simp: items_of_def len)
  have "map job_ID (ms_jobs s') = map job_ID (ms_jobs s)"
    using arg_cong [OF jobs, of "map fst"] by (simp add: comp_def)
  moreover have "job_TotalItems job = length (items_of (job_ID job) (ms_items s'))" if "job \<in> set (ms_jobs s')" for job
  proof -
    have "(job_ID job, job_TotalItems job) \<in> set (map (\<lambda>j. (job_ID j, job_TotalItems j)) (ms_jobs s))"
      using that unfolding jobs [symmetric] by simp
    then show ?thesis using assms(1) of unfolding assms(2) by (auto simp: mem_inv_def)
  qed
  moreover have "map item_ID (concat (map snd (ms_items s'))) = map item_ID (mem_all_items s)"
    unfolding assms(2) by (simp add: map_concat comp_def case_prod_unfold ids)
  moreover have "item_JobID it = k" if "(k, l) \<in> set (ms_items s)" "it \<in> set (g k l)" for k l it
  proof -
    have "item_JobID it \<in> set (map item_JobID l)" using that(2) unfolding jobids [of k l, symmetric] by simp
    then show ?thesis using that(1) assms(1) by (auto simp: mem_inv_def)
  qed
  moreover have "map fst (ms_items s') = map fst (ms_items s)" unfolding assms(2) by auto
  moreover have "\<forall>(k, l) \<in> set (ms_items s'). \<forall>it \<in> set l. item_JobID it = k"
    using calculation(4) unfolding assms(2) by auto
  ultimately show ?thesis using assms(1) unfolding mem_inv_def by (simp only: simp_thms) blast
qed

lemma claim_scan_list:
  "map item_ID (snd (claim_scan now M its)) = map item_ID its"
  "map item_JobID (snd (claim_scan now M its)) = map item_JobID its"
  by (induction its) (auto simp: Let_def case_prod_unfold)

lemma upd_items_rewrite: "upd_items j f its = map (\<lambda>(k, l). (k, if k = j then f l else l)) its"
  by (simp add: upd_items_def)

lemma mem_claim_inv: "mem_inv s \<Longrightarrow> mem_inv (snd (mem_ClaimNextQueuedItem e j M s))"
  by (rule mem_inv_rewrite [where s = s and g = "\<lambda>k l. if k = j then snd (claim_scan (me_now e) M l) else l"])
    (simp_all add: mem_ClaimNextQueuedItem_def upd_items_rewrite claim_scan_list)

lemma mem_requeue_inv: "mem_inv s \<Longrightarrow> mem_inv (snd (mem_RequeueRunningItems e j s))"
  by (rule mem_inv_rewrite [where s = s and g = "\<lambda>k l. if k = j then map (requeue_item (me_now e)) l else l"])
    (simp_all add: mem_RequeueRunningItems_def upd_items_rewrite)

lemma mem_inv_items:
  "mem_inv s \<Longrightarrow> (\<And>x. item_ID (f x) = item_ID x \<and> item_JobID (f x) = item_JobID x) \<Longrightarrow>
     mem_inv (s\<lparr>ms_items := map (\<lambda>(k, l). (k, map f l)) (ms_items s)\<rparr>)"
  by (rule mem_inv_rewrite [where s = s and g = "\<lambda>k l. map f l"]) simp_all

lemma mem_update_inv: "mem_inv s \<Longrightarrow> mem_inv (snd (mem_UpdateItemTerminal e i sta r m s))"
  unfolding mem_UpdateItemTerminal_def by (auto split: option.splits intro!: mem_inv_items)

lemma mem_jobs_inv:
  assumes "mem_inv s" and "ms_items s' = ms_items s"
    and "map (\<lambda>j. (job_ID j, job_TotalItems j)) (ms_jobs s') = map (\<lambda>j. (job_ID j, job_TotalItems j)) (ms_jobs s)"
  shows "mem_inv s'"
  by (rule mem_inv_rewrite [where s = s and g = "\<lambda>_ l. l"]) (use assms in simp_all)

lemma mem_mark_inv: "mem_inv s \<Longrightarrow> mem_inv (snd (mem_MarkJobRunning e j s))"
  by (rule mem_jobs_inv [where s = s])
    (auto simp: mem_MarkJobRunning_def upd_job_def split: option.splits)

lemma mem_recompute_inv: "mem_inv s \<Longrightarrow> mem_inv (snd (mem_RecomputeAndUpdateJobStatus e j s))"
  by (rule mem_jobs_inv [where s = s])
    (auto simp: mem_RecomputeAndUpdateJobStatus_def Let_def upd_job_def split: option.splits)

lemma mem_outbox_inv:
  "mem_inv s \<Longrightarrow> mem_inv (snd (mem_MarkOutboxPublished e i s))"
  "mem_inv s \<Longrightarrow> mem_inv (snd (mem_MarkOutboxFailedAttempt e i m s))"
  by (rule mem_jobs_inv [where s = s];
      auto simp: mem_MarkOutboxPublished_def mem_MarkOutboxFailedAttempt_def split: option.splits)+

lemma mem_create_items:
  assumes "mem_fresh s (JCreate e job its)"
  obtains new where
    "ms_items (snd (mem_CreateWithItemsAndOutbox e job its s)) = ms_items s @ [(me_new e 0, new)]"
    "map item_ID new = map (\<lambda>k. me_new e (Suc k)) [0..<length its]"
    "\<And>it. it \<in> set new \<Longrightarrow> item_Status it = ItemStatusQueued \<and> item_Attempts it = 0 \<and> item_JobID it = me_new e 0"
proof -
  let ?new = "map (\<lambda>(k, it). it\<lparr>item_ID := me_new e (Suc k), item_JobID := me_new e 0,
                            item_Status := ItemStatusQueued, item_Attempts := 0,
                            item_CreatedAt := me_now e, item_UpdatedAt := me_now e\<rparr>)
                     (zip [0..<length its] its)"
  have "me_new e 0 \<notin> fst ` set (ms_items s)" using assms by simp
  then have "fst p \<noteq> me_new e 0" if "p \<in> set (ms_items s)" for p using that by (metis imageI)
  then have "filter (\<lambda>(k, _). k \<noteq> me_new e 0) (ms_items s) = ms_items s"
    by (simp add: filter_id_conv case_prod_unfold)
  then have "ms_items (snd (mem_CreateWithItemsAndOutbox e job its s)) = ms_items s @ [(me_new e 0, ?new)]"
    by (simp add: mem_CreateWithItemsAndOutbox_def Let_def put_items_def)
  moreover have "map item_ID ?new = map (\<lambda>k. me_new e (Suc k)) [0..<length its]"
    by (rule nth_equalityI) simp_all
  moreover have "item_Status it = ItemStatusQueued \<and> item_Attempts it = 0 \<and> item_JobID it = me_new e 0"
    if "it \<in> set ?new" for it using that by auto
  ultimately show thesis by (rule that)
qed

lemma mem_create_distinct:
  assumes "mem_inv s" and "mem_fresh s (JCreate e job its)"
    and "map item_ID new = map (\<lambda>k. me_new e (Suc k)) [0..<length its]"
  shows "distinct (map item_ID (mem_all_items s @ new))"
proof -
  have "item_ID ` set new = set (map (\<lambda>k. me_new e (Suc k)) [0..<length its])"
    unfolding assms(3) [symmetric] by simp
  moreover have "me_new e (Suc k) \<notin> item_ID ` set (mem_all_items s)" if "k < length its" for k
    using assms(2) that by (simp only: mem_fresh.simps simp_thms)
  ultimately have "item_ID ` set (mem_all_items s) \<inter> item_ID ` set new = {}"
    by (metis (no_types, lifting) atLeastLessThan_iff disjoint_iff imageE set_map set_upt)
  moreover have "distinct (map item_ID new)" using assms(2) unfolding assms(3) by simp
  moreover have "distinct (map item_ID (mem_all_items s))" using assms(1) by (simp add: mem_inv_def)
  ultimately show ?thesis by (simp only: map_append distinct_append set_map simp_thms)
qed

lemma mem_create_inv:
  assumes "mem_inv s" and "mem_fresh s (JCreate e job its)"
  shows "mem_inv (snd (mem_CreateWithItemsAndOutbox e job its s))"
proof -
  let ?s' = "snd (mem_CreateWithItemsAndOutbox e job its s)" and ?i = "me_new e 0"
  obtain new where c: "ms_items ?s' = ms_items s @ [(?i, new)]"
    "map item_ID new = map (\<lambda>k. me_new e (Suc k)) [0..<length its]"
    "\<And>it. it \<in> set new \<Longrightarrow> item_JobID it = ?i"
    using mem_create_items [OF assms(2)] by metis
  have fi: "?i \<notin> fst ` set (ms_items s)" and fj: "?i \<notin> job_ID ` set (ms_jobs s)" using assms(2) by simp_all
  have "job_ID x \<noteq> ?i" if "x \<in> set (ms_jobs s)" for x using that fj by (metis imageI)
  then obtain job' where job: "ms_jobs ?s' = ms_jobs s @ [job']" "job_ID job' = ?i" "job_TotalItems job' = length its"
    by (simp add: mem_CreateWithItemsAndOutbox_def Let_def put_job_def filter_id_conv)
  have old: "items_of j (ms_items s @ [(?i, new)]) = items_of j (ms_items s)" if "j \<noteq> ?i" for j
    using that by (cases "map_of (ms_items s) j") (auto simp: items_of_def map_add_def)
  have new: "items_of ?i (ms_items s @ [(?i, new)]) = new"
    using fi map_of_eq_None_iff [of "ms_items s" ?i] by (simp add: items_of_def map_add_def)
  have len: "length new = length its" using arg_cong [OF c(2), of length] by simp
  have tot: "job_TotalItems x = length (items_of (job_ID x) (ms_items ?s'))" if "x \<in> set (ms_jobs ?s')" for x
  proof (cases "x \<in> set (ms_jobs s)")
    case True
    then have "job_ID x \<noteq> ?i" using fj by (metis imageI)
    then show ?thesis using True assms(1) old by (simp add: c(1) mem_inv_def)
  next
    case False
    then show ?thesis using that job new len by (simp add: c(1))
  qed
  show ?thesis
    using assms(1) mem_create_distinct [OF assms c(2)] tot fi fj job c(3) unfolding mem_inv_def c(1) by auto
qed

lemma mem_step_inv: "mem_inv s \<Longrightarrow> mem_fresh s ev \<Longrightarrow> mem_inv (job_step MemJobStore s ev)"
  by (cases ev) (simp_all add: MemJobStore_def mem_create_inv mem_mark_inv mem_requeue_inv mem_claim_inv
      mem_update_inv mem_recompute_inv mem_outbox_inv del: mem_fresh.simps)

lemma mem_claim_spec:
  assumes "mem_inv s" and "mem_ClaimNextQueuedItem e j M s = (res, s')"
  obtains (none) "res = Inr \<lparr>cr_Outcome = ClaimNone, cr_Item = None\<rparr>" "mem_all_items s' = mem_all_items s"
      "\<forall>it \<in> set (mem_all_items s). item_JobID it = j \<longrightarrow> item_Status it \<noteq> ItemStatusQueued"
    | (exhausted) it where "it \<in> set (mem_all_items s)" "item_JobID it = j" "item_Status it = ItemStatusQueued"
        "item_Attempts it + 1 > M"
        "res = Inr \<lparr>cr_Outcome = ClaimExhausted, cr_Item = Some (exhaust_item (me_now e) M it)\<rparr>"
        "mem_all_items s' = replace_item (exhaust_item (me_now e) M it) (mem_all_items s)"
    | (claimed) it where "it \<in> set (mem_all_items s)" "item_JobID it = j" "item_Status it = ItemStatusQueued"
        "item_Attempts it + 1 \<le> M"
        "res = Inr \<lparr>cr_Outcome = ClaimClaimed, cr_Item = Some (start_item (me_now e) it)\<rparr>"
        "mem_all_items s' = replace_item (start_item (me_now e) it) (mem_all_items s)"
proof -
  have s': "s' = snd (mem_ClaimNextQueuedItem e j M s)" and
    res: "res = Inr (fst (claim_scan (me_now e) M (items_of j (ms_items s))))"
    using assms(2) by (simp_all add: mem_ClaimNextQueuedItem_def)
  note all = mem_claim_items [OF assms(1), of e j M]
  have mem: "x \<in> set (items_of j (ms_items s)) \<longleftrightarrow> x \<in> set (mem_all_items s) \<and> item_JobID x = j" for x
    using mem_items_of [OF assms(1), of j] by simp
  show thesis
  proof (cases rule: claim_scan_cases [of "me_now e" M "items_of j (ms_items s)"])
    case none
    then show ?thesis using that(1) mem all s' res by auto
  next
    case (exhausted it)
    then show ?thesis using that(2) [of it] mem all s' res by simp
  next
    case (claimed it)
    then show ?thesis using that(3) [of it] mem all s' res by simp
  qed
qed

lemma mem_update_items:
  "mem_all_items (s\<lparr>ms_items := map (\<lambda>(k, l). (k, map f l)) (ms_items s)\<rparr>) = map f (mem_all_items s)"
  by (simp add: map_concat comp_def case_prod_unfold)

lemma replace_by_fun:
  "distinct (map item_ID its) \<Longrightarrow> it \<in> set its \<Longrightarrow> item_ID (f it) = item_ID it \<Longrightarrow>
     map (\<lambda>x. if item_ID x = item_ID it then f x else x) its = replace_item (f it) its"
  by (auto simp: replace_item_def distinct_map inj_on_def)

lemma mem_update_spec:
  assumes "mem_inv s" and "mem_UpdateItemTerminal e i sta r m s = (res, s')"
  obtains (ok) it r' where "res = Inr ()" "it \<in> set (mem_all_items s)" "item_ID it = i" "item_terminal sta"
      "ValidItemTransition (item_Status it) sta"
      "mem_all_items s' = replace_item (terminal_item (me_now e) sta r' m it) (mem_all_items s)"
    | (bad) "res = Inl (NotTerminalStatus sta)" "s' = s" "\<not> item_terminal sta"
    | (missing) "res = Inl Jobs_ErrNotFound" "s' = s"
      "\<forall>it \<in> set (mem_all_items s). item_ID it = i \<longrightarrow> item_Status it \<noteq> ItemStatusRunning"
proof (cases "item_terminal sta")
  case False
  then show thesis using assms(2) that(2) by (auto simp: mem_UpdateItemTerminal_def item_terminal_def)
next
  case True
  have d: "distinct (map item_ID (mem_all_items s))" using assms(1) by (simp add: mem_inv_def)
  show thesis
  proof (cases "find (\<lambda>it. item_ID it = i) (mem_all_items s)")
    case None
    then have no: "\<forall>it \<in> set (mem_all_items s). item_ID it \<noteq> i" by (auto simp: find_None_iff)
    have "res = Inl Jobs_ErrNotFound" "s' = s"
      using assms(2) True None by (auto simp: mem_UpdateItemTerminal_def item_terminal_def)
    then show thesis using no that(3) by blast
  next
    case (Some it)
    then have it: "it \<in> set (mem_all_items s)" "item_ID it = i" using find_SomeD [OF Some] by simp_all
    then have uniq: "\<forall>x \<in> set (mem_all_items s). item_ID x = i \<longrightarrow> x = it"
      using d by (auto simp: distinct_map inj_on_def)
    show thesis
    proof (cases "ValidItemTransition (item_Status it) sta")
      case False
      then have "item_Status it \<noteq> ItemStatusRunning" using True by (auto simp: item_terminal_def)
      moreover have "res = Inl Jobs_ErrNotFound" "s' = s"
        using assms(2) True Some False by (auto simp: mem_UpdateItemTerminal_def item_terminal_def)
      ultimately show thesis using uniq that(3) by blast
    next
      case valid: True
      let ?f = "terminal_item (me_now e) sta (if r = [] then None else Some r) m"
      have "res = Inr ()" and s': "s' = s\<lparr>ms_items := map (\<lambda>(k, l). (k, map (\<lambda>x. if item_ID x = i then ?f x else x) l)) (ms_items s)\<rparr>"
        using assms(2) True Some valid by (auto simp: mem_UpdateItemTerminal_def item_terminal_def)
      moreover have "mem_all_items s' = replace_item (?f it) (mem_all_items s)"
        unfolding s' mem_update_items using replace_by_fun [OF d it(1), of ?f] it(2) by simp
      ultimately show thesis using that(1) it True valid by blast
    qed
  qed
qed

lemma mem_same_items [simp]:
  "ms_items (snd (mem_MarkJobRunning e j s)) = ms_items s"
  "ms_items (snd (mem_RecomputeAndUpdateJobStatus e j s)) = ms_items s"
  "ms_items (snd (mem_MarkOutboxPublished e i s)) = ms_items s"
  "ms_items (snd (mem_MarkOutboxFailedAttempt e i m s)) = ms_items s"
  by (simp_all add: mem_MarkJobRunning_def mem_RecomputeAndUpdateJobStatus_def mem_MarkOutboxPublished_def
      mem_MarkOutboxFailedAttempt_def Let_def split: option.splits)

lemma mem_requeue_items:
  "mem_inv s \<Longrightarrow> mem_all_items (snd (mem_RequeueRunningItems e j s)) =
     map (\<lambda>it. if item_JobID it = j then requeue_item (me_now e) it else it) (mem_all_items s)"
  by (simp add: mem_RequeueRunningItems_def mem_inv_def concat_upd_items)

lemma mem_step_items:
  assumes "mem_inv s" and "mem_fresh s ev" and "claims_with M ev"
  shows "items_step M (requeues ev) (mem_all_items s) (mem_all_items (job_step MemJobStore s ev))"
proof (cases ev)
  case (JCreate e job its)
  with assms(2) have fr: "mem_fresh s (JCreate e job its)" by simp
  show ?thesis
  proof (rule mem_create_items [OF fr])
    fix new
    assume c: "ms_items (snd (mem_CreateWithItemsAndOutbox e job its s)) = ms_items s @ [(me_new e 0, new)]"
      "map item_ID new = map (\<lambda>k. me_new e (Suc k)) [0..<length its]"
      "\<And>it. it \<in> set new \<Longrightarrow> item_Status it = ItemStatusQueued \<and> item_Attempts it = 0 \<and> item_JobID it = me_new e 0"
    have "items_step M (requeues ev) (mem_all_items s) (mem_all_items s @ new)"
      using mem_create_distinct [OF assms(1) fr c(2)] c(3) by (intro items_step.create) auto
    then show ?thesis using JCreate c(1) by (simp add: MemJobStore_def)
  qed
next
  case (JRequeue e j)
  then show ?thesis using mem_requeue_items [OF assms(1)] by (simp add: MemJobStore_def items_step.requeue)
next
  case (JClaim e j M')
  have M: "M' = M" using assms(3) JClaim by simp
  obtain res s' where cl: "mem_ClaimNextQueuedItem e j M s = (res, s')" by fastforce
  then have "items_step M (requeues ev) (mem_all_items s) (mem_all_items s')"
    by (cases rule: mem_claim_spec [OF assms(1) cl])
      (simp_all only: items_step.keep items_step.exhaust items_step.start)
  then show ?thesis using JClaim cl M by (simp add: MemJobStore_def)
next
  case (JUpdate e i sta r m)
  obtain res s' where up: "mem_UpdateItemTerminal e i sta r m s = (res, s')" by fastforce
  then have "items_step M (requeues ev) (mem_all_items s) (mem_all_items s')"
    by (cases rule: mem_update_spec [OF assms(1) up]) (simp_all only: items_step.keep items_step.finish)
  then show ?thesis using JUpdate up by (simp add: MemJobStore_def)
qed (simp_all add: MemJobStore_def items_step.keep)

lemma mem_claim_law:
  assumes "mem_inv s" and "mem_ClaimNextQueuedItem e j M s = (Inr res, s')"
  shows "cr_Outcome res = ClaimNone \<Longrightarrow> mem_all_items s' = mem_all_items s
      \<and> (\<forall>it \<in> set (mem_all_items s). item_JobID it = j \<longrightarrow> item_Status it \<noteq> ItemStatusQueued)"
    and "cr_Outcome res = ClaimClaimed \<Longrightarrow> \<exists>it now. it \<in> set (mem_all_items s) \<and> item_JobID it = j
        \<and> item_Status it = ItemStatusQueued \<and> item_Attempts it + 1 \<le> M \<and> cr_Item res = Some (start_item now it)
        \<and> mem_all_items s' = replace_item (start_item now it) (mem_all_items s)"
    and "cr_Outcome res = ClaimExhausted \<Longrightarrow> \<exists>it now. it \<in> set (mem_all_items s) \<and> item_JobID it = j
        \<and> item_Status it = ItemStatusQueued \<and> item_Attempts it + 1 > M \<and> cr_Item res = Some (exhaust_item now M it)
        \<and> mem_all_items s' = replace_item (exhaust_item now M it) (mem_all_items s)"
  by (cases rule: mem_claim_spec [OF assms]; simp; blast)+

lemma mem_update_law:
  assumes "mem_inv s"
  shows "mem_UpdateItemTerminal e i sta r m s = (Inr (), s') \<Longrightarrow> item_terminal sta
      \<and> (\<exists>it now r'. it \<in> set (mem_all_items s) \<and> item_ID it = i
        \<and> mem_all_items s' = replace_item (terminal_item now sta r' m it) (mem_all_items s))"
    and "mem_UpdateItemTerminal e i sta r m s = (Inl Jobs_ErrNotFound, s') \<Longrightarrow> mem_all_items s' = mem_all_items s
      \<and> (\<forall>it \<in> set (mem_all_items s). item_ID it = i \<longrightarrow> item_Status it \<noteq> ItemStatusRunning)"
  using mem_update_spec [OF assms] by (blast, blast)

lemma upd_job_in:
  assumes "job \<in> set js" and "job_ID job = j"
  shows "\<exists>x \<in> set (upd_job j (\<lambda>j. j\<lparr>job_CompletedItems := a, job_FailedItems := b, job_Status := st,
      job_UpdatedAt := now\<rparr>) js). job_ID x = j \<and> job_Status x = st"
  unfolding upd_job_def set_map using assms by (intro bexI [OF _ imageI [OF assms(1)]]) simp_all

lemma mem_recompute_law:
  assumes "mem_inv s" and "mem_RecomputeAndUpdateJobStatus e j s = (Inr jst, s')"
  shows "mem_all_items s' = mem_all_items s
      \<and> jst = AggregateJobStatus (length (filter (\<lambda>it. item_JobID it = j) (mem_all_items s)))
                (count_status ItemStatusSucceeded (filter (\<lambda>it. item_JobID it = j) (mem_all_items s)))
                (count_status ItemStatusFailed (filter (\<lambda>it. item_JobID it = j) (mem_all_items s)))
      \<and> (\<exists>job \<in> set (ms_jobs s'). job_ID job = j \<and> job_Status job = jst)"
proof -
  obtain job where job: "find_job j (ms_jobs s) = Some job"
    using assms(2) by (auto simp: mem_RecomputeAndUpdateJobStatus_def split: option.splits)
  then have in_: "job \<in> set (ms_jobs s)" "job_ID job = j" using find_SomeD unfolding find_job_def by fast+
  then have "job_TotalItems job = length (items_of j (ms_items s))" using assms(1) by (auto simp: mem_inv_def)
  with assms(2) job in_ show ?thesis
    using upd_job_in [OF in_]
    by (auto simp: mem_RecomputeAndUpdateJobStatus_def Let_def mem_items_of [OF assms(1)])
qed

interpretation mem: job_store MemJobStore mem_inv "\<lambda>s. concat (map snd (ms_items s))" ms_jobs mem_fresh "\<lambda>_. True"
proof
  fix s s' :: MemStore and e :: mem_env and ev M i j sta jst r m n res
  show "mem_inv s \<Longrightarrow> distinct (map item_ID (mem_all_items s))" by (simp add: mem_inv_def)
  show "mem_inv s \<Longrightarrow> mem_fresh s ev \<Longrightarrow> mem_inv (job_step MemJobStore s ev)" by (rule mem_step_inv)
  show "mem_inv s \<Longrightarrow> mem_fresh s ev \<Longrightarrow> claims_with M ev \<Longrightarrow>
      items_step M (requeues ev) (mem_all_items s) (mem_all_items (job_step MemJobStore s ev))" by (rule mem_step_items)
  show "(\<And>e job its. ev \<noteq> JCreate e job its) \<Longrightarrow> mem_fresh s ev" by (cases ev) auto
  show "mem_all_items (snd (js_MarkJobRunning MemJobStore e j s)) = mem_all_items s" by (simp add: MemJobStore_def)
  show "js_MarkJobRunning MemJobStore e j s = (Inl Jobs_ErrNotFound, s') \<Longrightarrow>
      s' = s \<and> (\<forall>job \<in> set (ms_jobs s). job_ID job \<noteq> j)"
    by (auto simp: MemJobStore_def mem_MarkJobRunning_def find_job_def find_None_iff split: option.splits)
  show "mem_inv s \<Longrightarrow> js_RequeueRunningItems MemJobStore e j s = (Inr n, s') \<Longrightarrow> \<exists>now. mem_all_items s' =
      map (\<lambda>it. if item_JobID it = j then requeue_item now it else it) (mem_all_items s)"
    using mem_requeue_items [of s e j] by (auto simp: MemJobStore_def)
  show "mem_inv s \<Longrightarrow> js_ClaimNextQueuedItem MemJobStore e j M s = (Inr res, s') \<Longrightarrow>
      cr_Outcome res = ClaimNone \<Longrightarrow> mem_all_items s' = mem_all_items s"
    using mem_claim_law(1) by (simp add: MemJobStore_def)
  show "mem_inv s \<Longrightarrow> js_ClaimNextQueuedItem MemJobStore e j M s = (Inr res, s') \<Longrightarrow> cr_Outcome res = ClaimNone \<Longrightarrow>
      \<forall>it \<in> set (mem_all_items s). item_JobID it = j \<longrightarrow> item_Status it \<noteq> ItemStatusQueued"
    using mem_claim_law(1) by (simp add: MemJobStore_def)
  show "mem_inv s \<Longrightarrow> js_ClaimNextQueuedItem MemJobStore e j M s = (Inr res, s') \<Longrightarrow>
      cr_Outcome res = ClaimClaimed \<Longrightarrow> \<exists>it now. it \<in> set (mem_all_items s) \<and> item_JobID it = j
        \<and> item_Status it = ItemStatusQueued \<and> item_Attempts it + 1 \<le> M \<and> cr_Item res = Some (start_item now it)
        \<and> mem_all_items s' = replace_item (start_item now it) (mem_all_items s)"
    using mem_claim_law(2) by (simp add: MemJobStore_def)
  show "mem_inv s \<Longrightarrow> js_ClaimNextQueuedItem MemJobStore e j M s = (Inr res, s') \<Longrightarrow>
      cr_Outcome res = ClaimExhausted \<Longrightarrow> \<exists>it now. it \<in> set (mem_all_items s) \<and> item_JobID it = j
        \<and> item_Status it = ItemStatusQueued \<and> item_Attempts it + 1 > M \<and> cr_Item res = Some (exhaust_item now M it)
        \<and> mem_all_items s' = replace_item (exhaust_item now M it) (mem_all_items s)"
    using mem_claim_law(3) by (simp add: MemJobStore_def)
  show "mem_inv s \<Longrightarrow> js_UpdateItemTerminal MemJobStore e i sta r m s = (Inr (), s') \<Longrightarrow>
      item_terminal sta \<and> (\<exists>it now r'. it \<in> set (mem_all_items s) \<and> item_ID it = i
        \<and> mem_all_items s' = replace_item (terminal_item now sta r' m it) (mem_all_items s))"
    using mem_update_law(1) by (simp add: MemJobStore_def)
  show "mem_inv s \<Longrightarrow> js_UpdateItemTerminal MemJobStore e i sta r m s = (Inl Jobs_ErrNotFound, s') \<Longrightarrow>
      mem_all_items s' = mem_all_items s
      \<and> (\<forall>it \<in> set (mem_all_items s). item_ID it = i \<longrightarrow> item_Status it \<noteq> ItemStatusRunning)"
    using mem_update_law(2) by (simp add: MemJobStore_def)
  show "mem_inv s \<Longrightarrow> js_RecomputeAndUpdateJobStatus MemJobStore e j s = (Inr jst, s') \<Longrightarrow>
      mem_all_items s' = mem_all_items s
      \<and> jst = AggregateJobStatus (length (filter (\<lambda>it. item_JobID it = j) (mem_all_items s)))
                (count_status ItemStatusSucceeded (filter (\<lambda>it. item_JobID it = j) (mem_all_items s)))
                (count_status ItemStatusFailed (filter (\<lambda>it. item_JobID it = j) (mem_all_items s)))
      \<and> (\<exists>job \<in> set (ms_jobs s'). job_ID job = j \<and> job_Status job = jst)"
    using mem_recompute_law by (simp add: MemJobStore_def)
  show "js_RecomputeAndUpdateJobStatus MemJobStore e j s = (Inl Jobs_ErrNotFound, s') \<Longrightarrow>
      s' = s \<and> (\<forall>job \<in> set (ms_jobs s). job_ID job \<noteq> j)"
    by (auto simp: MemJobStore_def mem_RecomputeAndUpdateJobStatus_def Let_def find_job_def find_None_iff split: option.splits)
qed

end
