(* ===== verification/Job_Repo.thy ===== *)
theory Job_Repo
  imports Jobs
begin

section \<open>Batch jobs in Postgres (internal/db/job_repo.go)\<close>

text \<open>
  The three batch tables and the repository's statements on them. A transaction is atomic: a fault
  inside it rolls it back, a fault at commit may come after the commit took effect. \<open>re_locked\<close> are
  the item rows that other transactions hold locked while a claim runs (\<open>SKIP LOCKED\<close>), \<open>re_new k\<close> is
  the \<open>k\<close>-th \<open>gen_random_uuid()\<close> of the call. Text order is the database's collation, here the
  byte order of a collation key. The \<open>set_updated_at\<close> trigger of the migrations stamps every update.
\<close>

record job_tables =
  t_jobs :: "BatchJob list"
  t_items :: "BatchJobItem list"
  t_outbox :: "BatchJobOutbox list"

record repo_env =
  re_fault :: fault
  re_fault2 :: fault
  re_now :: time
  re_new :: "nat \<Rightarrow> uuid"
  re_locked :: "uuid list"

definition mapJobsNotFound :: "pg_error \<Rightarrow> jobs_error" where
  "mapJobsNotFound err =
     (if mapNotFound err = DB_ErrNotFound then Jobs_ErrNotFound else JobsDbErr err)"

subsection \<open>Creation\<close>

text \<open>The insert loop over the items; \<open>k\<close> counts the generated ids.\<close>

fun insert_items ::
  "postgres \<Rightarrow> repo_env \<Rightarrow> uuid \<Rightarrow> nat \<Rightarrow> BatchJobItem list \<Rightarrow> BatchJobItem list \<Rightarrow> pg_error + BatchJobItem list" where
  "insert_items pg e jobID k [] rows = Inr rows"
| "insert_items pg e jobID k (it # its) rows =
     (case bind_jsonb pg (normalizeJSONB (item_Request it)) of
        Inl err \<Rightarrow> Inl err
      | Inr None \<Rightarrow> Inl (PgCode ''23502'')
      | Inr (Some req) \<Rightarrow>
          (if re_new e k \<in> item_ID ` set rows
              \<or> (jobID, item_CustomID it) \<in> (\<lambda>r. (item_JobID r, item_CustomID r)) ` set rows
           then Inl (PgCode uniqueViolationCode)
           else insert_items pg e jobID (Suc k) its
                  (rows @ [\<lparr>item_ID = re_new e k, item_JobID = jobID, item_CustomID = item_CustomID it,
                            item_Request = req, item_Status = ItemStatusQueued, item_Attempts = 0,
                            item_Response = None, item_Error = None, item_CreatedAt = re_now e,
                            item_UpdatedAt = re_now e\<rparr>])))"

definition create_tx ::
  "postgres \<Rightarrow> repo_env \<Rightarrow> BatchJob \<Rightarrow> BatchJobItem list \<Rightarrow> job_tables
     \<Rightarrow> (pg_error + BatchJob \<times> BatchJobOutbox) \<times> job_tables" where
  "create_tx pg e job items t =
     (let stored = \<lparr>job_ID = re_new e 0, job_TenantID = job_TenantID job, job_APIKeyID = job_APIKeyID job,
                    job_Model = job_Model job, job_Status = JobStatusQueued, job_TotalItems = length items,
                    job_CompletedItems = 0, job_FailedItems = 0, job_CreatedAt = re_now e,
                    job_UpdatedAt = re_now e\<rparr>;
          ob = \<lparr>ob_ID = re_new e (Suc (length items)), ob_JobID = job_ID stored,
                ob_Status = OutboxStatusPending, ob_Attempts = 0, ob_LastError = None,
                ob_PublishedAt = None, ob_CreatedAt = re_now e, ob_UpdatedAt = re_now e\<rparr>
      in if job_ID stored \<in> job_ID ` set (t_jobs t) then (Inl (PgCode uniqueViolationCode), t)
         else case insert_items pg e (job_ID stored) 1 items (t_items t) of
           Inl err \<Rightarrow> (Inl err, t)
         | Inr rows \<Rightarrow>
             (if ob_ID ob \<in> ob_ID ` set (t_outbox t) \<or> ob_JobID ob \<in> ob_JobID ` set (t_outbox t)
              then (Inl (PgCode uniqueViolationCode), t)
              else (Inr (stored, ob),
                    t\<lparr>t_jobs := t_jobs t @ [stored], t_items := rows, t_outbox := t_outbox t @ [ob]\<rparr>)))"

definition repo_CreateWithItemsAndOutbox ::
  "postgres \<Rightarrow> repo_env \<Rightarrow> BatchJob \<Rightarrow> BatchJobItem list \<Rightarrow> job_tables
     \<Rightarrow> (jobs_error + BatchJob \<times> BatchJobOutbox) \<times> job_tables" where
  "repo_CreateWithItemsAndOutbox pg e job items t =
     (case exec_sql (re_fault e) (create_tx pg e job items) t of
        (Inl err, t) \<Rightarrow> (Inl (JobsDbErr err), t)
      | (Inr r, t) \<Rightarrow> (Inr r, t))"

subsection \<open>Reads\<close>

definition repo_Get :: "repo_env \<Rightarrow> uuid \<Rightarrow> uuid \<Rightarrow> job_tables \<Rightarrow> jobs_error + BatchJob" where
  "repo_Get e tenantID jobID t =
     (case fst (exec_sql (re_fault e)
             (\<lambda>t. (case find (\<lambda>j. job_ID j = jobID \<and> job_TenantID j = tenantID) (t_jobs t) of
                      None \<Rightarrow> Inl PgxErrNoRows | Some j \<Rightarrow> Inr j, t)) t) of
        Inl err \<Rightarrow> Inl (mapJobsNotFound err)
      | Inr j \<Rightarrow> Inr j)"

definition repo_List :: "repo_env \<Rightarrow> uuid \<Rightarrow> job_tables \<Rightarrow> jobs_error + BatchJob list" where
  "repo_List e tenantID t =
     (case fst (exec_sql (re_fault e)
             (\<lambda>t. (Inr (sort_key (\<lambda>j. (- job_CreatedAt j, - uint (job_ID j)))
                          (filter (\<lambda>j. job_TenantID j = tenantID) (t_jobs t))), t)) t) of
        Inl err \<Rightarrow> Inl (JobsDbErr err)
      | Inr js \<Rightarrow> Inr js)"

definition repo_Items ::
  "(string \<Rightarrow> string) \<Rightarrow> repo_env \<Rightarrow> uuid \<Rightarrow> uuid \<Rightarrow> job_tables \<Rightarrow> jobs_error + BatchJobItem list" where
  "repo_Items collate e tenantID jobID t =
     (case repo_Get e tenantID jobID t of
        Inl err \<Rightarrow> Inl err
      | Inr _ \<Rightarrow>
          (case fst (exec_sql (re_fault2 e)
                  (\<lambda>t. (Inr (sort_key (\<lambda>it. collate (item_CustomID it))
                               (filter (\<lambda>it. item_JobID it = jobID) (t_items t))), t)) t) of
             Inl err \<Rightarrow> Inl (JobsDbErr err)
           | Inr its \<Rightarrow> Inr its))"

subsection \<open>The worker's statements\<close>

definition repo_MarkJobRunning :: "repo_env \<Rightarrow> uuid \<Rightarrow> job_tables \<Rightarrow> (jobs_error + unit) \<times> job_tables" where
  "repo_MarkJobRunning e jobID t =
     (case exec_sql (re_fault e)
             (\<lambda>t. (Inr (), t\<lparr>t_jobs := map (\<lambda>j. if job_ID j = jobID \<and> job_Status j = JobStatusQueued
                     then j\<lparr>job_Status := JobStatusRunning, job_UpdatedAt := re_now e\<rparr> else j) (t_jobs t)\<rparr>)) t of
        (Inl err, t) \<Rightarrow> (Inl (JobsDbErr err), t)
      | (Inr _, t) \<Rightarrow> (Inr (), t))"

definition repo_RequeueRunningItems :: "repo_env \<Rightarrow> uuid \<Rightarrow> job_tables \<Rightarrow> (jobs_error + nat) \<times> job_tables" where
  "repo_RequeueRunningItems e jobID t =
     (case exec_sql (re_fault e)
             (\<lambda>t. (Inr (length (filter (\<lambda>it. item_JobID it = jobID \<and> item_Status it = ItemStatusRunning) (t_items t))),
                   t\<lparr>t_items := map (\<lambda>it. if item_JobID it = jobID then requeue_item (re_now e) it else it) (t_items t)\<rparr>)) t of
        (Inl err, t) \<Rightarrow> (Inl (JobsDbErr err), t)
      | (Inr n, t) \<Rightarrow> (Inr n, t))"

text \<open>The row \<open>SELECT ... ORDER BY created_at, id LIMIT 1 FOR UPDATE SKIP LOCKED\<close> returns.\<close>

definition claimable :: "repo_env \<Rightarrow> uuid \<Rightarrow> job_tables \<Rightarrow> BatchJobItem list" where
  "claimable e jobID t =
     sort_key (\<lambda>it. (item_CreatedAt it, uint (item_ID it)))
       (filter (\<lambda>it. item_JobID it = jobID \<and> item_Status it = ItemStatusQueued
                    \<and> item_ID it \<notin> set (re_locked e)) (t_items t))"

definition claim_tx ::
  "repo_env \<Rightarrow> uuid \<Rightarrow> int \<Rightarrow> job_tables \<Rightarrow> (pg_error + ClaimResult) \<times> job_tables" where
  "claim_tx e jobID maxAttempts t =
     (case claimable e jobID t of
        [] \<Rightarrow> (Inr \<lparr>cr_Outcome = ClaimNone, cr_Item = None\<rparr>, t)
      | it # _ \<Rightarrow>
          (if item_Attempts it + 1 > maxAttempts
           then let it' = exhaust_item (re_now e) maxAttempts it
                in (Inr \<lparr>cr_Outcome = ClaimExhausted, cr_Item = Some it'\<rparr>,
                    t\<lparr>t_items := replace_item it' (t_items t)\<rparr>)
           else let it' = start_item (re_now e) it
                in (Inr \<lparr>cr_Outcome = ClaimClaimed, cr_Item = Some it'\<rparr>,
                    t\<lparr>t_items := replace_item it' (t_items t)\<rparr>)))"

definition repo_ClaimNextQueuedItem ::
  "repo_env \<Rightarrow> uuid \<Rightarrow> int \<Rightarrow> job_tables \<Rightarrow> (jobs_error + ClaimResult) \<times> job_tables" where
  "repo_ClaimNextQueuedItem e jobID maxAttempts t =
     (case exec_sql (re_fault e) (claim_tx e jobID maxAttempts) t of
        (Inl err, t) \<Rightarrow> (Inl (JobsDbErr err), t)
      | (Inr r, t) \<Rightarrow> (Inr r, t))"

definition update_item_sql ::
  "postgres \<Rightarrow> repo_env \<Rightarrow> uuid \<Rightarrow> ItemStatus \<Rightarrow> string option \<Rightarrow> string option
     \<Rightarrow> job_tables \<Rightarrow> (pg_error + uuid) \<times> job_tables" where
  "update_item_sql pg e itemID status response errMsg t =
     (case bind_jsonb pg response of
        Inl err \<Rightarrow> (Inl err, t)
      | Inr resp \<Rightarrow>
          (if \<not> list_ex (\<lambda>it. item_ID it = itemID \<and> item_Status it = ItemStatusRunning) (t_items t)
           then (Inl PgxErrNoRows, t)
           else (Inr itemID,
                 t\<lparr>t_items := map (\<lambda>it. if item_ID it = itemID \<and> item_Status it = ItemStatusRunning
                     then terminal_item (re_now e) status resp errMsg it else it) (t_items t)\<rparr>)))"

definition repo_UpdateItemTerminal ::
  "postgres \<Rightarrow> repo_env \<Rightarrow> uuid \<Rightarrow> ItemStatus \<Rightarrow> string \<Rightarrow> string option
     \<Rightarrow> job_tables \<Rightarrow> (jobs_error + unit) \<times> job_tables" where
  "repo_UpdateItemTerminal pg e itemID status response errMsg t =
     (if status \<noteq> ItemStatusSucceeded \<and> status \<noteq> ItemStatusFailed then (Inl (NotTerminalStatus status), t)
      else case exec_sql (re_fault e)
                  (update_item_sql pg e itemID status (normalizeJSONB response) errMsg) t of
        (Inl err, t) \<Rightarrow> (Inl (mapJobsNotFound err), t)
      | (Inr _, t) \<Rightarrow> (Inr (), t))"

text \<open>The \<open>CASE\<close> of the recompute statement.\<close>

definition recompute_status :: "nat \<Rightarrow> nat \<Rightarrow> nat \<Rightarrow> JobStatus" where
  "recompute_status succeeded failed total_rows =
     (if succeeded + failed < total_rows then JobStatusRunning
      else if failed = 0 then JobStatusSucceeded
      else if succeeded = 0 then JobStatusFailed
      else JobStatusPartiallyFailed)"

definition recompute_sql :: "repo_env \<Rightarrow> uuid \<Rightarrow> job_tables \<Rightarrow> (pg_error + JobStatus) \<times> job_tables" where
  "recompute_sql e jobID t =
     (let its = filter (\<lambda>it. item_JobID it = jobID) (t_items t);
          succeeded = count_status ItemStatusSucceeded its;
          failed = count_status ItemStatusFailed its;
          status = recompute_status succeeded failed (length its)
      in if \<not> list_ex (\<lambda>j. job_ID j = jobID) (t_jobs t) then (Inl PgxErrNoRows, t)
         else (Inr status,
               t\<lparr>t_jobs := upd_job jobID
                   (\<lambda>j. j\<lparr>job_CompletedItems := succeeded, job_FailedItems := failed, job_Status := status,
                           job_UpdatedAt := re_now e\<rparr>) (t_jobs t)\<rparr>))"

definition repo_RecomputeAndUpdateJobStatus ::
  "repo_env \<Rightarrow> uuid \<Rightarrow> job_tables \<Rightarrow> (jobs_error + JobStatus) \<times> job_tables" where
  "repo_RecomputeAndUpdateJobStatus e jobID t =
     (case exec_sql (re_fault e) (recompute_sql e jobID) t of
        (Inl err, t) \<Rightarrow> (Inl (mapJobsNotFound err), t)
      | (Inr st, t) \<Rightarrow> (Inr st, t))"

subsection \<open>The outbox\<close>

definition repo_PendingOutbox :: "repo_env \<Rightarrow> int \<Rightarrow> job_tables \<Rightarrow> jobs_error + BatchJobOutbox list" where
  "repo_PendingOutbox e limit t =
     (case fst (exec_sql (re_fault e)
             (\<lambda>t. (if limit < 0 then Inl (PgCode ''2201W'')
                   else Inr (take (nat limit)
                     (sort_key (\<lambda>ob. (ob_CreatedAt ob, uint (ob_ID ob)))
                        (filter (\<lambda>ob. ob_Status ob = OutboxStatusPending) (t_outbox t)))), t)) t) of
        Inl err \<Rightarrow> Inl (JobsDbErr err)
      | Inr obs \<Rightarrow> Inr obs)"

definition mark_outbox_sql ::
  "uuid \<Rightarrow> (BatchJobOutbox \<Rightarrow> BatchJobOutbox) \<Rightarrow> job_tables \<Rightarrow> (pg_error + unit) \<times> job_tables" where
  "mark_outbox_sql outboxID f t =
     (Inr (), t\<lparr>t_outbox := map (\<lambda>ob. if ob_ID ob = outboxID \<and> ob_Status ob = OutboxStatusPending
                   then f ob else ob) (t_outbox t)\<rparr>)"

definition repo_MarkOutboxPublished :: "repo_env \<Rightarrow> uuid \<Rightarrow> job_tables \<Rightarrow> (jobs_error + unit) \<times> job_tables" where
  "repo_MarkOutboxPublished e outboxID t =
     (case exec_sql (re_fault e)
             (mark_outbox_sql outboxID (\<lambda>ob. ob\<lparr>ob_Status := OutboxStatusPublished,
                ob_PublishedAt := Some (re_now e), ob_UpdatedAt := re_now e\<rparr>)) t of
        (Inl err, t) \<Rightarrow> (Inl (JobsDbErr err), t)
      | (Inr _, t) \<Rightarrow> (Inr (), t))"

definition repo_MarkOutboxFailedAttempt ::
  "repo_env \<Rightarrow> uuid \<Rightarrow> string \<Rightarrow> job_tables \<Rightarrow> (jobs_error + unit) \<times> job_tables" where
  "repo_MarkOutboxFailedAttempt e outboxID lastErr t =
     (case exec_sql (re_fault e)
             (mark_outbox_sql outboxID (\<lambda>ob. ob\<lparr>ob_Attempts := ob_Attempts ob + 1,
                ob_LastError := Some lastErr, ob_UpdatedAt := re_now e\<rparr>)) t of
        (Inl err, t) \<Rightarrow> (Inl (JobsDbErr err), t)
      | (Inr _, t) \<Rightarrow> (Inr (), t))"

definition JobRepo :: "postgres \<Rightarrow> (string \<Rightarrow> string) \<Rightarrow> (repo_env, job_tables) JobStore" where
  "JobRepo pg collate =
     \<lparr>js_CreateWithItemsAndOutbox = repo_CreateWithItemsAndOutbox pg, js_Get = repo_Get,
      js_List = repo_List, js_Items = repo_Items collate, js_MarkJobRunning = repo_MarkJobRunning,
      js_RequeueRunningItems = repo_RequeueRunningItems,
      js_ClaimNextQueuedItem = repo_ClaimNextQueuedItem,
      js_UpdateItemTerminal = repo_UpdateItemTerminal pg,
      js_RecomputeAndUpdateJobStatus = repo_RecomputeAndUpdateJobStatus,
      js_PendingOutbox = repo_PendingOutbox, js_MarkOutboxPublished = repo_MarkOutboxPublished,
      js_MarkOutboxFailedAttempt = repo_MarkOutboxFailedAttempt\<rparr>"

subsection \<open>The repository keeps the store's promises\<close>

definition repo_inv :: "job_tables \<Rightarrow> bool" where
  [inv_defs]: "repo_inv t \<longleftrightarrow> distinct (map item_ID (t_items t)) \<and> distinct (map job_ID (t_jobs t))"

text \<open>Ids come from the database, which rejects a duplicate: no freshness needs to be assumed.\<close>

definition repo_fresh :: "job_tables \<Rightarrow> repo_env job_event \<Rightarrow> bool" where
  "repo_fresh t ev \<longleftrightarrow> True"

lemma insert_items_Inr:
  "insert_items pg e j k its rows = Inr rows' \<Longrightarrow> distinct (map item_ID rows) \<Longrightarrow>
     \<exists>new. rows' = rows @ new \<and> distinct (map item_ID rows')
       \<and> (\<forall>it \<in> set new. item_Status it = ItemStatusQueued \<and> item_Attempts it = 0)"
proof (induction its arbitrary: k rows)
  case Nil
  then show ?case by simp
next
  case (Cons it its)
  obtain req where b: "bind_jsonb pg (normalizeJSONB (item_Request it)) = Inr (Some req)"
    and n: "re_new e k \<notin> item_ID ` set rows"
    and rec: "insert_items pg e j (Suc k) its
                  (rows @ [\<lparr>item_ID = re_new e k, item_JobID = j, item_CustomID = item_CustomID it,
                            item_Request = req, item_Status = ItemStatusQueued, item_Attempts = 0,
                            item_Response = None, item_Error = None, item_CreatedAt = re_now e,
                            item_UpdatedAt = re_now e\<rparr>]) = Inr rows'"
    using Cons.prems(1) by (auto split: sum.splits option.splits if_splits)
  from Cons.IH [OF rec] n Cons.prems(2) show ?case by auto
qed

lemma create_tx_items:
  assumes "repo_inv t"
  shows "repo_inv (snd (create_tx pg e job its t)) \<and>
     items_step M J (t_items t) (t_items (snd (create_tx pg e job its t)))"
proof (cases "re_new e 0 \<in> job_ID ` set (t_jobs t)")
  case True
  then show ?thesis using assms by (simp add: create_tx_def Let_def items_step.keep)
next
  case False
  show ?thesis
  proof (cases "insert_items pg e (re_new e 0) 1 its (t_items t)")
    case (Inl err)
    then show ?thesis using False assms by (simp add: create_tx_def Let_def items_step.keep)
  next
    case (Inr rows)
    from insert_items_Inr [OF this] assms obtain new where new: "rows = t_items t @ new"
      "distinct (map item_ID rows)" "\<forall>it \<in> set new. item_Status it = ItemStatusQueued \<and> item_Attempts it = 0"
      by (auto simp: repo_inv_def)
    then have "items_step M J (t_items t) rows" by (auto intro!: items_step.create)
    then show ?thesis using False Inr assms new(2) by (auto simp: create_tx_def Let_def repo_inv_def items_step.keep)
  qed
qed

lemma claimable_mem: "it \<in> set (claimable e j t) \<longleftrightarrow>
    it \<in> set (t_items t) \<and> item_JobID it = j \<and> item_Status it = ItemStatusQueued \<and> item_ID it \<notin> set (re_locked e)"
  by (auto simp: claimable_def)

lemma claim_tx_cases:
  obtains (none) "claim_tx e j M t = (Inr \<lparr>cr_Outcome = ClaimNone, cr_Item = None\<rparr>, t)" "claimable e j t = []"
    | (exhausted) it where "it \<in> set (claimable e j t)" "item_Attempts it + 1 > M"
        "claim_tx e j M t = (Inr \<lparr>cr_Outcome = ClaimExhausted, cr_Item = Some (exhaust_item (re_now e) M it)\<rparr>,
           t\<lparr>t_items := replace_item (exhaust_item (re_now e) M it) (t_items t)\<rparr>)"
    | (claimed) it where "it \<in> set (claimable e j t)" "item_Attempts it + 1 \<le> M"
        "claim_tx e j M t = (Inr \<lparr>cr_Outcome = ClaimClaimed, cr_Item = Some (start_item (re_now e) it)\<rparr>,
           t\<lparr>t_items := replace_item (start_item (re_now e) it) (t_items t)\<rparr>)"
proof (cases "claimable e j t")
  case Nil
  then show thesis using none by (simp add: claim_tx_def)
next
  case (Cons it its)
  then show thesis using exhausted [of it] claimed [of it]
    by (cases "item_Attempts it + 1 > M") (simp_all add: claim_tx_def Let_def)
qed

lemma claim_tx_items:
  assumes "repo_inv t"
  shows "repo_inv (snd (claim_tx e j M t)) \<and> items_step M J (t_items t) (t_items (snd (claim_tx e j M t)))"
  by (cases rule: claim_tx_cases [of e j M t])
    (use assms in \<open>auto simp: repo_inv_def claimable_mem intro: items_step.keep items_step.exhaust items_step.start\<close>)

lemma update_sql_cases:
  assumes "repo_inv t"
  obtains (fails) err where "update_item_sql pg e i sta r m t = (Inl err, t)"
      "err = PgxErrNoRows \<Longrightarrow> \<forall>it \<in> set (t_items t). item_ID it = i \<longrightarrow> item_Status it \<noteq> ItemStatusRunning"
    | (ok) it r' where "it \<in> set (t_items t)" "item_ID it = i" "item_Status it = ItemStatusRunning"
        "update_item_sql pg e i sta r m t =
           (Inr i, t\<lparr>t_items := replace_item (terminal_item (re_now e) sta r' m it) (t_items t)\<rparr>)"
proof (cases "bind_jsonb pg r")
  case (Inl err)
  moreover have "err \<noteq> PgxErrNoRows" using Inl by (auto simp: bind_jsonb_def split: option.splits)
  ultimately show thesis using fails by (simp add: update_item_sql_def)
next
  case (Inr r')
  show thesis
  proof (cases "list_ex (\<lambda>it. item_ID it = i \<and> item_Status it = ItemStatusRunning) (t_items t)")
    case False
    then show thesis using Inr fails by (auto simp: update_item_sql_def list_ex_iff)
  next
    case True
    then obtain it where it: "it \<in> set (t_items t)" "item_ID it = i" "item_Status it = ItemStatusRunning"
      by (auto simp: list_ex_iff)
    have "map (\<lambda>x. if item_ID x = i \<and> item_Status x = ItemStatusRunning then terminal_item (re_now e) sta r' m x else x)
        (t_items t) = replace_item (terminal_item (re_now e) sta r' m it) (t_items t)"
      using assms it by (auto simp: replace_item_def repo_inv_def distinct_map inj_on_def)
    then show thesis using ok [of it r'] it True Inr by (simp add: update_item_sql_def)
  qed
qed

lemma update_sql_items:
  assumes "repo_inv t" and "item_terminal sta"
  shows "repo_inv (snd (update_item_sql pg e i sta r m t))
     \<and> items_step M J (t_items t) (t_items (snd (update_item_sql pg e i sta r m t)))"
proof (cases rule: update_sql_cases [OF assms(1), of pg e i sta r m])
  case (1 err)
  then show ?thesis using assms(1) by (simp add: items_step.keep)
next
  case (2 it r')
  have "ValidItemTransition (item_Status it) sta" using 2(3) assms(2) by (auto simp: item_terminal_def)
  then show ?thesis using 2 assms by (simp add: repo_inv_def items_step.finish)
qed

text \<open>Lifting from the statement to the repository operation, whatever fault it meets.\<close>

lemma exec_sql_items:
  assumes "repo_inv t" and "repo_inv (snd (f t)) \<and> items_step M J (t_items t) (t_items (snd (f t)))"
  shows "repo_inv (snd (exec_sql fl f t)) \<and> items_step M J (t_items t) (t_items (snd (exec_sql fl f t)))"
  using assms by (cases fl) (auto intro: items_step.keep)

lemma repo_snd:
  "snd (repo_CreateWithItemsAndOutbox pg e job its t) = snd (exec_sql (re_fault e) (create_tx pg e job its) t)"
  "snd (repo_ClaimNextQueuedItem e j M t) = snd (exec_sql (re_fault e) (claim_tx e j M) t)"
  "item_terminal sta \<Longrightarrow> snd (repo_UpdateItemTerminal pg e i sta r m t) =
     snd (exec_sql (re_fault e) (update_item_sql pg e i sta (normalizeJSONB r) m) t)"
  "\<not> item_terminal sta \<Longrightarrow> snd (repo_UpdateItemTerminal pg e i sta r m t) = t"
  by (auto simp: repo_CreateWithItemsAndOutbox_def repo_ClaimNextQueuedItem_def repo_UpdateItemTerminal_def
      item_terminal_def split: prod.splits sum.splits)

lemma repo_step_items:
  assumes "repo_inv t" and "claims_with M ev"
  shows "repo_inv (job_step (JobRepo pg coll) t ev)
     \<and> items_step M (requeues ev) (t_items t) (t_items (job_step (JobRepo pg coll) t ev))"
proof (cases ev)
  case (JCreate e job its)
  then show ?thesis using exec_sql_items [where f = "create_tx pg e job its", OF assms(1) create_tx_items [OF assms(1)]]
    by (simp add: JobRepo_def repo_snd)
next
  case (JClaim e j M')
  then show ?thesis using assms(2) exec_sql_items [where f = "claim_tx e j M", OF assms(1) claim_tx_items [OF assms(1)]]
    by (simp add: JobRepo_def repo_snd)
next
  case (JUpdate e i sta r m)
  then show ?thesis
    using exec_sql_items [where f = "update_item_sql pg e i sta (normalizeJSONB r) m", OF assms(1) update_sql_items [OF assms(1)]] assms(1)
    by (cases "item_terminal sta") (simp_all add: JobRepo_def repo_snd items_step.keep)
next
  case (JRequeue e j)
  have "map item_ID (map (\<lambda>it. if item_JobID it = j then requeue_item (re_now e) it else it) (t_items t)) = map item_ID (t_items t)"
    by simp
  then show ?thesis using assms(1) JRequeue
    by (cases "re_fault e")
      (simp_all add: JobRepo_def repo_RequeueRunningItems_def repo_inv_def items_step.keep items_step.requeue del: map_map)
next
  case (JMarkRunning e j)
  have "map job_ID (map (\<lambda>x. if job_ID x = j \<and> job_Status x = JobStatusQueued
      then x\<lparr>job_Status := JobStatusRunning, job_UpdatedAt := re_now e\<rparr> else x) (t_jobs t)) = map job_ID (t_jobs t)"
    by simp
  then show ?thesis using assms(1) JMarkRunning
    by (cases "re_fault e")
      (simp_all add: JobRepo_def repo_MarkJobRunning_def repo_inv_def items_step.keep del: map_map)
next
  case (JRecompute e j)
  have "map job_ID (upd_job j (\<lambda>x. x\<lparr>job_CompletedItems := a, job_FailedItems := b, job_Status := st,
      job_UpdatedAt := re_now e\<rparr>) (t_jobs t)) = map job_ID (t_jobs t)" for a b st
    by (simp add: upd_job_def)
  then have "repo_inv (snd (recompute_sql e j t)) \<and> items_step M (requeues ev) (t_items t) (t_items (snd (recompute_sql e j t)))"
    using assms(1) by (simp add: recompute_sql_def Let_def repo_inv_def items_step.keep)
  moreover have "snd (repo_RecomputeAndUpdateJobStatus e j t) = snd (exec_sql (re_fault e) (recompute_sql e j) t)"
    by (simp add: repo_RecomputeAndUpdateJobStatus_def split: prod.splits sum.splits)
  ultimately show ?thesis
    using exec_sql_items [where f = "recompute_sql e j" and M = M and J = "requeues ev" and fl = "re_fault e", OF assms(1)] JRecompute
    by (simp add: JobRepo_def)
next
  case (JOutboxPublished e i)
  then show ?thesis using assms(1)
    by (cases "re_fault e")
      (simp_all add: JobRepo_def repo_MarkOutboxPublished_def mark_outbox_sql_def repo_inv_def items_step.keep)
next
  case (JOutboxFailed e i m)
  then show ?thesis using assms(1)
    by (cases "re_fault e")
      (simp_all add: JobRepo_def repo_MarkOutboxFailedAttempt_def mark_outbox_sql_def repo_inv_def items_step.keep)
qed

lemma exec_sql_err:
  "exec_sql fl f t = (Inl err, t') \<Longrightarrow> mapNotFound err = DB_ErrNotFound \<Longrightarrow>
     fl = NoFault \<and> f t = (Inl err, t') \<and> (err = PgxErrNoRows \<or> err = SqlErrNoRows)"
  by (cases fl) (auto simp: mapNotFound_def split: if_splits)

lemma repo_claim_law:
  assumes "repo_inv t" and "repo_ClaimNextQueuedItem e j M t = (Inr res, t')"
  shows "cr_Outcome res = ClaimNone \<Longrightarrow> t_items t' = t_items t
      \<and> (re_locked e = [] \<longrightarrow> (\<forall>it \<in> set (t_items t). item_JobID it = j \<longrightarrow> item_Status it \<noteq> ItemStatusQueued))"
    and "cr_Outcome res = ClaimClaimed \<Longrightarrow> \<exists>it now. it \<in> set (t_items t) \<and> item_JobID it = j
        \<and> item_Status it = ItemStatusQueued \<and> item_Attempts it + 1 \<le> M \<and> cr_Item res = Some (start_item now it)
        \<and> t_items t' = replace_item (start_item now it) (t_items t)"
    and "cr_Outcome res = ClaimExhausted \<Longrightarrow> \<exists>it now. it \<in> set (t_items t) \<and> item_JobID it = j
        \<and> item_Status it = ItemStatusQueued \<and> item_Attempts it + 1 > M \<and> cr_Item res = Some (exhaust_item now M it)
        \<and> t_items t' = replace_item (exhaust_item now M it) (t_items t)"
proof -
  have tx: "claim_tx e j M t = (Inr res, t')"
    using assms(2) exec_sql_Inr [of "re_fault e" "claim_tx e j M" t res t']
    by (auto simp: repo_ClaimNextQueuedItem_def split: prod.splits sum.splits)
  have q: "x \<in> set (claimable e j t) \<longleftrightarrow> x \<in> set (t_items t) \<and> item_JobID x = j
      \<and> item_Status x = ItemStatusQueued \<and> item_ID x \<notin> set (re_locked e)" for x by (rule claimable_mem)
  show "cr_Outcome res = ClaimNone \<Longrightarrow> t_items t' = t_items t
      \<and> (re_locked e = [] \<longrightarrow> (\<forall>it \<in> set (t_items t). item_JobID it = j \<longrightarrow> item_Status it \<noteq> ItemStatusQueued))"
  proof (cases rule: claim_tx_cases [of e j M t])
    case none
    then show ?thesis using tx q by auto
  qed (use tx in auto)
  show "cr_Outcome res = ClaimClaimed \<Longrightarrow> \<exists>it now. it \<in> set (t_items t) \<and> item_JobID it = j
        \<and> item_Status it = ItemStatusQueued \<and> item_Attempts it + 1 \<le> M \<and> cr_Item res = Some (start_item now it)
        \<and> t_items t' = replace_item (start_item now it) (t_items t)"
    by (cases rule: claim_tx_cases [of e j M t]) (use tx q in auto)
  show "cr_Outcome res = ClaimExhausted \<Longrightarrow> \<exists>it now. it \<in> set (t_items t) \<and> item_JobID it = j
        \<and> item_Status it = ItemStatusQueued \<and> item_Attempts it + 1 > M \<and> cr_Item res = Some (exhaust_item now M it)
        \<and> t_items t' = replace_item (exhaust_item now M it) (t_items t)"
    by (cases rule: claim_tx_cases [of e j M t]) (use tx q in auto)
qed

lemma repo_update_law:
  assumes "repo_inv t"
  shows "repo_UpdateItemTerminal pg e i sta r m t = (Inr (), t') \<Longrightarrow> item_terminal sta
      \<and> (\<exists>it now r'. it \<in> set (t_items t) \<and> item_ID it = i \<and> item_Status it = ItemStatusRunning
        \<and> t_items t' = replace_item (terminal_item now sta r' m it) (t_items t))"
    and "repo_UpdateItemTerminal pg e i sta r m t = (Inl Jobs_ErrNotFound, t') \<Longrightarrow> t_items t' = t_items t
      \<and> (\<forall>it \<in> set (t_items t). item_ID it = i \<longrightarrow> item_Status it \<noteq> ItemStatusRunning)"
proof -
  let ?sql = "update_item_sql pg e i sta (normalizeJSONB r) m"
  assume ok: "repo_UpdateItemTerminal pg e i sta r m t = (Inr (), t')"
  then have trm: "item_terminal sta" by (auto simp: repo_UpdateItemTerminal_def item_terminal_def split: if_splits)
  obtain x where "exec_sql (re_fault e) ?sql t = (Inr x, t')"
    using ok trm by (auto simp: repo_UpdateItemTerminal_def item_terminal_def split: prod.splits sum.splits if_splits)
  then have "?sql t = (Inr x, t')" by (simp add: exec_sql_Inr)
  then show "item_terminal sta \<and> (\<exists>it now r'. it \<in> set (t_items t) \<and> item_ID it = i \<and> item_Status it = ItemStatusRunning
        \<and> t_items t' = replace_item (terminal_item now sta r' m it) (t_items t))"
  proof (cases rule: update_sql_cases [OF assms, of pg e i sta "normalizeJSONB r" m])
    case (2 it r')
    then show ?thesis using trm \<open>?sql t = (Inr x, t')\<close> by (intro conjI exI [of _ it] exI [of _ "re_now e"] exI [of _ r']) simp_all
  qed (use \<open>?sql t = (Inr x, t')\<close> in simp)
next
  let ?sql = "update_item_sql pg e i sta (normalizeJSONB r) m"
  assume no: "repo_UpdateItemTerminal pg e i sta r m t = (Inl Jobs_ErrNotFound, t')"
  then obtain err where err: "exec_sql (re_fault e) ?sql t = (Inl err, t')" "mapNotFound err = DB_ErrNotFound"
    by (auto simp: repo_UpdateItemTerminal_def mapJobsNotFound_def split: prod.splits sum.splits if_splits)
  from exec_sql_err [OF this] have "?sql t = (Inl err, t')" "err = PgxErrNoRows \<or> err = SqlErrNoRows" by auto
  moreover have "err \<noteq> SqlErrNoRows" using calculation(1)
    by (auto simp: update_item_sql_def bind_jsonb_def split: sum.splits option.splits if_splits)
  ultimately show "t_items t' = t_items t \<and> (\<forall>it \<in> set (t_items t). item_ID it = i \<longrightarrow> item_Status it \<noteq> ItemStatusRunning)"
    by (cases rule: update_sql_cases [OF assms, of pg e i sta "normalizeJSONB r" m]) auto
qed

lemma repo_recompute_law:
  assumes "repo_RecomputeAndUpdateJobStatus e j t = (Inr jst, t')"
  shows "t_items t' = t_items t
      \<and> jst = AggregateJobStatus (length (filter (\<lambda>it. item_JobID it = j) (t_items t)))
                (count_status ItemStatusSucceeded (filter (\<lambda>it. item_JobID it = j) (t_items t)))
                (count_status ItemStatusFailed (filter (\<lambda>it. item_JobID it = j) (t_items t)))
      \<and> (\<exists>job \<in> set (t_jobs t'). job_ID job = j \<and> job_Status job = jst)"
proof -
  have "exec_sql (re_fault e) (recompute_sql e j) t = (Inr jst, t')"
    using assms by (auto simp: repo_RecomputeAndUpdateJobStatus_def split: prod.splits sum.splits)
  then have sql: "recompute_sql e j t = (Inr jst, t')" by (simp add: exec_sql_Inr)
  then obtain job where "job \<in> set (t_jobs t)" "job_ID job = j"
    by (auto simp: recompute_sql_def Let_def list_ex_iff split: if_splits)
  from upd_job_in [OF this] sql show ?thesis
    by (auto simp: recompute_sql_def Let_def recompute_status_def AggregateJobStatus_def split: if_splits)
qed

lemma repo_recompute_missing:
  assumes "repo_RecomputeAndUpdateJobStatus e j t = (Inl Jobs_ErrNotFound, t')"
  shows "t' = t \<and> (\<forall>job \<in> set (t_jobs t). job_ID job \<noteq> j)"
proof -
  obtain err where "exec_sql (re_fault e) (recompute_sql e j) t = (Inl err, t')" "mapNotFound err = DB_ErrNotFound"
    using assms by (auto simp: repo_RecomputeAndUpdateJobStatus_def mapJobsNotFound_def split: prod.splits sum.splits if_splits)
  then have "recompute_sql e j t = (Inl err, t')" using exec_sql_err [of "re_fault e" "recompute_sql e j" t err t'] by blast
  then show ?thesis by (auto simp: recompute_sql_def Let_def list_ex_iff split: if_splits)
qed

interpretation repo: job_store "JobRepo pg coll" repo_inv t_items t_jobs repo_fresh "\<lambda>e. re_locked e = []" for pg coll
proof
  fix s s' :: job_tables and e :: repo_env and ev :: "repo_env job_event" and M i j sta jst r m n res
  show "repo_inv s \<Longrightarrow> distinct (map item_ID (t_items s))" by (simp add: repo_inv_def)
  obtain M' where M': "claims_with M' ev" by (cases ev) auto
  show "repo_inv s \<Longrightarrow> repo_fresh s ev \<Longrightarrow> repo_inv (job_step (JobRepo pg coll) s ev)"
    using repo_step_items [OF _ M'] by blast
  show "repo_inv s \<Longrightarrow> repo_fresh s ev \<Longrightarrow> claims_with M ev \<Longrightarrow>
      items_step M (requeues ev) (t_items s) (t_items (job_step (JobRepo pg coll) s ev))"
    using repo_step_items by blast
  show "repo_fresh s ev" by (simp add: repo_fresh_def)
  show "t_items (snd (js_MarkJobRunning (JobRepo pg coll) e j s)) = t_items s"
    by (cases "re_fault e") (simp_all add: JobRepo_def repo_MarkJobRunning_def)
  show "js_MarkJobRunning (JobRepo pg coll) e j s = (Inl Jobs_ErrNotFound, s') \<Longrightarrow>
      s' = s \<and> (\<forall>job \<in> set (t_jobs s). job_ID job \<noteq> j)"
    by (auto simp: JobRepo_def repo_MarkJobRunning_def split: prod.splits sum.splits)
  show "repo_inv s \<Longrightarrow> js_RequeueRunningItems (JobRepo pg coll) e j s = (Inr n, s') \<Longrightarrow> \<exists>now. t_items s' =
      map (\<lambda>it. if item_JobID it = j then requeue_item now it else it) (t_items s)"
    by (cases "re_fault e") (auto simp: JobRepo_def repo_RequeueRunningItems_def)
  show "repo_inv s \<Longrightarrow> js_ClaimNextQueuedItem (JobRepo pg coll) e j M s = (Inr res, s') \<Longrightarrow>
      cr_Outcome res = ClaimNone \<Longrightarrow> t_items s' = t_items s"
    using repo_claim_law(1) by (simp add: JobRepo_def)
  show "repo_inv s \<Longrightarrow> re_locked e = [] \<Longrightarrow> js_ClaimNextQueuedItem (JobRepo pg coll) e j M s = (Inr res, s') \<Longrightarrow>
      cr_Outcome res = ClaimNone \<Longrightarrow> \<forall>it \<in> set (t_items s). item_JobID it = j \<longrightarrow> item_Status it \<noteq> ItemStatusQueued"
    using repo_claim_law(1) by (simp add: JobRepo_def)
  show "repo_inv s \<Longrightarrow> js_ClaimNextQueuedItem (JobRepo pg coll) e j M s = (Inr res, s') \<Longrightarrow>
      cr_Outcome res = ClaimClaimed \<Longrightarrow> \<exists>it now. it \<in> set (t_items s) \<and> item_JobID it = j
        \<and> item_Status it = ItemStatusQueued \<and> item_Attempts it + 1 \<le> M \<and> cr_Item res = Some (start_item now it)
        \<and> t_items s' = replace_item (start_item now it) (t_items s)"
    using repo_claim_law(2) by (simp add: JobRepo_def)
  show "repo_inv s \<Longrightarrow> js_ClaimNextQueuedItem (JobRepo pg coll) e j M s = (Inr res, s') \<Longrightarrow>
      cr_Outcome res = ClaimExhausted \<Longrightarrow> \<exists>it now. it \<in> set (t_items s) \<and> item_JobID it = j
        \<and> item_Status it = ItemStatusQueued \<and> item_Attempts it + 1 > M \<and> cr_Item res = Some (exhaust_item now M it)
        \<and> t_items s' = replace_item (exhaust_item now M it) (t_items s)"
    using repo_claim_law(3) by (simp add: JobRepo_def)
  show "repo_inv s \<Longrightarrow> js_UpdateItemTerminal (JobRepo pg coll) e i sta r m s = (Inr (), s') \<Longrightarrow>
      item_terminal sta \<and> (\<exists>it now r'. it \<in> set (t_items s) \<and> item_ID it = i
        \<and> t_items s' = replace_item (terminal_item now sta r' m it) (t_items s))"
    using repo_update_law(1) [of s pg e i sta r m s'] by (auto simp: JobRepo_def)
  show "repo_inv s \<Longrightarrow> js_UpdateItemTerminal (JobRepo pg coll) e i sta r m s = (Inl Jobs_ErrNotFound, s') \<Longrightarrow>
      t_items s' = t_items s
      \<and> (\<forall>it \<in> set (t_items s). item_ID it = i \<longrightarrow> item_Status it \<noteq> ItemStatusRunning)"
    using repo_update_law(2) [of s pg e i sta r m s'] by (simp add: JobRepo_def)
  show "repo_inv s \<Longrightarrow> js_RecomputeAndUpdateJobStatus (JobRepo pg coll) e j s = (Inr jst, s') \<Longrightarrow>
      t_items s' = t_items s
      \<and> jst = AggregateJobStatus (length (filter (\<lambda>it. item_JobID it = j) (t_items s)))
                (count_status ItemStatusSucceeded (filter (\<lambda>it. item_JobID it = j) (t_items s)))
                (count_status ItemStatusFailed (filter (\<lambda>it. item_JobID it = j) (t_items s)))
      \<and> (\<exists>job \<in> set (t_jobs s'). job_ID job = j \<and> job_Status job = jst)"
    using repo_recompute_law by (simp add: JobRepo_def)
  show "js_RecomputeAndUpdateJobStatus (JobRepo pg coll) e j s = (Inl Jobs_ErrNotFound, s') \<Longrightarrow>
      s' = s \<and> (\<forall>job \<in> set (t_jobs s). job_ID job \<noteq> j)"
    using repo_recompute_missing by (simp add: JobRepo_def)
qed

subsection \<open>Properties of the stores\<close>


definition sample_job :: BatchJob where
  "sample_job = \<lparr>job_ID = 0, job_TenantID = 7, job_APIKeyID = 8, job_Model = ''m'', job_Status = JobStatusQueued,
     job_TotalItems = 0, job_CompletedItems = 0, job_FailedItems = 0, job_CreatedAt = 0, job_UpdatedAt = 0\<rparr>"

definition sample_item :: "string \<Rightarrow> BatchJobItem" where
  "sample_item c = \<lparr>item_ID = 0, item_JobID = 0, item_CustomID = c, item_Request = ''{}'',
     item_Status = ItemStatusQueued, item_Attempts = 0, item_Response = None, item_Error = None,
     item_CreatedAt = 0, item_UpdatedAt = 0\<rparr>"

definition sample_repo_env :: "time \<Rightarrow> repo_env" where
  "sample_repo_env t = \<lparr>re_fault = NoFault, re_fault2 = NoFault, re_now = t, re_new = (\<lambda>k. word_of_nat (100 + k)),
     re_locked = []\<rparr>"

definition sample_mem_env :: "time \<Rightarrow> mem_env" where
  "sample_mem_env t = \<lparr>me_now = t, me_new = (\<lambda>k. word_of_nat (100 + k))\<rparr>"

definition sample_postgres :: postgres where
  "sample_postgres = \<lparr>pg_jsonb = Some, pg_interval = (\<lambda>d. d)\<rparr>"

abbreviation sample_repo :: "(repo_env, job_tables) JobStore" where
  "sample_repo \<equiv> JobRepo sample_postgres (\<lambda>c. c)"

definition no_tables :: job_tables where
  "no_tables = \<lparr>t_jobs = [], t_items = [], t_outbox = []\<rparr>"

lemma repo_inv_no_tables [simp]: "repo_inv no_tables"
  by (simp add: repo_inv_def no_tables_def)

lemma mem_inv_New [simp]: "mem_inv NewMemStore"
  by (simp add: mem_inv_def NewMemStore_def)


lemma repo_fresh_run: "fresh_run (JobRepo pg coll) repo_fresh t evs"
  by (induction evs arbitrary: t) (simp_all add: repo_fresh_def)


definition sample_created :: job_tables where
  "sample_created = job_step sample_repo no_tables
     (JCreate (sample_repo_env 5) sample_job [sample_item ''a'', sample_item ''b''])"

lemma sample_created_inv: "repo_inv sample_created"
  using repo_step_items [OF repo_inv_no_tables, of 3 "JCreate (sample_repo_env 5) sample_job [sample_item ''a'', sample_item ''b'']"]
  by (simp add: sample_created_def)


text \<open>C10: A claimed item belongs to one claimant: after a claim handed an item out, no other claim of any
  worker, for any job and with any database faults in between, hands the same item out again until the
  running items of its job are requeued.\<close>

theorem claim_is_exclusive:
  assumes "repo_inv t" and "repo_ClaimNextQueuedItem e j M t = (Inr res, t1)" and "cr_Outcome res = ClaimClaimed"
    and "cr_Item res = Some it" and "\<forall>ev \<in> set evs. j \<notin> requeues ev"
    and "repo_ClaimNextQueuedItem e' j' M' (job_run (JobRepo pg coll) t1 evs) = (Inr res', t2)"
    and "cr_Outcome res' = ClaimClaimed" and "cr_Item res' = Some it'"
  shows "item_ID it' \<noteq> item_ID it"
  using repo.claim_exclusive [OF assms(1) _ assms(4,3) repo_fresh_run assms(5) _ assms(8,7), of pg coll e M t1 e' j' M' t2]
    assms(2,6) by (simp add: JobRepo_def)

definition sample_claimed :: "(jobs_error + ClaimResult) \<times> job_tables" where
  "sample_claimed = repo_ClaimNextQueuedItem (sample_repo_env 6) 100 3 sample_created"

definition sample_claimed_again :: "(jobs_error + ClaimResult) \<times> job_tables" where
  "sample_claimed_again = repo_ClaimNextQueuedItem (sample_repo_env 8) 100 3
     (job_run sample_repo (snd sample_claimed) [JRecompute (sample_repo_env 7) 100])"

lemma Inr_of: "(case fst p of Inl _ \<Rightarrow> False | Inr r \<Rightarrow> Q r) \<Longrightarrow> \<exists>r s. p = (Inr r, s) \<and> Q r"
  by (cases p) (auto split: sum.splits)

theorem claim_is_exclusive_witness:
  "\<exists>it it'. map_sum (\<lambda>_. ()) cr_Item (fst sample_claimed) = Inr (Some it)
     \<and> map_sum (\<lambda>_. ()) cr_Item (fst sample_claimed_again) = Inr (Some it') \<and> item_ID it' \<noteq> item_ID it"
proof -
  have "case fst sample_claimed of Inl _ \<Rightarrow> False | Inr r \<Rightarrow> cr_Outcome r = ClaimClaimed \<and> cr_Item r \<noteq> None" by code_simp
  from Inr_of [OF this] obtain res it t1 where c1: "sample_claimed = (Inr res, t1)" "cr_Outcome res = ClaimClaimed"
    "cr_Item res = Some it" by auto
  have "case fst sample_claimed_again of Inl _ \<Rightarrow> False | Inr r \<Rightarrow> cr_Outcome r = ClaimClaimed \<and> cr_Item r \<noteq> None" by code_simp
  from Inr_of [OF this] obtain res' it' t2 where c2: "sample_claimed_again = (Inr res', t2)" "cr_Outcome res' = ClaimClaimed"
    "cr_Item res' = Some it'" by auto
  have "repo_ClaimNextQueuedItem (sample_repo_env 6) 100 3 sample_created = (Inr res, t1)"
    using c1(1) by (simp add: sample_claimed_def)
  moreover have "repo_ClaimNextQueuedItem (sample_repo_env 8) 100 3
     (job_run sample_repo t1 [JRecompute (sample_repo_env 7) 100]) = (Inr res', t2)"
    using c2(1) unfolding sample_claimed_again_def c1(1) by simp
  ultimately have "item_ID it' \<noteq> item_ID it"
    using claim_is_exclusive [OF sample_created_inv _ c1(2,3) _ _ c2(2,3),
        of "sample_repo_env 6" 100 3 t1 "[JRecompute (sample_repo_env 7) 100]"] by simp
  then show ?thesis unfolding c1(1) c2(1) by (simp add: c1(3) c2(3))
qed

text \<open>The two stores disagree on finishing an item that is still queued: \<open>MemStore\<close> accepts the status
  failed for it (its check is \<open>ValidItemTransition\<close>), while \<open>JobRepo\<close>, whose statement asks for a running
  row, answers not found and leaves the table alone.\<close>

theorem queued_item_update_diverges:
  assumes "find (\<lambda>it. item_ID it = i) (concat (map snd (ms_items s))) = Some it" and "item_Status it = ItemStatusQueued"
    and "repo_inv t" and "row \<in> set (t_items t)" and "item_ID row = i" and "item_Status row = ItemStatusQueued"
    and "re_fault e = NoFault" and "bind_jsonb pg (normalizeJSONB r) = Inr resp"
  shows "fst (mem_UpdateItemTerminal me i ItemStatusFailed r m s) = Inr ()
     \<and> repo_UpdateItemTerminal pg e i ItemStatusFailed r m t = (Inl Jobs_ErrNotFound, t)"
proof
  show "fst (mem_UpdateItemTerminal me i ItemStatusFailed r m s) = Inr ()"
    using assms(1,2) by (simp add: mem_UpdateItemTerminal_def)
  have "x = row" if "x \<in> set (t_items t)" "item_ID x = i" for x
    using that assms(3-5) by (auto simp: repo_inv_def distinct_map inj_on_def)
  then have "\<not> list_ex (\<lambda>x. item_ID x = i \<and> item_Status x = ItemStatusRunning) (t_items t)"
    using assms(6) by (auto simp: list_ex_iff)
  then show "repo_UpdateItemTerminal pg e i ItemStatusFailed r m t = (Inl Jobs_ErrNotFound, t)"
    using assms(7,8) by (simp add: repo_UpdateItemTerminal_def update_item_sql_def mapJobsNotFound_def mapNotFound_def)
qed

theorem queued_item_update_diverges_witness:
  "fst (mem_UpdateItemTerminal (sample_mem_env 6) 101 ItemStatusFailed [] None
      (job_step MemJobStore NewMemStore (JCreate (sample_mem_env 5) sample_job [sample_item ''a'']))) = Inr ()
   \<and> repo_UpdateItemTerminal sample_postgres (sample_repo_env 6) 101 ItemStatusFailed [] None sample_created
      = (Inl Jobs_ErrNotFound, sample_created)"
proof -
  let ?s = "job_step MemJobStore NewMemStore (JCreate (sample_mem_env 5) sample_job [sample_item ''a''])"
  have "case find (\<lambda>it. item_ID it = 101) (concat (map snd (ms_items ?s))) of None \<Rightarrow> False
     | Some it \<Rightarrow> item_Status it = ItemStatusQueued" by code_simp
  then obtain it where it: "find (\<lambda>it. item_ID it = 101) (concat (map snd (ms_items ?s))) = Some it"
    "item_Status it = ItemStatusQueued" by (auto split: option.splits)
  have "list_ex (\<lambda>x. item_ID x = 101 \<and> item_Status x = ItemStatusQueued) (t_items sample_created)" by code_simp
  then obtain row where row: "row \<in> set (t_items sample_created)" "item_ID row = 101" "item_Status row = ItemStatusQueued"
    by (auto simp: list_ex_iff)
  show ?thesis
    by (rule queued_item_update_diverges [OF it sample_created_inv row])
      (simp_all add: sample_repo_env_def bind_jsonb_def normalizeJSONB_def sample_postgres_def)
qed

subsection \<open>The transactional outbox\<close>

text \<open>Every job has exactly one outbox row, and every outbox row belongs to a job.\<close>

definition outbox_inv :: "job_tables \<Rightarrow> bool" where
  [inv_defs]: "outbox_inv t \<longleftrightarrow> distinct (map job_ID (t_jobs t)) \<and> distinct (map ob_ID (t_outbox t))
     \<and> distinct (map ob_JobID (t_outbox t)) \<and> set (map ob_JobID (t_outbox t)) = set (map job_ID (t_jobs t))"

lemma outbox_inv_same:
  assumes "outbox_inv t" and "map job_ID (t_jobs t') = map job_ID (t_jobs t)"
    and "map ob_ID (t_outbox t') = map ob_ID (t_outbox t)" and "map ob_JobID (t_outbox t') = map ob_JobID (t_outbox t)"
  shows "outbox_inv t'"
  using assms by (simp only: outbox_inv_def)

lemma create_tx_outbox:
  assumes "outbox_inv t"
  shows "outbox_inv (snd (create_tx pg e job its t))"
proof -
  let ?i = "re_new e 0" and ?o = "re_new e (Suc (length its))"
  show ?thesis
  proof (cases "insert_items pg e ?i 1 its (t_items t)")
    case (Inl err)
    then show ?thesis using assms by (simp add: create_tx_def Let_def)
  next
    case (Inr rows)
    show ?thesis
    proof (cases "?i \<in> job_ID ` set (t_jobs t) \<or> ?o \<in> ob_ID ` set (t_outbox t) \<or> ?i \<in> ob_JobID ` set (t_outbox t)")
      case True
      then show ?thesis using Inr assms by (auto simp: create_tx_def Let_def)
    next
      case False
      then show ?thesis using Inr assms by (auto simp: create_tx_def Let_def outbox_inv_def)
    qed
  qed
qed

lemma same_ids:
  "map job_ID (upd_job j (\<lambda>x. x\<lparr>job_CompletedItems := a, job_FailedItems := b, job_Status := st,
      job_UpdatedAt := now\<rparr>) js) = map job_ID js"
  "map job_ID (map (\<lambda>x. if job_ID x = j \<and> job_Status x = JobStatusQueued
      then x\<lparr>job_Status := JobStatusRunning, job_UpdatedAt := now\<rparr> else x) js) = map job_ID js"
  by (simp_all add: upd_job_def)

lemma mark_outbox_ids:
  assumes "\<And>x. ob_ID (f x) = ob_ID x \<and> ob_JobID (f x) = ob_JobID x"
  shows "map ob_ID (t_outbox (snd (mark_outbox_sql i f t))) = map ob_ID (t_outbox t)"
    "map ob_JobID (t_outbox (snd (mark_outbox_sql i f t))) = map ob_JobID (t_outbox t)"
    "t_jobs (snd (mark_outbox_sql i f t)) = t_jobs t"
  using assms by (simp_all add: mark_outbox_sql_def)

lemma exec_sql_outbox:
  "outbox_inv t \<Longrightarrow> outbox_inv (snd (f t)) \<Longrightarrow> outbox_inv (snd (exec_sql fl f t))"
  by (cases fl) simp_all

lemma repo_snd_outbox:
  "snd (repo_MarkOutboxPublished e i t) = snd (exec_sql (re_fault e) (mark_outbox_sql i
     (\<lambda>ob. ob\<lparr>ob_Status := OutboxStatusPublished, ob_PublishedAt := Some (re_now e), ob_UpdatedAt := re_now e\<rparr>)) t)"
  "snd (repo_MarkOutboxFailedAttempt e i m t) = snd (exec_sql (re_fault e) (mark_outbox_sql i
     (\<lambda>ob. ob\<lparr>ob_Attempts := ob_Attempts ob + 1, ob_LastError := Some m, ob_UpdatedAt := re_now e\<rparr>)) t)"
  "snd (repo_RecomputeAndUpdateJobStatus e j t) = snd (exec_sql (re_fault e) (recompute_sql e j) t)"
  by (simp_all add: repo_MarkOutboxPublished_def repo_MarkOutboxFailedAttempt_def
      repo_RecomputeAndUpdateJobStatus_def split: prod.splits sum.splits)

lemma outbox_inv_items [simp]: "outbox_inv (t\<lparr>t_items := its\<rparr>) = outbox_inv t"
  by (simp add: outbox_inv_def)

lemma outbox_step:
  assumes "outbox_inv t"
  shows "outbox_inv (job_step (JobRepo pg coll) t ev)"
proof (cases ev)
  case (JCreate e job its)
  then show ?thesis using exec_sql_outbox [where f = "create_tx pg e job its", OF assms create_tx_outbox [OF assms]] by (simp add: JobRepo_def repo_snd)
next
  case (JClaim e j M)
  have "outbox_inv (snd (claim_tx e j M t))"
    by (cases rule: claim_tx_cases [of e j M t]) (use assms in simp_all)
  then show ?thesis using exec_sql_outbox [where f = "claim_tx e j M", OF assms] JClaim by (simp add: JobRepo_def repo_snd)
next
  case (JUpdate e i sta r m)
  have "outbox_inv (snd (update_item_sql pg e i sta (normalizeJSONB r) m t))"
    using assms by (simp add: update_item_sql_def split: sum.splits)
  then show ?thesis using exec_sql_outbox [where f = "update_item_sql pg e i sta (normalizeJSONB r) m", OF assms] JUpdate assms
    by (cases "item_terminal sta") (simp_all add: JobRepo_def repo_snd)
next
  case (JRequeue e j)
  then show ?thesis using assms by (cases "re_fault e") (simp_all add: JobRepo_def repo_RequeueRunningItems_def)
next
  case (JMarkRunning e j)
  have "outbox_inv (t\<lparr>t_jobs := map (\<lambda>x. if job_ID x = j \<and> job_Status x = JobStatusQueued
      then x\<lparr>job_Status := JobStatusRunning, job_UpdatedAt := re_now e\<rparr> else x) (t_jobs t)\<rparr>)"
    by (rule outbox_inv_same [OF assms]) (simp_all add: same_ids del: map_map)
  then show ?thesis using assms JMarkRunning by (cases "re_fault e") (simp_all add: JobRepo_def repo_MarkJobRunning_def)
next
  case (JRecompute e j)
  have "outbox_inv (snd (recompute_sql e j t))"
    by (rule outbox_inv_same [OF assms]) (simp_all add: recompute_sql_def Let_def same_ids)
  then show ?thesis using exec_sql_outbox [where f = "recompute_sql e j", OF assms] JRecompute by (simp add: JobRepo_def repo_snd_outbox)
next
  case (JOutboxPublished e i)
  have "outbox_inv (snd (mark_outbox_sql i
     (\<lambda>ob. ob\<lparr>ob_Status := OutboxStatusPublished, ob_PublishedAt := Some (re_now e), ob_UpdatedAt := re_now e\<rparr>) t))"
    by (rule outbox_inv_same [OF assms]) (simp_all add: mark_outbox_ids)
  then show ?thesis using exec_sql_outbox [OF assms] JOutboxPublished by (simp add: JobRepo_def repo_snd_outbox)
next
  case (JOutboxFailed e i m)
  have "outbox_inv (snd (mark_outbox_sql i
     (\<lambda>ob. ob\<lparr>ob_Attempts := ob_Attempts ob + 1, ob_LastError := Some m, ob_UpdatedAt := re_now e\<rparr>) t))"
    by (rule outbox_inv_same [OF assms]) (simp_all add: mark_outbox_ids)
  then show ?thesis using exec_sql_outbox [OF assms] JOutboxFailed by (simp add: JobRepo_def repo_snd_outbox)
qed

interpretation outbox: guarded_object "job_step (JobRepo pg coll)" outbox_inv for pg coll
  by unfold_locales (rule outbox_step)

lemma outbox_kept:
  assumes "set (t_outbox t) \<subseteq> set (t_outbox (snd (f t)))"
  shows "set (t_outbox t) \<subseteq> set (t_outbox (snd (exec_sql fl f t)))"
  using assms by (cases fl) auto

lemma mark_outbox_pending:
  assumes "ob \<in> set (t_outbox t)" and "ob_Status ob = OutboxStatusPending" and "i = ob_ID ob \<Longrightarrow> keeps"
    and "keeps \<Longrightarrow> ob_ID (f ob) = ob_ID ob \<and> ob_JobID (f ob) = ob_JobID ob \<and> ob_Status (f ob) = OutboxStatusPending"
  shows "\<exists>ob' \<in> set (t_outbox (snd (exec_sql fl (mark_outbox_sql i f) t))).
     ob_ID ob' = ob_ID ob \<and> ob_JobID ob' = ob_JobID ob \<and> ob_Status ob' = OutboxStatusPending"
proof -
  let ?g = "\<lambda>x. if ob_ID x = i \<and> ob_Status x = OutboxStatusPending then f x else x"
  have "?g ob \<in> set (t_outbox (snd (mark_outbox_sql i f t)))" using assms(1) by (simp add: mark_outbox_sql_def)
  moreover have "ob_ID (?g ob) = ob_ID ob \<and> ob_JobID (?g ob) = ob_JobID ob \<and> ob_Status (?g ob) = OutboxStatusPending"
    using assms by auto
  ultimately show ?thesis using assms(1,2) by (cases fl) auto
qed

lemma outbox_pending_step:
  assumes "ob \<in> set (t_outbox t)" and "ob_Status ob = OutboxStatusPending" and "\<forall>e. ev \<noteq> JOutboxPublished e (ob_ID ob)"
  shows "\<exists>ob' \<in> set (t_outbox (job_step (JobRepo pg coll) t ev)).
     ob_ID ob' = ob_ID ob \<and> ob_JobID ob' = ob_JobID ob \<and> ob_Status ob' = OutboxStatusPending"
proof -
  have keep: ?thesis if "set (t_outbox t) \<subseteq> set (t_outbox (job_step (JobRepo pg coll) t ev))"
    using that assms by blast
  show ?thesis
  proof (cases ev)
    case (JCreate e job its)
    have "set (t_outbox t) \<subseteq> set (t_outbox (snd (create_tx pg e job its t)))"
      by (auto simp: create_tx_def Let_def split: sum.splits)
    from outbox_kept [where f = "create_tx pg e job its", OF this] show ?thesis using JCreate by (intro keep) (simp add: JobRepo_def repo_snd)
  next
    case (JClaim e j M)
    have "set (t_outbox t) \<subseteq> set (t_outbox (snd (claim_tx e j M t)))"
      by (cases rule: claim_tx_cases [of e j M t]) simp_all
    from outbox_kept [where f = "claim_tx e j M", OF this] show ?thesis using JClaim by (intro keep) (simp add: JobRepo_def repo_snd)
  next
    case (JUpdate e i sta r m)
    have "set (t_outbox t) \<subseteq> set (t_outbox (snd (update_item_sql pg e i sta (normalizeJSONB r) m t)))"
      by (auto simp: update_item_sql_def split: sum.splits)
    from outbox_kept [where f = "update_item_sql pg e i sta (normalizeJSONB r) m", OF this] show ?thesis using JUpdate
      by (intro keep) (cases "item_terminal sta"; simp add: JobRepo_def repo_snd)
  next
    case (JRequeue e j)
    then show ?thesis by (intro keep) (cases "re_fault e"; simp add: JobRepo_def repo_RequeueRunningItems_def)
  next
    case (JMarkRunning e j)
    then show ?thesis by (intro keep) (cases "re_fault e"; simp add: JobRepo_def repo_MarkJobRunning_def)
  next
    case (JRecompute e j)
    have "set (t_outbox t) \<subseteq> set (t_outbox (snd (recompute_sql e j t)))" by (simp add: recompute_sql_def Let_def)
    from outbox_kept [where f = "recompute_sql e j", OF this] show ?thesis using JRecompute by (intro keep) (simp add: JobRepo_def repo_snd_outbox)
  next
    case (JOutboxPublished e i)
    then have "i \<noteq> ob_ID ob" using assms(3) by blast
    then show ?thesis using mark_outbox_pending [OF assms(1,2), of i False] JOutboxPublished
      by (simp add: JobRepo_def repo_snd_outbox)
  next
    case (JOutboxFailed e i m)
    then show ?thesis using mark_outbox_pending [OF assms(1,2), of i True] assms(2)
      by (simp add: JobRepo_def repo_snd_outbox)
  qed
qed

text \<open>C15: A committed job cannot lose its enqueue: from an empty database, after any sequence of
  operations and faults, the jobs and the outbox rows correspond one to one (creation writes both or
  neither), and a pending outbox row stays pending, and so is returned by the next drain, until it is
  marked published.\<close>

theorem outbox_one_per_job:
  "outbox_inv (job_run (JobRepo pg coll) no_tables evs)
   \<and> (\<forall>ob \<in> set (t_outbox t). ob_Status ob = OutboxStatusPending \<and> (\<forall>e. ev \<noteq> JOutboxPublished e (ob_ID ob))
        \<longrightarrow> (\<exists>ob' \<in> set (t_outbox (job_step (JobRepo pg coll) t ev)).
               ob_ID ob' = ob_ID ob \<and> ob_JobID ob' = ob_JobID ob \<and> ob_Status ob' = OutboxStatusPending))"
proof (intro conjI ballI impI)
  show "outbox_inv (job_run (JobRepo pg coll) no_tables evs)"
    by (rule outbox.run_inv) (simp add: outbox_inv_def no_tables_def)
next
  fix ob
  assume ob: "ob \<in> set (t_outbox t)" and pend: "ob_Status ob = OutboxStatusPending \<and> (\<forall>e. ev \<noteq> JOutboxPublished e (ob_ID ob))"
  show "\<exists>ob' \<in> set (t_outbox (job_step (JobRepo pg coll) t ev)).
      ob_ID ob' = ob_ID ob \<and> ob_JobID ob' = ob_JobID ob \<and> ob_Status ob' = OutboxStatusPending"
    using outbox_pending_step [OF ob] pend by blast
qed

theorem outbox_one_per_job_witness:
  "\<exists>ob. ob \<in> set (t_outbox sample_created) \<and> ob_Status ob = OutboxStatusPending
     \<and> outbox_inv (job_run sample_repo no_tables [JCreate (sample_repo_env 5) sample_job [sample_item ''a'']])
     \<and> (\<exists>ob'. ob' \<in> set (t_outbox (job_step sample_repo sample_created (JOutboxFailed (sample_repo_env 6) (ob_ID ob) ''redis down'')))
          \<and> ob_JobID ob' = ob_JobID ob \<and> ob_Status ob' = OutboxStatusPending)"
proof -
  have "list_ex (\<lambda>ob. ob_Status ob = OutboxStatusPending) (t_outbox sample_created)" by code_simp
  then obtain ob where "ob \<in> set (t_outbox sample_created)" "ob_Status ob = OutboxStatusPending" by (auto simp: list_ex_iff)
  then show ?thesis
    using outbox_one_per_job [of sample_postgres "\<lambda>c. c" "[JCreate (sample_repo_env 5) sample_job [sample_item ''a'']]" sample_created
        "JOutboxFailed (sample_repo_env 6) (ob_ID ob) ''redis down''"]
    unfolding job_step.simps foldl_Cons by blast
qed

end
