(* ===== verification/Queue.thy ===== *)
theory Queue
  imports Jobs
begin

section \<open>The job queue (internal/redisstore)\<close>

text \<open>
  The \<open>Queue\<close> interface of \<open>queue.go\<close> as a record of operations, the in-memory \<open>MemQueue\<close> and the
  Redis \<open>StreamQueue\<close>. The Go map of in-flight deliveries is a list in iteration order. The Redis
  server is outside the program: \<open>StreamQueue\<close> takes the answers of its commands from a record of
  commands. \<open>Consume\<close> is a loop that reads deliveries and hands each to a handler until its context
  ends; \<open>q_Deliver\<close> is one read of that loop, the messages its body then hands to the handler.
\<close>

record Message =
  msg_ID :: string
  msg_JobID :: string

text \<open>\<open>'e\<close> is what a call draws from its surroundings (clock, faults).\<close>

record ('e, 'q) Queue =
  q_Publish :: "'e \<Rightarrow> string \<Rightarrow> 'q \<Rightarrow> (string + unit) \<times> 'q"
  q_Deliver :: "'e \<Rightarrow> 'q \<Rightarrow> Message list \<times> 'q"
  q_Ack :: "'e \<Rightarrow> Message \<Rightarrow> 'q \<Rightarrow> (string + unit) \<times> 'q"
  q_Claim :: "'e \<Rightarrow> duration \<Rightarrow> 'q \<Rightarrow> (string + Message list) \<times> 'q"
  q_PublishDLQ :: "'e \<Rightarrow> Message \<Rightarrow> string \<Rightarrow> 'q \<Rightarrow> (string + unit) \<times> 'q"

subsection \<open>MemQueue (memqueue.go)\<close>

record DLQEntry =
  dlq_Msg :: Message
  dlq_Reason :: string

record inflightMsg =
  if_msg :: Message
  if_deliveredAt :: time

record MemQueue =
  mq_nextID :: nat
  mq_pending :: "Message list"
  mq_inflight :: "inflightMsg list"
  mq_dlq :: "DLQEntry list"
  mq_published :: "string list"
  mq_acked :: "Message list"
  mq_publishErr :: "string option"

definition NewMemQueue :: MemQueue where
  "NewMemQueue = \<lparr>mq_nextID = 0, mq_pending = [], mq_inflight = [], mq_dlq = [], mq_published = [],
     mq_acked = [], mq_publishErr = None\<rparr>"

definition SetPublishErr :: "string option \<Rightarrow> MemQueue \<Rightarrow> MemQueue" where
  "SetPublishErr err q = q\<lparr>mq_publishErr := err\<rparr>"

definition mem_msg_id :: "nat \<Rightarrow> string" where
  "mem_msg_id n = ''mem-'' @ nat_decimal n"

definition memq_Publish :: "time \<Rightarrow> string \<Rightarrow> MemQueue \<Rightarrow> (string + unit) \<times> MemQueue" where
  "memq_Publish now jobID q =
     (case mq_publishErr q of
        Some err \<Rightarrow> (Inl err, q)
      | None \<Rightarrow>
          (Inr (), q\<lparr>mq_nextID := mq_nextID q + 1,
                     mq_pending := mq_pending q @ [\<lparr>msg_ID = mem_msg_id (mq_nextID q + 1), msg_JobID = jobID\<rparr>],
                     mq_published := mq_published q @ [jobID]\<rparr>))"

text \<open>Assignment to a key of the in-flight map.\<close>

definition put_inflight :: "inflightMsg \<Rightarrow> inflightMsg list \<Rightarrow> inflightMsg list" where
  "put_inflight x l = filter (\<lambda>y. msg_ID (if_msg y) \<noteq> msg_ID (if_msg x)) l @ [x]"

definition takeOne :: "time \<Rightarrow> MemQueue \<Rightarrow> Message option \<times> MemQueue" where
  "takeOne now q =
     (case mq_pending q of
        [] \<Rightarrow> (None, q)
      | msg # rest \<Rightarrow>
          (Some msg, q\<lparr>mq_pending := rest,
                      mq_inflight := put_inflight \<lparr>if_msg = msg, if_deliveredAt = now\<rparr> (mq_inflight q)\<rparr>))"

definition memq_Ack :: "time \<Rightarrow> Message \<Rightarrow> MemQueue \<Rightarrow> (string + unit) \<times> MemQueue" where
  "memq_Ack now msg q =
     (Inr (), q\<lparr>mq_inflight := filter (\<lambda>y. msg_ID (if_msg y) \<noteq> msg_ID msg) (mq_inflight q),
                mq_acked := mq_acked q @ [msg]\<rparr>)"

definition memq_Claim :: "time \<Rightarrow> duration \<Rightarrow> MemQueue \<Rightarrow> (string + Message list) \<times> MemQueue" where
  "memq_Claim now minIdle q =
     (Inr (map if_msg (filter (\<lambda>y. time_Sub now (if_deliveredAt y) \<ge> minIdle) (mq_inflight q))),
      q\<lparr>mq_inflight := map (\<lambda>y. if time_Sub now (if_deliveredAt y) \<ge> minIdle
                               then y\<lparr>if_deliveredAt := now\<rparr> else y) (mq_inflight q)\<rparr>)"

definition memq_PublishDLQ :: "time \<Rightarrow> Message \<Rightarrow> string \<Rightarrow> MemQueue \<Rightarrow> (string + unit) \<times> MemQueue" where
  "memq_PublishDLQ now msg reason q =
     (Inr (), q\<lparr>mq_dlq := mq_dlq q @ [\<lparr>dlq_Msg = msg, dlq_Reason = reason\<rparr>]\<rparr>)"

definition memq_Deliver :: "time \<Rightarrow> MemQueue \<Rightarrow> Message list \<times> MemQueue" where
  "memq_Deliver now q = (case takeOne now q of (None, q) \<Rightarrow> ([], q) | (Some msg, q) \<Rightarrow> ([msg], q))"

definition MemJobQueue :: "(time, MemQueue) Queue" where
  "MemJobQueue = \<lparr>q_Publish = memq_Publish, q_Deliver = memq_Deliver, q_Ack = memq_Ack, q_Claim = memq_Claim,
     q_PublishDLQ = memq_PublishDLQ\<rparr>"

definition PublishCount :: "MemQueue \<Rightarrow> nat" where "PublishCount q = length (mq_published q)"
definition InFlightCount :: "MemQueue \<Rightarrow> nat" where "InFlightCount q = length (mq_inflight q)"
definition PendingCount :: "MemQueue \<Rightarrow> nat" where "PendingCount q = length (mq_pending q)"

subsection \<open>StreamQueue (queue.go, redisstore.go)\<close>

record Streams =
  st_Key :: string
  st_Group :: string

definition ConsumerName :: "string option \<Rightarrow> nat \<Rightarrow> string" where
  "ConsumerName hostname pid =
     (case hostname of None \<Rightarrow> ''worker'' | Some h \<Rightarrow> h) @ ''-'' @ nat_decimal pid"

definition fieldJobID :: string where "fieldJobID = ''job_id''"
definition fieldMessageID :: string where "fieldMessageID = ''message_id''"
definition fieldReason :: string where "fieldReason = ''reason''"
definition dlqSuffix :: string where "dlqSuffix = '':dlq''"
definition maxStreamLen :: int where "maxStreamLen = 100000"
definition defaultBlock :: duration where "defaultBlock = 5000000000"
definition defaultReadCount :: int where "defaultReadCount = 16"

text \<open>A stream entry: a field is absent, a string, or a value of another type.\<close>

datatype redis_value = RStr string | ROther

record XMessage =
  xm_ID :: string
  xm_Values :: "(string \<times> redis_value) list"

datatype read_result = ReadNil | ReadErr string | ReadStreams "XMessage list list"

text \<open>The commands of the server that the queue sends, as functions on the server's state \<open>'r\<close>.\<close>

record 'r redis_commands =
  rc_XAdd :: "string \<Rightarrow> int \<Rightarrow> (string \<times> string) list \<Rightarrow> 'r \<Rightarrow> (string + string) \<times> 'r"
  rc_XReadGroup :: "string \<Rightarrow> string \<Rightarrow> string list \<Rightarrow> int \<Rightarrow> duration \<Rightarrow> 'r \<Rightarrow> read_result \<times> 'r"
  rc_XAck :: "string \<Rightarrow> string \<Rightarrow> string \<Rightarrow> 'r \<Rightarrow> (string + int) \<times> 'r"
  rc_XAutoClaim :: "string \<Rightarrow> string \<Rightarrow> string \<Rightarrow> duration \<Rightarrow> string \<Rightarrow> int \<Rightarrow> 'r \<Rightarrow> (string + XMessage list) \<times> 'r"
  rc_XGroupCreateMkStream :: "string \<Rightarrow> string \<Rightarrow> string \<Rightarrow> 'r \<Rightarrow> (string + unit) \<times> 'r"

record StreamQueue =
  sq_streams :: Streams
  sq_consumer :: string
  sq_block :: duration
  sq_count :: int

definition NewStreamQueue :: "Streams \<Rightarrow> string \<Rightarrow> (StreamQueue \<Rightarrow> StreamQueue) list \<Rightarrow> StreamQueue" where
  "NewStreamQueue streams consumer opts =
     foldl (\<lambda>q opt. opt q)
       \<lparr>sq_streams = streams, sq_consumer = consumer, sq_block = defaultBlock, sq_count = defaultReadCount\<rparr> opts"

definition WithBlock :: "duration \<Rightarrow> StreamQueue \<Rightarrow> StreamQueue" where
  "WithBlock d q = q\<lparr>sq_block := d\<rparr>"

text \<open>\<open>strings.Contains\<close>.\<close>

fun Contains :: "string \<Rightarrow> string \<Rightarrow> bool" where
  "Contains [] sub \<longleftrightarrow> sub = []"
| "Contains (c # s) sub \<longleftrightarrow> take (length sub) (c # s) = sub \<or> Contains s sub"

definition messageFromX :: "XMessage \<Rightarrow> Message" where
  "messageFromX xm =
     \<lparr>msg_ID = xm_ID xm,
      msg_JobID = (case map_of (xm_Values xm) fieldJobID of Some (RStr s) \<Rightarrow> s | _ \<Rightarrow> [])\<rparr>"

definition ensureGroup :: "'r redis_commands \<Rightarrow> StreamQueue \<Rightarrow> 'r \<Rightarrow> (string + unit) \<times> 'r" where
  "ensureGroup rc q r =
     (case rc_XGroupCreateMkStream rc (st_Key (sq_streams q)) (st_Group (sq_streams q)) ''0'' r of
        (Inl err, r) \<Rightarrow>
          (if Contains err ''BUSYGROUP'' then (Inr (), r)
           else (Inl (''redisstore: ensure group '' @ st_Group (sq_streams q) @ '': '' @ err), r))
      | (Inr _, r) \<Rightarrow> (Inr (), r))"

definition stream_Publish :: "'r redis_commands \<Rightarrow> StreamQueue \<Rightarrow> string \<Rightarrow> 'r \<Rightarrow> (string + unit) \<times> 'r" where
  "stream_Publish rc q jobID r =
     (case rc_XAdd rc (st_Key (sq_streams q)) maxStreamLen [(fieldJobID, jobID)] r of
        (Inl err, r) \<Rightarrow> (Inl (''redisstore: publish job '' @ jobID @ '': '' @ err), r)
      | (Inr _, r) \<Rightarrow> (Inr (), r))"

definition stream_Ack :: "'r redis_commands \<Rightarrow> StreamQueue \<Rightarrow> Message \<Rightarrow> 'r \<Rightarrow> (string + unit) \<times> 'r" where
  "stream_Ack rc q msg r =
     (case rc_XAck rc (st_Key (sq_streams q)) (st_Group (sq_streams q)) (msg_ID msg) r of
        (Inl err, r) \<Rightarrow> (Inl (''redisstore: ack '' @ msg_ID msg @ '': '' @ err), r)
      | (Inr _, r) \<Rightarrow> (Inr (), r))"

definition stream_Claim ::
  "'r redis_commands \<Rightarrow> StreamQueue \<Rightarrow> duration \<Rightarrow> 'r \<Rightarrow> (string + Message list) \<times> 'r" where
  "stream_Claim rc q minIdle r =
     (case ensureGroup rc q r of
        (Inl err, r) \<Rightarrow> (Inl err, r)
      | (Inr _, r) \<Rightarrow>
          (case rc_XAutoClaim rc (st_Key (sq_streams q)) (st_Group (sq_streams q)) (sq_consumer q) minIdle ''0''
                  (sq_count q) r of
             (Inl err, r) \<Rightarrow> (Inl (''redisstore: claim: '' @ err), r)
           | (Inr claimed, r) \<Rightarrow> (Inr (map messageFromX claimed), r)))"

definition stream_PublishDLQ ::
  "'r redis_commands \<Rightarrow> StreamQueue \<Rightarrow> Message \<Rightarrow> string \<Rightarrow> 'r \<Rightarrow> (string + unit) \<times> 'r" where
  "stream_PublishDLQ rc q msg reason r =
     (case rc_XAdd rc (st_Key (sq_streams q) @ dlqSuffix) maxStreamLen
             [(fieldJobID, msg_JobID msg), (fieldMessageID, msg_ID msg), (fieldReason, reason)] r of
        (Inl err, r) \<Rightarrow> (Inl (''redisstore: publish dlq for job '' @ msg_JobID msg @ '': '' @ err), r)
      | (Inr _, r) \<Rightarrow> (Inr (), r))"

text \<open>
  One round of \<open>Consume\<close>, after its check of the context: a block timeout and a failed read deliver
  nothing (after a failure the loop pauses), a read delivers its entries in order.
\<close>

definition stream_Deliver :: "'r redis_commands \<Rightarrow> StreamQueue \<Rightarrow> 'r \<Rightarrow> Message list \<times> 'r" where
  "stream_Deliver rc q r =
     (case rc_XReadGroup rc (st_Group (sq_streams q)) (sq_consumer q) [st_Key (sq_streams q), ''>''] (sq_count q)
             (sq_block q) r of
        (ReadNil, r) \<Rightarrow> ([], r)
      | (ReadErr _, r) \<Rightarrow> ([], r)
      | (ReadStreams streams, r) \<Rightarrow> (concat (map (map messageFromX) streams), r))"

text \<open>The server's commands may be changed between calls by the call's environment (an outage).\<close>

definition RedisQueue :: "StreamQueue \<Rightarrow> ('r redis_commands, 'r) Queue" where
  "RedisQueue q = \<lparr>q_Publish = (\<lambda>rc. stream_Publish rc q), q_Deliver = (\<lambda>rc. stream_Deliver rc q),
     q_Ack = (\<lambda>rc. stream_Ack rc q), q_Claim = (\<lambda>rc. stream_Claim rc q),
     q_PublishDLQ = (\<lambda>rc. stream_PublishDLQ rc q)\<rparr>"

subsection \<open>What a queue promises\<close>

text \<open>
  \<open>held q\<close> are the messages the queue still owes: published or delivered, not acknowledged. A
  message leaves only by its own acknowledgement.
\<close>

locale job_queue =
  fixes queue :: "('e, 'q) Queue"
    and inv :: "'q \<Rightarrow> bool"
    and held :: "'q \<Rightarrow> Message list"
  assumes publish_inv: "inv q \<Longrightarrow> inv (snd (q_Publish queue e j q))"
    and deliver_inv: "inv q \<Longrightarrow> inv (snd (q_Deliver queue e q))"
    and ack_inv: "inv q \<Longrightarrow> inv (snd (q_Ack queue e m q))"
    and claim_inv: "inv q \<Longrightarrow> inv (snd (q_Claim queue e d q))"
    and dlq_inv: "inv q \<Longrightarrow> inv (snd (q_PublishDLQ queue e m r q))"
    and publish_ok: "inv q \<Longrightarrow> q_Publish queue e j q = (Inr (), q') \<Longrightarrow>
      \<exists>m. msg_JobID m = j \<and> m \<notin> set (held q) \<and> set (held q') = insert m (set (held q))"
    and publish_err: "inv q \<Longrightarrow> q_Publish queue e j q = (Inl err, q') \<Longrightarrow> set (held q') = set (held q)"
    and deliver_held: "inv q \<Longrightarrow> set (held (snd (q_Deliver queue e q))) = set (held q)"
    and deliver_sub: "inv q \<Longrightarrow> set (fst (q_Deliver queue e q)) \<subseteq> set (held q)"
    and ack_held: "inv q \<Longrightarrow> set (held q) - {x. msg_ID x = msg_ID m} \<subseteq> set (held (snd (q_Ack queue e m q)))"
    and claim_held: "inv q \<Longrightarrow> set (held (snd (q_Claim queue e d q))) = set (held q)"
    and claim_sub: "inv q \<Longrightarrow> q_Claim queue e d q = (Inr ms, q') \<Longrightarrow> set ms \<subseteq> set (held q)"
    and dlq_held: "inv q \<Longrightarrow> set (held (snd (q_PublishDLQ queue e m r q))) = set (held q)"

datatype 'e queue_event =
    QPublish 'e string
  | QDeliver 'e
  | QAck 'e Message
  | QClaim 'e duration
  | QDLQ 'e Message string

fun queue_step :: "('e, 'q) Queue \<Rightarrow> 'q \<Rightarrow> 'e queue_event \<Rightarrow> 'q" where
  "queue_step qu q (QPublish e j) = snd (q_Publish qu e j q)"
| "queue_step qu q (QDeliver e) = snd (q_Deliver qu e q)"
| "queue_step qu q (QAck e m) = snd (q_Ack qu e m q)"
| "queue_step qu q (QClaim e d) = snd (q_Claim qu e d q)"
| "queue_step qu q (QDLQ e m r) = snd (q_PublishDLQ qu e m r q)"

fun acks :: "'e queue_event \<Rightarrow> string option" where
  "acks (QAck e m) = Some (msg_ID m)"
| "acks _ = None"

context job_queue
begin

lemma step_inv: "inv q \<Longrightarrow> inv (queue_step queue q ev)"
  by (cases ev) (simp_all add: publish_inv deliver_inv ack_inv claim_inv dlq_inv)

lemma step_held:
  assumes "inv q" and "m \<in> set (held q)" and "acks ev \<noteq> Some (msg_ID m)"
  shows "m \<in> set (held (queue_step queue q ev))"
proof (cases ev)
  case (QPublish e j)
  obtain res q' where p: "q_Publish queue e j q = (res, q')" by fastforce
  then have "m \<in> set (held q')"
    using publish_ok [OF assms(1)] publish_err [OF assms(1)] assms(2) by (cases res) force+
  then show ?thesis using QPublish p by simp
next
  case (QDeliver e)
  then show ?thesis using deliver_held [OF assms(1)] assms(2) by simp
next
  case (QAck e m')
  then show ?thesis using ack_held [OF assms(1), of m' e] assms(2,3) by auto
next
  case (QClaim e d)
  then show ?thesis using claim_held [OF assms(1)] assms(2) by simp
next
  case (QDLQ e m' r)
  then show ?thesis using dlq_held [OF assms(1)] assms(2) by simp
qed

text \<open>No message is lost: a published message stays held until it is acknowledged by id.\<close>

lemma run_held:
  "inv q \<Longrightarrow> m \<in> set (held q) \<Longrightarrow> \<forall>ev \<in> set evs. acks ev \<noteq> Some (msg_ID m) \<Longrightarrow>
     m \<in> set (held (foldl (queue_step queue) q evs))"
  by (induction evs arbitrary: q) (simp_all add: step_inv step_held)

end

subsection \<open>MemQueue keeps the promises\<close>

definition memq_held :: "MemQueue \<Rightarrow> Message list" where
  "memq_held q = mq_pending q @ map if_msg (mq_inflight q)"

text \<open>Ids are issued once, in order, and no two held messages share one.\<close>

definition memq_inv :: "MemQueue \<Rightarrow> bool" where
  [inv_defs]: "memq_inv q \<longleftrightarrow> distinct (map msg_ID (memq_held q))
     \<and> (\<forall>m \<in> set (memq_held q). \<exists>k \<le> mq_nextID q. msg_ID m = mem_msg_id k)"

lemma mem_msg_id_eq [simp]: "mem_msg_id a = mem_msg_id b \<longleftrightarrow> a = b"
  by (simp add: mem_msg_id_def)

lemma memq_publish_fresh:
  "memq_inv q \<Longrightarrow> mem_msg_id (Suc (mq_nextID q)) \<notin> msg_ID ` set (memq_held q)"
  by (fastforce simp: memq_inv_def)

lemma memq_inv_same_held:
  assumes "memq_inv q" and "mset (map msg_ID (memq_held q')) = mset (map msg_ID (memq_held q))"
    and "set (memq_held q') = set (memq_held q)" and "mq_nextID q' = mq_nextID q"
  shows "memq_inv q'"
  using assms(1,3,4) mset_eq_imp_distinct_iff [OF assms(2)] by (simp add: memq_inv_def)

lemma memq_deliver_held:
  assumes "memq_inv q"
  shows "mset (memq_held (snd (memq_Deliver now q))) = mset (memq_held q)"
    "mq_nextID (snd (memq_Deliver now q)) = mq_nextID q"
    "set (fst (memq_Deliver now q)) \<subseteq> set (memq_held q)"
proof (atomize (full), cases "mq_pending q")
  case Nil
  then show "mset (memq_held (snd (memq_Deliver now q))) = mset (memq_held q)
    \<and> mq_nextID (snd (memq_Deliver now q)) = mq_nextID q \<and> set (fst (memq_Deliver now q)) \<subseteq> set (memq_held q)"
    by (simp add: memq_Deliver_def takeOne_def)
next
  case (Cons m rest)
  have "msg_ID m \<notin> (\<lambda>y. msg_ID (if_msg y)) ` set (mq_inflight q)"
    using assms Cons by (auto simp: memq_inv_def memq_held_def)
  then have "filter (\<lambda>y. msg_ID (if_msg y) \<noteq> msg_ID m) (mq_inflight q) = mq_inflight q"
    by (intro filter_True) (metis imageI)
  then show "mset (memq_held (snd (memq_Deliver now q))) = mset (memq_held q)
    \<and> mq_nextID (snd (memq_Deliver now q)) = mq_nextID q \<and> set (fst (memq_Deliver now q)) \<subseteq> set (memq_held q)"
    using Cons by (simp add: memq_Deliver_def takeOne_def put_inflight_def memq_held_def)
qed

lemma memq_claim_held: "memq_held (snd (memq_Claim now d q)) = memq_held q"
  by (simp add: memq_held_def memq_Claim_def comp_def if_distrib cong: if_cong)

lemma memq_ack_held:
  "memq_held (snd (memq_Ack now m q)) = mq_pending q @ filter (\<lambda>x. msg_ID x \<noteq> msg_ID m) (map if_msg (mq_inflight q))"
  by (simp add: memq_held_def memq_Ack_def filter_map comp_def)

lemma memq_ack_inv: "memq_inv q \<Longrightarrow> memq_inv (snd (memq_Ack now m q))"
proof -
  assume inv: "memq_inv q"
  have "distinct (map msg_ID (mq_pending q @ filter (\<lambda>x. msg_ID x \<noteq> msg_ID m) (map if_msg (mq_inflight q))))"
    using inv unfolding memq_inv_def memq_held_def map_append distinct_append
    by (auto intro: distinct_map_filter)
  moreover have "set (memq_held (snd (memq_Ack now m q))) \<subseteq> set (memq_held q)"
    unfolding memq_ack_held by (auto simp: memq_held_def)
  ultimately show ?thesis using inv unfolding memq_inv_def memq_ack_held by (auto simp: memq_Ack_def)
qed

lemma memq_publish_inv: "memq_inv q \<Longrightarrow> memq_inv (snd (memq_Publish now j q))"
proof -
  assume inv: "memq_inv q"
  note fresh = memq_publish_fresh [OF inv]
  show ?thesis
  proof (cases "mq_publishErr q")
    case None
    have "\<exists>k \<le> Suc (mq_nextID q). msg_ID m = mem_msg_id k" if "m \<in> set (memq_held q)" for m
      using inv that unfolding memq_inv_def by (meson le_SucI)
    then show ?thesis using inv fresh None
      by (auto simp: memq_Publish_def memq_inv_def memq_held_def)
  qed (simp add: memq_Publish_def inv)
qed

interpretation memq: job_queue MemJobQueue memq_inv memq_held
proof
  fix q q' :: MemQueue and e j m d r err ms
  show "memq_inv q \<Longrightarrow> memq_inv (snd (q_Publish MemJobQueue e j q))" by (simp add: MemJobQueue_def memq_publish_inv)
  show "memq_inv q \<Longrightarrow> memq_inv (snd (q_Ack MemJobQueue e m q))" by (simp add: MemJobQueue_def memq_ack_inv)
  show "memq_inv q \<Longrightarrow> memq_inv (snd (q_Deliver MemJobQueue e q))"
  proof -
    assume inv: "memq_inv q"
    note d = memq_deliver_held [OF inv, of e]
    show ?thesis
      by (rule memq_inv_same_held [OF inv]) (simp_all add: MemJobQueue_def d mset_eq_setD [OF d(1)])
  qed
  show "memq_inv q \<Longrightarrow> memq_inv (snd (q_Claim MemJobQueue e d q))"
    by (rule memq_inv_same_held [of q]) (simp_all add: MemJobQueue_def memq_claim_held, simp add: memq_Claim_def)
  show "memq_inv q \<Longrightarrow> memq_inv (snd (q_PublishDLQ MemJobQueue e m r q))"
    by (simp add: MemJobQueue_def memq_PublishDLQ_def memq_inv_def memq_held_def)
  show "memq_inv q \<Longrightarrow> q_Publish MemJobQueue e j q = (Inr (), q') \<Longrightarrow>
      \<exists>m. msg_JobID m = j \<and> m \<notin> set (memq_held q) \<and> set (memq_held q') = insert m (set (memq_held q))"
  proof -
    assume inv: "memq_inv q" and p: "q_Publish MemJobQueue e j q = (Inr (), q')"
    let ?m = "\<lparr>msg_ID = mem_msg_id (Suc (mq_nextID q)), msg_JobID = j\<rparr>"
    have "?m \<notin> set (memq_held q)" using memq_publish_fresh [OF inv] by (metis Message.select_convs(1) imageI)
    moreover have "set (memq_held q') = insert ?m (set (memq_held q))"
      using p by (auto simp: MemJobQueue_def memq_Publish_def memq_held_def split: option.splits)
    ultimately show ?thesis by (intro exI [of _ ?m]) simp
  qed
  show "memq_inv q \<Longrightarrow> q_Publish MemJobQueue e j q = (Inl err, q') \<Longrightarrow> set (memq_held q') = set (memq_held q)"
    by (auto simp: MemJobQueue_def memq_Publish_def split: option.splits)
  show "memq_inv q \<Longrightarrow> set (memq_held (snd (q_Deliver MemJobQueue e q))) = set (memq_held q)"
    by (simp add: MemJobQueue_def mset_eq_setD [OF memq_deliver_held(1)])
  show "memq_inv q \<Longrightarrow> set (fst (q_Deliver MemJobQueue e q)) \<subseteq> set (memq_held q)"
    using memq_deliver_held(3) by (simp add: MemJobQueue_def)
  show "memq_inv q \<Longrightarrow> set (memq_held q) - {x. msg_ID x = msg_ID m} \<subseteq> set (memq_held (snd (q_Ack MemJobQueue e m q)))"
    by (auto simp: MemJobQueue_def memq_Ack_def memq_held_def)
  show "memq_inv q \<Longrightarrow> set (memq_held (snd (q_Claim MemJobQueue e d q))) = set (memq_held q)"
    by (simp add: MemJobQueue_def memq_claim_held)
  show "memq_inv q \<Longrightarrow> q_Claim MemJobQueue e d q = (Inr ms, q') \<Longrightarrow> set ms \<subseteq> set (memq_held q)"
    by (auto simp: MemJobQueue_def memq_Claim_def memq_held_def)
  show "memq_inv q \<Longrightarrow> set (memq_held (snd (q_PublishDLQ MemJobQueue e m r q))) = set (memq_held q)"
    by (simp add: MemJobQueue_def memq_PublishDLQ_def memq_held_def)
qed

text \<open>At-least-once: a message that was published to the in-memory queue and not yet acknowledged is
  still held (waiting or in flight, so a later read or claim can return it) after any sequence of
  publishes, deliveries, claims, dead letters and acknowledgements of other messages.\<close>

theorem unacked_message_is_kept:
  assumes "memq_inv q" and "m \<in> set (memq_held q)" and "\<forall>ev \<in> set evs. acks ev \<noteq> Some (msg_ID m)"
  shows "m \<in> set (memq_held (foldl (queue_step MemJobQueue) q evs))"
  using assms by (rule memq.run_held)

lemma memq_inv_New [simp]: "memq_inv NewMemQueue"
  by (simp add: memq_inv_def memq_held_def NewMemQueue_def)

theorem unacked_message_is_kept_witness:
  "\<lparr>msg_ID = mem_msg_id 1, msg_JobID = ''j''\<rparr> \<in> set (memq_held (foldl (queue_step MemJobQueue)
     (queue_step MemJobQueue NewMemQueue (QPublish 0 ''j'')) [QDeliver 5, QPublish 6 ''k'', QAck 7 \<lparr>msg_ID = mem_msg_id 2, msg_JobID = ''k''\<rparr>]))"
  by (rule unacked_message_is_kept [OF memq.step_inv [OF memq_inv_New]])
    (simp_all add: MemJobQueue_def memq_Publish_def NewMemQueue_def memq_held_def)

end
