(* ===== verification/Batch.thy ===== *)
theory Batch
  imports Batch_Request Api_Helpers Job_Repo Queue
begin

section \<open>The batch endpoints (internal/api/batch.go)\<close>

text \<open>
  \<open>createBatchJob\<close> is a state machine like the completions handler: one step runs the code up to and
  including the next call on something shared (the idempotency store, the limiter, the job store, the
  queue), so that requests and workers can interleave. The read handlers make one call each and are plain
  handlers. Parameters beside those of the completions handler: the job store and the queue, the text of a
  timestamp, \<open>json.Unmarshal\<close> of a whole text and \<open>uuid.Parse\<close>.
\<close>

record ('e, 's, 'c, 'l, 'r, 'x, 'je, 't, 'qe, 'q) batch_deps =
  bd_Deps :: "('e, 's, 'c, 'l, 'r, 'x) Deps"
  bd_Jobs :: "('je, 't) JobStore"
  bd_JobQueue :: "('qe, 'q) Queue"
  bd_whole :: "string \<Rightarrow> json option"
  bd_time_json :: "time \<Rightarrow> json"
  bd_uuid_Parse :: "string \<Rightarrow> uuid option"

record ('s, 'c, 'l, 'r, 't, 'q) batch_world =
  bw_gw :: "('s, 'c, 'l, 'r) gateway"
  bw_jobs :: 't
  bw_queue :: 'q
  bw_BatchJobsCreatedTotal :: nat

record ('e, 'je, 'qe) batch_env =
  be_idem :: 'e
  be_reread :: 'e
  be_now :: time
  be_job :: 'je
  be_queue :: 'qe

subsection \<open>Response shapes\<close>

definition batchJobObject :: string where "batchJobObject = ''batch_job''"

definition nat_json :: "nat \<Rightarrow> json" where "nat_json n = JNum (nat_decimal n)"

definition batchJobCreateResponse :: "(uuid \<Rightarrow> string) \<Rightarrow> BatchJob \<Rightarrow> json" where
  "batchJobCreateResponse uuid_str j =
     JObj [(''id'', JStr (uuid_str (job_ID j))), (''object'', JStr batchJobObject),
           (''status'', JStr (JobStatus_String (job_Status j))), (''total_items'', nat_json (job_TotalItems j)),
           (''completed_items'', nat_json (job_CompletedItems j)), (''failed_items'', nat_json (job_FailedItems j))]"

definition toBatchJobResponse :: "(uuid \<Rightarrow> string) \<Rightarrow> (time \<Rightarrow> json) \<Rightarrow> BatchJob \<Rightarrow> json" where
  "toBatchJobResponse uuid_str tj j =
     JObj [(''id'', JStr (uuid_str (job_ID j))), (''object'', JStr batchJobObject),
           (''status'', JStr (JobStatus_String (job_Status j))), (''model'', JStr (job_Model j)),
           (''total_items'', nat_json (job_TotalItems j)), (''completed_items'', nat_json (job_CompletedItems j)),
           (''failed_items'', nat_json (job_FailedItems j)), (''created_at'', tj (job_CreatedAt j)),
           (''updated_at'', tj (job_UpdatedAt j))]"

text \<open>A \<open>RawMessage\<close> that does not hold one JSON value cannot be marshalled.\<close>

definition toBatchItemResponse ::
  "(uuid \<Rightarrow> string) \<Rightarrow> (time \<Rightarrow> json) \<Rightarrow> (string \<Rightarrow> json option) \<Rightarrow> BatchJobItem \<Rightarrow> json option" where
  "toBatchItemResponse uuid_str tj whole it =
     (case whole (item_Request it) of
        None \<Rightarrow> None
      | Some req \<Rightarrow>
          (case (case item_Response it of None \<Rightarrow> Some JNull | Some r \<Rightarrow> whole r) of
             None \<Rightarrow> None
           | Some resp \<Rightarrow>
               Some (JObj [(''id'', JStr (uuid_str (item_ID it))), (''custom_id'', JStr (item_CustomID it)),
                     (''request'', req), (''status'', JStr (ItemStatus_String (item_Status it))),
                     (''attempts'', JNum (int_decimal (item_Attempts it))), (''response'', resp),
                     (''error'', case item_Error it of None \<Rightarrow> JNull | Some m \<Rightarrow> JStr m),
                     (''created_at'', tj (item_CreatedAt it)), (''updated_at'', tj (item_UpdatedAt it))])))"

subsection \<open>Creation\<close>

text \<open>A validated create request and the program points.\<close>

record batch_job =
  bj_principal :: Principal
  bj_model :: string
  bj_items :: "batchItemInput list"
  bj_scope :: string
  bj_idemKey :: string
  bj_rawHash :: string

datatype batch_pc =
    BStart
  | BCheck batch_job
  | BAllow batch_job
  | BBegin batch_job
  | BCreate batch_job "uuid option"
  | BPublish "uuid option" BatchJob BatchJobOutbox
  | BMark "uuid option" BatchJob BatchJobOutbox "string option"
  | BRespond "uuid option" chat_response
  | BDone response_writer
  | BAborted response_writer

type_synonym ('s, 'c, 'l, 'r, 't, 'q) batch_result = "batch_pc \<times> ('s, 'c, 'l, 'r, 't, 'q) batch_world"

definition batch_fail :: "json_lib \<Rightarrow> chat_http \<Rightarrow> int \<Rightarrow> string \<Rightarrow> string \<Rightarrow> batch_pc" where
  "batch_fail lib q status code message = BDone (httperror_Write lib (hq_requestID q) status code message (hq_writer q))"

definition batch_start ::
  "('e, 's, 'c, 'l, 'r, 'x, 'je, 't, 'qe, 'q) batch_deps \<Rightarrow> chat_http \<Rightarrow> batch_pc" where
  "batch_start bd q =
     (let deps = bd_Deps bd; lib = dp_lib deps in
      case hq_principal q of
        None \<Rightarrow> batch_fail lib q 500 CodeInternal ''missing authenticated principal''
      | Some caller \<Rightarrow>
     case readBatchBody (hq_body q) (hq_readErr q) of
        Inl cerr \<Rightarrow> batch_fail lib q (ce_status cerr) (ce_code cerr) (ce_message cerr)
      | Inr raw \<Rightarrow>
     case decodeBatchCreate lib (bd_whole bd) raw of
        Inl cerr \<Rightarrow> batch_fail lib q (ce_status cerr) (ce_code cerr) (ce_message cerr)
      | Inr (model, items) \<Rightarrow>
          (let scope = Scope (dp_uuid_String deps) (pr_TenantID caller) (pr_APIKeyID caller) (hq_method q) (hq_route q);
               idemKey = TrimSpace (hq_idemKey q);
               job = \<lparr>bj_principal = caller, bj_model = model, bj_items = items, bj_scope = scope, bj_idemKey = idemKey,
                      bj_rawHash = sha256Hex lib raw\<rparr>
           in if length idemKey > maxIdempotencyKeyLen
              then batch_fail lib q 400 CodeBadRequest
                     (''Idempotency-Key must not exceed '' @ int_decimal (int maxIdempotencyKeyLen) @ '' characters'')
              else if idemKey \<noteq> [] then BCheck job
              else BAllow job))"

definition batch_decided :: "json_lib \<Rightarrow> chat_http \<Rightarrow> Decision \<Rightarrow> batch_pc \<Rightarrow> batch_pc" where
  "batch_decided lib q dec next =
     (case applyIdempotencyDecision lib (hq_requestID q) (hq_writer q) dec of
        Unhandled \<Rightarrow> next
      | Wrote w \<Rightarrow> BDone w
      | NilStored \<Rightarrow> BAborted (hq_writer q))"

definition batch_check ::
  "('e, 's, 'c, 'l, 'r, 'x, 'je, 't, 'qe, 'q) batch_deps \<Rightarrow> chat_http \<Rightarrow> ('e, 'je, 'qe) batch_env \<Rightarrow> batch_job
     \<Rightarrow> ('s, 'c, 'l, 'r) gateway \<Rightarrow> batch_pc \<times> ('s, 'c, 'l, 'r) gateway" where
  "batch_check bd q ev job g =
     (let deps = bd_Deps bd in
      case Check (dp_hj deps) (dp_Idempotency deps) (be_idem ev) (bj_scope job) (bj_idemKey job) (bj_rawHash job) (gw_idem g) of
        (Inl err, s) \<Rightarrow> (batch_fail (dp_lib deps) q 500 CodeInternal ''idempotency lookup failed'', g\<lparr>gw_idem := s\<rparr>)
      | (Inr dec, s) \<Rightarrow> (batch_decided (dp_lib deps) q dec (BAllow job), g\<lparr>gw_idem := s\<rparr>))"

definition batch_allow ::
  "('e, 's, 'c, 'l, 'r, 'x, 'je, 't, 'qe, 'q) batch_deps \<Rightarrow> chat_http \<Rightarrow> ('e, 'je, 'qe) batch_env \<Rightarrow> batch_job
     \<Rightarrow> ('s, 'c, 'l, 'r) gateway \<Rightarrow> batch_pc \<times> ('s, 'c, 'l, 'r) gateway" where
  "batch_allow bd q ev job g =
     (case allowRate (bd_Deps bd) (be_now ev) (bj_principal job) g of
        (False, g) \<Rightarrow> (BDone (rateLimited (dp_lib (bd_Deps bd)) (hq_requestID q) (hq_writer q)), g)
      | (True, g) \<Rightarrow> (if bj_idemKey job \<noteq> [] then BBegin job else BCreate job None, g))"

definition batch_begin ::
  "('e, 's, 'c, 'l, 'r, 'x, 'je, 't, 'qe, 'q) batch_deps \<Rightarrow> chat_http \<Rightarrow> ('e, 'je, 'qe) batch_env \<Rightarrow> batch_job
     \<Rightarrow> ('s, 'c, 'l, 'r) gateway \<Rightarrow> batch_pc \<times> ('s, 'c, 'l, 'r) gateway" where
  "batch_begin bd q ev job g =
     (let deps = bd_Deps bd in
      case Begin (dp_hj deps) (dp_Idempotency deps) (be_idem ev) (be_reread ev) (bj_scope job) (bj_idemKey job) (bj_rawHash job)
             (gw_idem g) of
        (Inl err, s) \<Rightarrow> (batch_fail (dp_lib deps) q 500 CodeInternal ''idempotency begin failed'', g\<lparr>gw_idem := s\<rparr>)
      | (Inr dec, s) \<Rightarrow>
          (if d_Action dec = ActionStarted then (BCreate job (Some (d_RecordID dec)), g\<lparr>gw_idem := s\<rparr>)
           else (batch_decided (dp_lib deps) q dec (BCreate job None), g\<lparr>gw_idem := s\<rparr>)))"

text \<open>The rows handed to the store; the fields left out here are zero in the code and set by the store.\<close>

definition batch_items :: "batchItemInput list \<Rightarrow> BatchJobItem list" where
  "batch_items items =
     map (\<lambda>it. \<lparr>item_ID = 0, item_JobID = 0, item_CustomID = bi_customID it, item_Request = bi_body it,
                item_Status = ItemStatusQueued, item_Attempts = 0, item_Response = None, item_Error = None,
                item_CreatedAt = 0, item_UpdatedAt = 0\<rparr>) items"

definition batch_job_row :: "batch_job \<Rightarrow> BatchJob" where
  "batch_job_row job =
     \<lparr>job_ID = 0, job_TenantID = pr_TenantID (bj_principal job), job_APIKeyID = pr_APIKeyID (bj_principal job),
      job_Model = bj_model job, job_Status = JobStatusQueued, job_TotalItems = 0, job_CompletedItems = 0,
      job_FailedItems = 0, job_CreatedAt = 0, job_UpdatedAt = 0\<rparr>"

definition batch_create ::
  "('e, 's, 'c, 'l, 'r, 'x, 'je, 't, 'qe, 'q) batch_deps \<Rightarrow> chat_http \<Rightarrow> ('e, 'je, 'qe) batch_env \<Rightarrow> batch_job \<Rightarrow> uuid option
     \<Rightarrow> ('s, 'c, 'l, 'r, 't, 'q) batch_world \<Rightarrow> ('s, 'c, 'l, 'r, 't, 'q) batch_result" where
  "batch_create bd q ev job recordID b =
     (case js_CreateWithItemsAndOutbox (bd_Jobs bd) (be_job ev) (batch_job_row job) (batch_items (bj_items job)) (bw_jobs b) of
        (Inl err, t) \<Rightarrow>
          (BRespond recordID (respondError (dp_lib (bd_Deps bd)) (hq_requestID q) (500, CodeInternal, ''could not create batch job'')),
           b\<lparr>bw_jobs := t\<rparr>)
      | (Inr (created, outbox), t) \<Rightarrow>
          (BPublish recordID created outbox,
           b\<lparr>bw_jobs := t, bw_BatchJobsCreatedTotal := Suc (bw_BatchJobsCreatedTotal b)\<rparr>))"

definition batch_publish ::
  "('e, 's, 'c, 'l, 'r, 'x, 'je, 't, 'qe, 'q) batch_deps \<Rightarrow> ('e, 'je, 'qe) batch_env \<Rightarrow> uuid option \<Rightarrow> BatchJob \<Rightarrow> BatchJobOutbox
     \<Rightarrow> ('s, 'c, 'l, 'r, 't, 'q) batch_world \<Rightarrow> ('s, 'c, 'l, 'r, 't, 'q) batch_result" where
  "batch_publish bd ev recordID job outbox b =
     (case q_Publish (bd_JobQueue bd) (be_queue ev) (dp_uuid_String (bd_Deps bd) (job_ID job)) (bw_queue b) of
        (Inl err, qu) \<Rightarrow> (BMark recordID job outbox (Some err), b\<lparr>bw_queue := qu\<rparr>)
      | (Inr _, qu) \<Rightarrow> (BMark recordID job outbox None, b\<lparr>bw_queue := qu\<rparr>))"

text \<open>Both marks only log their own failure; then the response is built.\<close>

definition created_response ::
  "('e, 's, 'c, 'l, 'r, 'x, 'je, 't, 'qe, 'q) batch_deps \<Rightarrow> chat_http \<Rightarrow> BatchJob \<Rightarrow> chat_response" where
  "created_response bd q job =
     (let deps = bd_Deps bd in
      case marshal (dp_lib deps) (batchJobCreateResponse (dp_uuid_String deps) job) of
        None \<Rightarrow> respondError (dp_lib deps) (hq_requestID q) (500, CodeInternal, ''could not encode response'')
      | Some body \<Rightarrow> \<lparr>cs_status = 201, cs_headers = [(''Content-Type'', json_content_type)], cs_body = body\<rparr>)"

definition batch_mark ::
  "('e, 's, 'c, 'l, 'r, 'x, 'je, 't, 'qe, 'q) batch_deps \<Rightarrow> chat_http \<Rightarrow> ('e, 'je, 'qe) batch_env \<Rightarrow> uuid option \<Rightarrow> BatchJob
     \<Rightarrow> BatchJobOutbox \<Rightarrow> string option \<Rightarrow> ('s, 'c, 'l, 'r, 't, 'q) batch_world \<Rightarrow> ('s, 'c, 'l, 'r, 't, 'q) batch_result" where
  "batch_mark bd q ev recordID job outbox failed b =
     (BRespond recordID (created_response bd q job),
      b\<lparr>bw_jobs := (case failed of
          Some err \<Rightarrow> snd (js_MarkOutboxFailedAttempt (bd_Jobs bd) (be_job ev) (ob_ID outbox) err (bw_jobs b))
        | None \<Rightarrow> snd (js_MarkOutboxPublished (bd_Jobs bd) (be_job ev) (ob_ID outbox) (bw_jobs b)))\<rparr>)"

definition on_gw ::
  "(('s, 'c, 'l, 'r) gateway \<Rightarrow> batch_pc \<times> ('s, 'c, 'l, 'r) gateway) \<Rightarrow> ('s, 'c, 'l, 'r, 't, 'q) batch_world
     \<Rightarrow> ('s, 'c, 'l, 'r, 't, 'q) batch_result" where
  "on_gw f b = (case f (bw_gw b) of (pc, g) \<Rightarrow> (pc, b\<lparr>bw_gw := g\<rparr>))"

text \<open>\<open>respondChat\<close> is shared with the completions handler.\<close>

fun createBatchJob ::
  "('e, 's, 'c, 'l, 'r, 'x, 'je, 't, 'qe, 'q) batch_deps \<Rightarrow> chat_http \<Rightarrow> ('e, 'je, 'qe) batch_env \<Rightarrow> batch_pc
     \<Rightarrow> ('s, 'c, 'l, 'r, 't, 'q) batch_world \<Rightarrow> ('s, 'c, 'l, 'r, 't, 'q) batch_result" where
  "createBatchJob bd q ev BStart b = (batch_start bd q, b)"
| "createBatchJob bd q ev (BCheck job) b = on_gw (batch_check bd q ev job) b"
| "createBatchJob bd q ev (BAllow job) b = on_gw (batch_allow bd q ev job) b"
| "createBatchJob bd q ev (BBegin job) b = on_gw (batch_begin bd q ev job) b"
| "createBatchJob bd q ev (BCreate job rec) b = batch_create bd q ev job rec b"
| "createBatchJob bd q ev (BPublish rec job ob) b = batch_publish bd ev rec job ob b"
| "createBatchJob bd q ev (BMark rec job ob failed) b = batch_mark bd q ev rec job ob failed b"
| "createBatchJob bd q ev (BRespond rec rs) b =
     (BDone (write_response (cs_status rs) (cs_body rs) (write_headers (cs_headers rs) (hq_writer q))),
      b\<lparr>bw_gw := (bw_gw b)\<lparr>gw_idem := resolve_record (bd_Deps bd) (be_idem ev) rec rs (gw_idem (bw_gw b))\<rparr>\<rparr>)"
| "createBatchJob bd q ev (BDone w) b = (BDone w, b)"
| "createBatchJob bd q ev (BAborted w) b = (BAborted w, b)"

subsection \<open>Reads\<close>

definition no_principal :: "json_lib \<Rightarrow> http_request \<Rightarrow> response_writer \<Rightarrow> response_writer" where
  "no_principal lib q = httperror_Write lib (rq_requestID q) 500 CodeInternal ''missing authenticated principal''"

definition listBatchJobs ::
  "('e, 's, 'c, 'l, 'r, 'x, 'je, 't, 'qe, 'q) batch_deps \<Rightarrow> 'je \<Rightarrow> 't handler" where
  "listBatchJobs bd e = (\<lambda>q w t.
     let lib = dp_lib (bd_Deps bd) in
     (Returned_normally,
      (case rq_principal q of
         None \<Rightarrow> no_principal lib q w
       | Some caller \<Rightarrow>
           (case js_List (bd_Jobs bd) e (pr_TenantID caller) t of
              Inl err \<Rightarrow> writeInternal lib q ''could not list batch jobs'' w
            | Inr js \<Rightarrow> writeJSON lib 200 (JArr (map (toBatchJobResponse (dp_uuid_String (bd_Deps bd)) (bd_time_json bd)) js)) w)), t))"

definition getBatchJob ::
  "('e, 's, 'c, 'l, 'r, 'x, 'je, 't, 'qe, 'q) batch_deps \<Rightarrow> 'je \<Rightarrow> string \<Rightarrow> 't handler" where
  "getBatchJob bd e urlParam = (\<lambda>q w t.
     let lib = dp_lib (bd_Deps bd) in
     (Returned_normally,
      (case rq_principal q of
         None \<Rightarrow> no_principal lib q w
       | Some caller \<Rightarrow>
           (case parseID lib (bd_uuid_Parse bd) urlParam q w of
              Inl w \<Rightarrow> w
            | Inr i \<Rightarrow>
                (case js_Get (bd_Jobs bd) e (pr_TenantID caller) i t of
                   Inl err \<Rightarrow>
                     (if err = Jobs_ErrNotFound then writeNotFound lib q ''batch job not found'' w
                      else writeInternal lib q ''could not load batch job'' w)
                 | Inr job \<Rightarrow> writeJSON lib 200 (toBatchJobResponse (dp_uuid_String (bd_Deps bd)) (bd_time_json bd) job) w))), t))"

definition listBatchJobItems ::
  "('e, 's, 'c, 'l, 'r, 'x, 'je, 't, 'qe, 'q) batch_deps \<Rightarrow> 'je \<Rightarrow> string \<Rightarrow> 't handler" where
  "listBatchJobItems bd e urlParam = (\<lambda>q w t.
     let lib = dp_lib (bd_Deps bd) in
     (Returned_normally,
      (case rq_principal q of
         None \<Rightarrow> no_principal lib q w
       | Some caller \<Rightarrow>
           (case parseID lib (bd_uuid_Parse bd) urlParam q w of
              Inl w \<Rightarrow> w
            | Inr i \<Rightarrow>
                (case js_Items (bd_Jobs bd) e (pr_TenantID caller) i t of
                   Inl err \<Rightarrow>
                     (if err = Jobs_ErrNotFound then writeNotFound lib q ''batch job not found'' w
                      else writeInternal lib q ''could not load batch job items'' w)
                 | Inr its \<Rightarrow>
                     write_value lib 200
                       (map_option JArr (those (map (toBatchItemResponse (dp_uuid_String (bd_Deps bd)) (bd_time_json bd) (bd_whole bd)) its)))
                       w))), t))"

subsection \<open>Tenants\<close>

text \<open>What of the tables belongs to a tenant: its jobs and their items.\<close>

definition tenant_view :: "uuid \<Rightarrow> job_tables \<Rightarrow> job_tables" where
  "tenant_view tenant t =
     (let own = filter (\<lambda>j. job_TenantID j = tenant) (t_jobs t)
      in \<lparr>t_jobs = own, t_items = filter (\<lambda>it. item_JobID it \<in> set (map job_ID own)) (t_items t), t_outbox = []\<rparr>)"

lemma find_filter: "(\<And>x. P x \<Longrightarrow> Q x) \<Longrightarrow> find P (filter Q xs) = find P xs"
  by (induction xs) auto

lemma find_snoc: "find P xs = None \<Longrightarrow> P x \<Longrightarrow> find P (xs @ [x]) = Some x"
  by (induction xs) (auto split: if_splits)

lemma Get_tenant_view: "repo_Get e tenant i (tenant_view tenant t) = repo_Get e tenant i t"
proof -
  have "find (\<lambda>j. job_ID j = i \<and> job_TenantID j = tenant) (filter (\<lambda>j. job_TenantID j = tenant) (t_jobs t)) =
      find (\<lambda>j. job_ID j = i \<and> job_TenantID j = tenant) (t_jobs t)" by (rule find_filter) simp
  then show ?thesis by (cases "re_fault e") (simp_all add: repo_Get_def tenant_view_def Let_def)
qed

lemma Get_Inr: "repo_Get e tenant i t = Inr j \<Longrightarrow> j \<in> set (t_jobs t) \<and> job_ID j = i \<and> job_TenantID j = tenant"
  by (cases "re_fault e") (auto simp: repo_Get_def find_Some_iff split: option.splits)

lemma List_tenant_view: "repo_List e tenant (tenant_view tenant t) = repo_List e tenant t"
  by (cases "re_fault e") (simp_all add: repo_List_def tenant_view_def Let_def)

lemma Items_tenant_view: "repo_Items coll e tenant i (tenant_view tenant t) = repo_Items coll e tenant i t"
proof (cases "repo_Get e tenant i t")
  case (Inr j)
  have "filter (\<lambda>it. item_JobID it = i) (t_items (tenant_view tenant t)) = filter (\<lambda>it. item_JobID it = i) (t_items t)"
    using Get_Inr [OF Inr] by (auto simp: tenant_view_def Let_def intro!: filter_cong)
  then show ?thesis using Inr by (cases "re_fault2 e") (simp_all add: repo_Items_def Get_tenant_view)
qed (simp add: repo_Items_def Get_tenant_view)

text \<open>C20: A tenant sees its own rows and nothing else. Over the Postgres repository, what the three read endpoints answer
  to a caller, byte for byte and under any database fault, is a function of the caller's own jobs and their items:
  removing every other tenant's rows changes no response, so a job of another tenant and a job that does not exist
  cannot be told apart.\<close>

theorem batch_reads_are_tenant_scoped:
  "let bd' = bd\<lparr>bd_Jobs := JobRepo pg coll\<rparr>; q' = q\<lparr>rq_principal := Some caller\<rparr>; own = tenant_view (pr_TenantID caller) t
   in fst (snd (listBatchJobs bd' e q' w t)) = fst (snd (listBatchJobs bd' e q' w own))
     \<and> fst (snd (getBatchJob bd' e i q' w t)) = fst (snd (getBatchJob bd' e i q' w own))
     \<and> fst (snd (listBatchJobItems bd' e i q' w t)) = fst (snd (listBatchJobItems bd' e i q' w own))"
  by (simp add: listBatchJobs_def getBatchJob_def listBatchJobItems_def JobRepo_def Let_def
      List_tenant_view Get_tenant_view Items_tenant_view cong: sum.case_cong)

subsection \<open>The create protocol\<close>

text \<open>What a step of a create request does that others can observe.\<close>

datatype batch_event =
    Opened uuid
  | Creating batch_job "uuid option"
  | Created BatchJob
  | Publishing uuid
  | Resolved uuid chat_response

definition resolution :: "uuid option \<Rightarrow> chat_response \<Rightarrow> batch_event list" where
  "resolution rec rs = (case rec of None \<Rightarrow> [] | Some i \<Rightarrow> [Resolved i rs])"

definition opened_record :: "uuid option \<Rightarrow> batch_event list" where
  "opened_record rec = (case rec of None \<Rightarrow> [] | Some i \<Rightarrow> [Opened i])"

fun batch_events :: "batch_pc \<Rightarrow> batch_pc \<Rightarrow> batch_event list" where
  "batch_events (BBegin job) (BCreate _ rec) = opened_record rec"
| "batch_events (BCreate job rec) (BPublish _ created _) = [Creating job rec, Created created]"
| "batch_events (BCreate job rec) _ = [Creating job rec]"
| "batch_events (BPublish rec job ob) _ = [Publishing (job_ID job)]"
| "batch_events (BRespond rec rs) _ = resolution rec rs"
| "batch_events _ _ = []"

text \<open>The path of one request through any sequence of worlds, and what it did.\<close>

fun batch_log ::
  "('e, 's, 'c, 'l, 'r, 'x, 'je, 't, 'qe, 'q) batch_deps \<Rightarrow> chat_http \<Rightarrow> batch_pc
     \<Rightarrow> (('e, 'je, 'qe) batch_env \<times> ('s, 'c, 'l, 'r, 't, 'q) batch_world) list \<Rightarrow> batch_event list \<times> batch_pc" where
  "batch_log bd q pc [] = ([], pc)"
| "batch_log bd q pc ((ev, b) # ws) =
     (let pc' = fst (createBatchJob bd q ev pc b)
      in case batch_log bd q pc' ws of (es, end) \<Rightarrow> (batch_events pc pc' @ es, end))"

definition written :: "chat_http \<Rightarrow> chat_response \<Rightarrow> response_writer" where
  "written q rs = write_response (cs_status rs) (cs_body rs) (write_headers (cs_headers rs) (hq_writer q))"

lemma Begin_never_proceeds: "key \<noteq> [] \<Longrightarrow> Begin hj c e e' sc key h s = (Inr dec, s') \<Longrightarrow> d_Action dec \<noteq> ActionProceed"
  by (auto simp: Begin_def decideFromLookup_def decision_def split: prod.splits sum.splits begin_error.splits Outcome.splits)

lemma decided:
  "(\<exists>w. batch_decided lib q dec next = BDone w) \<or> (\<exists>w. batch_decided lib q dec next = BAborted w)
   \<or> batch_decided lib q dec next = next \<and> (d_Action dec = ActionProceed \<or> d_Action dec = ActionStarted)"
  by (auto simp: batch_decided_def applyIdempotencyDecision_def split: applied.splits Action.splits option.splits)

text \<open>From each program point on, what a request that returns still does.\<close>

lemma log_done: "batch_log bd q (BDone w) ws = ([], BDone w)"
  by (induction ws) auto

lemma log_aborted: "batch_log bd q (BAborted w) ws = ([], BAborted w)"
  by (induction ws) auto

lemma log_step:
  assumes "batch_log bd q pc ws = (es, BDone w)" and "pc \<noteq> BDone w"
  shows "\<exists>ev b ws' es'. batch_log bd q (fst (createBatchJob bd q ev pc b)) ws' = (es', BDone w)
    \<and> es = batch_events pc (fst (createBatchJob bd q ev pc b)) @ es'"
proof (cases ws)
  case (Cons a ws')
  then show ?thesis using assms(1)
    by (intro exI [of _ "fst a"] exI [of _ "snd a"] exI [of _ ws']) (cases a, auto simp: Let_def split: prod.splits)
qed (use assms in simp)

lemma log_respond:
  assumes "batch_log bd q (BRespond rec rs) ws = (es, BDone w)"
  shows "es = resolution rec rs \<and> w = written q rs"
  using log_step [OF assms] by (auto simp: log_done written_def)

lemma log_mark:
  assumes "batch_log bd q (BMark rec job ob failed) ws = (es, BDone w)"
  shows "es = resolution rec (created_response bd q job) \<and> w = written q (created_response bd q job)"
  using log_step [OF assms] by (auto simp: batch_mark_def dest: log_respond)

lemma log_publish:
  assumes "batch_log bd q (BPublish rec job ob) ws = (es, BDone w)"
  shows "es = Publishing (job_ID job) # resolution rec (created_response bd q job) \<and> w = written q (created_response bd q job)"
proof -
  from log_step [OF assms] obtain ev b ws' es' where
    l: "batch_log bd q (fst (createBatchJob bd q ev (BPublish rec job ob) b)) ws' = (es', BDone w)" "es = Publishing (job_ID job) # es'"
    by auto
  have "\<exists>failed. fst (createBatchJob bd q ev (BPublish rec job ob) b) = BMark rec job ob failed"
    by (simp add: batch_publish_def split: prod.split sum.split)
  then obtain failed where "fst (createBatchJob bd q ev (BPublish rec job ob) b) = BMark rec job ob failed" by blast
  then show ?thesis using l by (auto dest: log_mark)
qed

text \<open>What a request does once it may create: either the store refuses, or there is one job and one publish.\<close>

definition create_trace ::
  "('e, 's, 'c, 'l, 'r, 'x, 'je, 't, 'qe, 'q) batch_deps \<Rightarrow> chat_http \<Rightarrow> batch_job \<Rightarrow> uuid option \<Rightarrow> response_writer
     \<Rightarrow> batch_event list \<Rightarrow> bool" where
  "create_trace bd q job rec w es \<longleftrightarrow>
     (\<exists>rs. es = Creating job rec # resolution rec rs \<and> cs_status rs = 500 \<and> w = written q rs)
     \<or> (\<exists>created. es = [Creating job rec, Created created, Publishing (job_ID created)] @ resolution rec (created_response bd q created)
          \<and> w = written q (created_response bd q created))"

lemma log_create:
  assumes "batch_log bd q (BCreate job rec) ws = (es, BDone w)"
  shows "create_trace bd q job rec w es"
proof -
  let ?err = "respondError (dp_lib (bd_Deps bd)) (hq_requestID q) (500, CodeInternal, ''could not create batch job'')"
  from log_step [OF assms] obtain ev b ws' es' where
    l: "batch_log bd q (fst (createBatchJob bd q ev (BCreate job rec) b)) ws' = (es', BDone w)" and
    es: "es = batch_events (BCreate job rec) (fst (createBatchJob bd q ev (BCreate job rec) b)) @ es'" by auto
  have "fst (createBatchJob bd q ev (BCreate job rec) b) = BRespond rec ?err
      \<or> (\<exists>created ob. fst (createBatchJob bd q ev (BCreate job rec) b) = BPublish rec created ob)"
    by (simp add: batch_create_def split: prod.split sum.split)
  then consider (fail) "fst (createBatchJob bd q ev (BCreate job rec) b) = BRespond rec ?err"
    | (ok) created ob where "fst (createBatchJob bd q ev (BCreate job rec) b) = BPublish rec created ob" by blast
  then show ?thesis
  proof cases
    case fail
    have "cs_status ?err = 500" by (simp add: respondError_def Let_def httperror_capture_status)
    then show ?thesis using log_respond [OF l [unfolded fail]] es [unfolded fail] by (auto simp: create_trace_def)
  next
    case (ok created ob)
    show ?thesis using log_publish [OF l [unfolded ok]] es [unfolded ok] by (auto simp: create_trace_def)
  qed
qed

definition full_trace ::
  "('e, 's, 'c, 'l, 'r, 'x, 'je, 't, 'qe, 'q) batch_deps \<Rightarrow> chat_http \<Rightarrow> response_writer \<Rightarrow> batch_event list \<Rightarrow> bool" where
  "full_trace bd q w es \<longleftrightarrow>
     es = [] \<or> (\<exists>job rec es'. es = opened_record rec @ es' \<and> (bj_idemKey job = [] \<longleftrightarrow> rec = None) \<and> create_trace bd q job rec w es')"

lemma full_traceI: "create_trace bd q job rec w es \<Longrightarrow> (bj_idemKey job = [] \<longleftrightarrow> rec = None) \<Longrightarrow> full_trace bd q w (opened_record rec @ es)"
  by (auto simp: full_trace_def)

lemma log_ended: "batch_log bd q (BDone w') ws = (es, BDone w) \<Longrightarrow> full_trace bd q w es"
  "batch_log bd q (BAborted w') ws \<noteq> (es, BDone w)"
  by (simp_all add: log_done log_aborted full_trace_def)

lemma begin_step_cases:
  assumes "bj_idemKey job \<noteq> []"
  obtains w where "fst (createBatchJob bd q ev (BBegin job) b) = BDone w" | w where "fst (createBatchJob bd q ev (BBegin job) b) = BAborted w"
    | i where "fst (createBatchJob bd q ev (BBegin job) b) = BCreate job (Some i)"
proof (cases "Begin (dp_hj (bd_Deps bd)) (dp_Idempotency (bd_Deps bd)) (be_idem ev) (be_reread ev) (bj_scope job) (bj_idemKey job)
    (bj_rawHash job) (gw_idem (bw_gw b))")
  case (Pair res s)
  show thesis
  proof (cases res)
    case (Inl err)
    then show thesis using Pair that(1) by (simp add: on_gw_def batch_begin_def batch_fail_def Let_def)
  next
    case (Inr dec)
    then have "d_Action dec \<noteq> ActionProceed" using Pair by (auto dest: Begin_never_proceeds [OF assms])
    then show thesis using Inr Pair that decided [of "dp_lib (bd_Deps bd)" q dec "BCreate job None"]
      by (cases "d_Action dec = ActionStarted") (auto simp: on_gw_def batch_begin_def Let_def)
  qed
qed

lemma log_begin:
  assumes "batch_log bd q (BBegin job) ws = (es, BDone w)" and "bj_idemKey job \<noteq> []"
  shows "full_trace bd q w es"
proof -
  from log_step [OF assms(1)] obtain ev b ws' es' where
    l: "batch_log bd q (fst (createBatchJob bd q ev (BBegin job) b)) ws' = (es', BDone w)" and
    es: "es = batch_events (BBegin job) (fst (createBatchJob bd q ev (BBegin job) b)) @ es'" by auto
  show ?thesis
  proof (cases rule: begin_step_cases [OF assms(2), of bd q ev b])
    case (3 i)
    from full_traceI [OF log_create [OF l [unfolded 3]]] show ?thesis using es [unfolded 3] assms(2) by simp
  qed (use l es in \<open>auto dest: log_ended(1) simp: log_aborted\<close>)
qed

lemma log_allow:
  assumes "batch_log bd q (BAllow job) ws = (es, BDone w)"
  shows "full_trace bd q w es"
proof -
  from log_step [OF assms(1)] obtain ev b ws' where
    l: "batch_log bd q (fst (createBatchJob bd q ev (BAllow job) b)) ws' = (es, BDone w)" by auto
  have "(\<exists>w'. fst (createBatchJob bd q ev (BAllow job) b) = BDone w')
     \<or> fst (createBatchJob bd q ev (BAllow job) b) = BBegin job \<and> bj_idemKey job \<noteq> []
     \<or> fst (createBatchJob bd q ev (BAllow job) b) = BCreate job None \<and> bj_idemKey job = []"
    by (simp add: on_gw_def batch_allow_def split: prod.split bool.split)
  then show ?thesis
  proof (elim disjE exE conjE)
    assume "fst (createBatchJob bd q ev (BAllow job) b) = BCreate job None" "bj_idemKey job = []"
    then show ?thesis using l full_traceI [OF log_create, of bd q job None ws' es w] by (simp add: opened_record_def)
  qed (use l in \<open>auto dest: log_ended(1) log_begin\<close>)
qed

lemma log_check:
  assumes "batch_log bd q (BCheck job) ws = (es, BDone w)"
  shows "full_trace bd q w es"
proof -
  from log_step [OF assms(1)] obtain ev b ws' where
    l: "batch_log bd q (fst (createBatchJob bd q ev (BCheck job) b)) ws' = (es, BDone w)" by auto
  have "(\<exists>w'. fst (createBatchJob bd q ev (BCheck job) b) = BDone w') \<or> (\<exists>w'. fst (createBatchJob bd q ev (BCheck job) b) = BAborted w')
     \<or> fst (createBatchJob bd q ev (BCheck job) b) = BAllow job"
    by (simp add: on_gw_def batch_check_def batch_fail_def Let_def split: prod.split sum.split) (use decided in blast)
  then show ?thesis using l by (auto dest: log_ended(1) log_allow simp: log_aborted)
qed



subsection \<open>Reading a created batch back\<close>

lemma insert_items_rows:
  assumes "insert_items pg e j k its rows = Inr rows'"
  shows "\<exists>new. rows' = rows @ new \<and> list_all2 (\<lambda>it r. item_JobID r = j \<and> item_CustomID r = item_CustomID it
      \<and> bind_jsonb pg (normalizeJSONB (item_Request it)) = Inr (Some (item_Request r)) \<and> item_Status r = ItemStatusQueued
      \<and> item_Attempts r = 0 \<and> item_Response r = None \<and> item_Error r = None) its new"
  using assms
proof (induction its arbitrary: k rows)
  case (Cons it its)
  obtain req where req: "bind_jsonb pg (normalizeJSONB (item_Request it)) = Inr (Some req)"
    using Cons.prems by (auto split: sum.splits option.splits)
  let ?r = "\<lparr>item_ID = re_new e k, item_JobID = j, item_CustomID = item_CustomID it, item_Request = req,
     item_Status = ItemStatusQueued, item_Attempts = 0, item_Response = None, item_Error = None, item_CreatedAt = re_now e,
     item_UpdatedAt = re_now e\<rparr>"
  have "insert_items pg e j (Suc k) its (rows @ [?r]) = Inr rows'" using Cons.prems req by (auto split: if_splits)
  from Cons.IH [OF this] obtain new where "rows' = (rows @ [?r]) @ new" "list_all2 (\<lambda>it r. item_JobID r = j
      \<and> item_CustomID r = item_CustomID it \<and> bind_jsonb pg (normalizeJSONB (item_Request it)) = Inr (Some (item_Request r))
      \<and> item_Status r = ItemStatusQueued \<and> item_Attempts r = 0 \<and> item_Response r = None \<and> item_Error r = None) its new" by blast
  then show ?case using req by (intro exI [of _ "?r # new"]) simp
qed simp

text \<open>What a committed creation leaves in the tables.\<close>

lemma create_committed:
  assumes "js_CreateWithItemsAndOutbox (JobRepo pg coll) e job its t = (Inr (created, ob), t')"
  shows "t_jobs t' = t_jobs t @ [created] \<and> t_outbox t' = t_outbox t @ [ob] \<and> (\<exists>new. t_items t' = t_items t @ new
      \<and> list_all2 (\<lambda>it r. item_JobID r = job_ID created \<and> item_CustomID r = item_CustomID it
          \<and> bind_jsonb pg (normalizeJSONB (item_Request it)) = Inr (Some (item_Request r)) \<and> item_Status r = ItemStatusQueued
          \<and> item_Attempts r = 0 \<and> item_Response r = None \<and> item_Error r = None) its new)
    \<and> job_ID created \<notin> job_ID ` set (t_jobs t) \<and> job_TenantID created = job_TenantID job \<and> job_APIKeyID created = job_APIKeyID job
    \<and> job_Model created = job_Model job \<and> job_Status created = JobStatusQueued \<and> job_TotalItems created = length its
    \<and> job_CompletedItems created = 0 \<and> job_FailedItems created = 0
    \<and> ob_JobID ob = job_ID created \<and> ob_Status ob = OutboxStatusPending \<and> ob_ID ob \<notin> ob_ID ` set (t_outbox t)"
proof -
  have "re_fault e = NoFault" and tx: "create_tx pg e job its t = (Inr (created, ob), t')"
    using assms by (auto simp: JobRepo_def repo_CreateWithItemsAndOutbox_def exec_sql_Inr split: prod.splits sum.splits)
  then obtain rows where rows: "insert_items pg e (re_new e 0) 1 its (t_items t) = Inr rows" "t_items t' = rows" "job_ID created = re_new e 0"
    by (auto simp: create_tx_def Let_def split: if_splits sum.splits)
  with insert_items_rows [OF rows(1)] tx show ?thesis by (auto simp: create_tx_def Let_def split: if_splits sum.splits)
qed


text \<open>C31: A created batch reads back. When the store committed the creation, the creating tenant's \<open>GET\<close> of the job answers
  200 with that job, queued, with the number of items sent and none completed or failed; and the items listing answers
  200 with exactly the caller's items, in the database's text order of their ids, each with its canonical request as
  stored, queued and with neither response nor error.\<close>

theorem created_batch_reads_back:
  assumes "bd_Jobs bd = JobRepo pg coll" and "createBatchJob bd q ev (BCreate job rec) b = (BPublish rec created ob, b')"
    and "\<forall>it \<in> set (t_items (bw_jobs b)). item_JobID it \<in> job_ID ` set (t_jobs (bw_jobs b))"
    and "re_fault e = NoFault" and "re_fault2 e = NoFault"
    and "rq_principal q' = Some caller" and "pr_TenantID caller = pr_TenantID (bj_principal job)"
    and "bd_uuid_Parse bd i = Some (job_ID created)"
  shows "getBatchJob bd e i q' w (bw_jobs b') = (Returned_normally, writeJSON (dp_lib (bd_Deps bd)) 200
        (toBatchJobResponse (dp_uuid_String (bd_Deps bd)) (bd_time_json bd) created) w, bw_jobs b')
    \<and> job_Status created = JobStatusQueued \<and> job_TotalItems created = length (bj_items job)
    \<and> job_CompletedItems created = 0 \<and> job_FailedItems created = 0
    \<and> (\<exists>its. listBatchJobItems bd e i q' w (bw_jobs b') = (Returned_normally, write_value (dp_lib (bd_Deps bd)) 200
          (map_option JArr (those (map (toBatchItemResponse (dp_uuid_String (bd_Deps bd)) (bd_time_json bd) (bd_whole bd)) its))) w, bw_jobs b')
        \<and> sorted (map (\<lambda>it. coll (item_CustomID it)) its)
        \<and> image_mset (\<lambda>it. (item_CustomID it, Some (item_Request it), item_Status it, item_Response it, item_Error it)) (mset its)
            = image_mset (\<lambda>x. (bi_customID x, pg_jsonb pg (bi_body x), ItemStatusQueued, None, None)) (mset (bj_items job)))"
proof -
  let ?t = "bw_jobs b" and ?t' = "bw_jobs b'"
  have c: "js_CreateWithItemsAndOutbox (JobRepo pg coll) (be_job ev) (batch_job_row job) (batch_items (bj_items job)) ?t = (Inr (created, ob), ?t')"
    using assms(1,2) by (auto simp: batch_create_def split: prod.splits sum.splits)
  note cc = create_committed [OF c]
  then obtain new where new: "t_items ?t' = t_items ?t @ new" and rel: "list_all2 (\<lambda>it r. item_JobID r = job_ID created
      \<and> item_CustomID r = item_CustomID it \<and> bind_jsonb pg (normalizeJSONB (item_Request it)) = Inr (Some (item_Request r))
      \<and> item_Status r = ItemStatusQueued \<and> item_Attempts r = 0 \<and> item_Response r = None \<and> item_Error r = None)
      (batch_items (bj_items job)) new" by blast
  have fresh: "job_ID created \<notin> job_ID ` set (t_jobs ?t)" using cc by blast
  have tenant: "job_TenantID created = pr_TenantID caller" using cc assms(7) by (simp add: batch_job_row_def)
  have "find (\<lambda>j. job_ID j = job_ID created \<and> job_TenantID j = pr_TenantID caller) (t_jobs ?t @ [created]) = Some created"
  proof -
    have "find (\<lambda>j. job_ID j = job_ID created \<and> job_TenantID j = pr_TenantID caller) (t_jobs ?t) = None"
      using fresh unfolding find_None_iff by (metis image_eqI)
    then show ?thesis using tenant by (simp add: find_snoc)
  qed
  then have get: "repo_Get e (pr_TenantID caller) (job_ID created) ?t' = Inr created" using cc assms(4) by (simp add: repo_Get_def)
  have own: "list_all (\<lambda>r. item_JobID r = job_ID created) new"
    and vals: "map (\<lambda>it. (item_CustomID it, Some (item_Request it), item_Status it, item_Response it, item_Error it)) new
       = map (\<lambda>x. (bi_customID x, pg_jsonb pg (bi_body x), ItemStatusQueued, None, None)) (bj_items job)"
    using rel unfolding batch_items_def list_all2_map1
    by (induction rule: list_all2_induct) (auto simp: bind_jsonb_def normalizeJSONB_def split: if_splits option.splits)
  have "filter (\<lambda>it. item_JobID it = job_ID created) (t_items ?t') = new"
  proof -
    have "filter (\<lambda>it. item_JobID it = job_ID created) (t_items ?t) = []"
      using assms(3) fresh unfolding filter_empty_conv by metis
    moreover have "filter (\<lambda>it. item_JobID it = job_ID created) new = new" using own by (simp add: list_all_iff filter_id_conv)
    ultimately show ?thesis using new by simp
  qed
  then have items: "repo_Items coll e (pr_TenantID caller) (job_ID created) ?t' = Inr (sort_key (\<lambda>it. coll (item_CustomID it)) new)"
    using get assms(5) by (simp add: repo_Items_def)
  have "image_mset (\<lambda>it. (item_CustomID it, Some (item_Request it), item_Status it, item_Response it, item_Error it))
      (mset (sort_key (\<lambda>it. coll (item_CustomID it)) new))
     = image_mset (\<lambda>x. (bi_customID x, pg_jsonb pg (bi_body x), ItemStatusQueued, None, None)) (mset (bj_items job))"
    using arg_cong [OF vals, of mset] by simp
  moreover have "sorted (map (\<lambda>it. coll (item_CustomID it)) (sort_key (\<lambda>it. coll (item_CustomID it)) new))" by simp
  moreover have "getBatchJob bd e i q' w ?t' = (Returned_normally, writeJSON (dp_lib (bd_Deps bd)) 200
        (toBatchJobResponse (dp_uuid_String (bd_Deps bd)) (bd_time_json bd) created) w, ?t')"
    using get assms(1,6,8) by (simp add: getBatchJob_def parseID_def JobRepo_def Let_def)
  moreover have "listBatchJobItems bd e i q' w ?t' = (Returned_normally, write_value (dp_lib (bd_Deps bd)) 200
        (map_option JArr (those (map (toBatchItemResponse (dp_uuid_String (bd_Deps bd)) (bd_time_json bd) (bd_whole bd))
          (sort_key (\<lambda>it. coll (item_CustomID it)) new)))) w, ?t')"
    using items assms(1,6,8) by (simp add: listBatchJobItems_def parseID_def JobRepo_def Let_def)
  moreover have "job_Status created = JobStatusQueued" "job_TotalItems created = length (bj_items job)"
    "job_CompletedItems created = 0" "job_FailedItems created = 0" using cc by (simp_all add: batch_items_def)
  ultimately show ?thesis by blast
qed


subsection \<open>A sample\<close>

definition sample_bd ::
  "(idem_env, idem_table, string \<Rightarrow> (string \<times> time) option, string \<Rightarrow> counter, unit, unit, repo_env, job_tables, time, MemQueue) batch_deps" where
  "sample_bd = \<lparr>bd_Deps = sample_deps, bd_Jobs = sample_repo, bd_JobQueue = MemJobQueue, bd_whole = (\<lambda>_. Some sample_batch),
     bd_time_json = (\<lambda>_. JNull), bd_uuid_Parse = (\<lambda>_. Some 100)\<rparr>"

definition sample_bw ::
  "(idem_table, string \<Rightarrow> (string \<times> time) option, string \<Rightarrow> counter, unit, job_tables, MemQueue) batch_world" where
  "sample_bw = \<lparr>bw_gw = sample_gw, bw_jobs = no_tables, bw_queue = NewMemQueue, bw_BatchJobsCreatedTotal = 0\<rparr>"

definition sample_be :: "(idem_env, repo_env, time) batch_env" where
  "sample_be = \<lparr>be_idem = env_at 0 1, be_reread = env_at 0 1, be_now = 5, be_job = sample_repo_env 5, be_queue = 5\<rparr>"

definition sample_bj :: batch_job where
  "sample_bj = \<lparr>bj_principal = \<lparr>pr_TenantID = 1, pr_APIKeyID = 2\<rparr>, bj_model = ''m'', bj_items = [\<lparr>bi_customID = ''a'', bi_body = ''{}''\<rparr>],
     bj_scope = Scope sample_uuid_String 1 2 ''POST'' ''/v1/chat/completions'', bj_idemKey = ''k'', bj_rawHash = ''{}''\<rparr>"

lemma sample_batch_start: "batch_start sample_bd (sample_chat_http ''k'') = BCheck sample_bj"
proof -
  have "decodeBatchCreate sample_json_lib (\<lambda>_. Some sample_batch) raw = decodeBatchCreate sample_json_lib (\<lambda>_. Some sample_batch) []" for raw
    by (simp add: decodeBatchCreate_def)
  then show ?thesis using sample_batch_decodes
    by (simp add: batch_start_def sample_bd_def sample_deps_def sample_chat_http_def readBatchBody_def maxBatchBodyBytes_def
        sample_key_trims maxIdempotencyKeyLen_def sample_bj_def sha256Hex_def sample_lib_facts Let_def)
qed

lemma sample_batch_steps:
  "fst (createBatchJob sample_bd (sample_chat_http ''k'') sample_be (BCheck sample_bj) sample_bw) = BAllow sample_bj"
  "fst (createBatchJob sample_bd (sample_chat_http ''k'') sample_be (BAllow sample_bj) sample_bw) = BBegin sample_bj"
  "fst (createBatchJob sample_bd (sample_chat_http ''k'') sample_be (BBegin sample_bj) sample_bw) = BCreate sample_bj (Some 1)"
  by (simp_all add: on_gw_def batch_check_def batch_allow_def batch_begin_def allowRate_def Allow_rate_def window_script_def sample_counters_def
      live_at_def sample_deps_def sample_gw_def sample_bd_def sample_bw_def sample_bj_def sample_be_def Check_def Begin_def sample_coordinator_def
      NewCoordinator_def IdempotencyRepo_def repo_Lookup_def repo_Begin_def begin_sql_def env_at_def row_for_def
      decideFromLookup_def decision_def Classify_def batch_decided_def applyIdempotencyDecision_def mapNotFound_def Milliseconds_def Let_def)

definition sample_created_job :: BatchJob where
  "sample_created_job = \<lparr>job_ID = 100, job_TenantID = 1, job_APIKeyID = 2, job_Model = ''m'', job_Status = JobStatusQueued,
     job_TotalItems = 1, job_CompletedItems = 0, job_FailedItems = 0, job_CreatedAt = 5, job_UpdatedAt = 5\<rparr>"

lemma sample_trims: "TrimSpace ''{}'' = ''{}''"
  by code_simp

lemma sample_batch_create:
  "\<exists>ob b'. createBatchJob sample_bd q sample_be (BCreate sample_bj rec) sample_bw = (BPublish rec sample_created_job ob, b')"
  using sample_trims by (simp add: batch_create_def sample_bd_def sample_be_def sample_bj_def sample_bw_def JobRepo_def repo_CreateWithItemsAndOutbox_def
      sample_repo_env_def create_tx_def no_tables_def batch_items_def batch_job_row_def normalizeJSONB_def bind_jsonb_def sample_postgres_def
      sample_created_job_def Let_def)

theorem created_batch_reads_back_witness:
  "\<exists>t q. fst (snd (getBatchJob sample_bd (sample_repo_env 9) ''100'' q fresh_writer t)) =
     writeJSON sample_json_lib 200 (toBatchJobResponse sample_uuid_String (\<lambda>_. JNull) sample_created_job) fresh_writer"
proof -
  let ?q = "sample_http_request\<lparr>rq_principal := Some \<lparr>pr_TenantID = 1, pr_APIKeyID = 2\<rparr>\<rparr>"
  obtain ob b' where c: "createBatchJob sample_bd (sample_chat_http ''k'') sample_be (BCreate sample_bj None) sample_bw = (BPublish None sample_created_job ob, b')"
    using sample_batch_create by blast
  have "bd_Jobs sample_bd = sample_repo" by (simp add: sample_bd_def)
  from created_batch_reads_back [OF this c, of "sample_repo_env 9" ?q "\<lparr>pr_TenantID = 1, pr_APIKeyID = 2\<rparr>" "''100''" fresh_writer]
  show ?thesis
    by (intro exI [of _ "bw_jobs b'"] exI [of _ ?q]) (simp add: sample_bw_def no_tables_def sample_repo_env_def sample_bj_def
        sample_bd_def sample_deps_def sample_created_job_def)
qed


end
