(* ===== verification/Worker.thy ===== *)
theory Worker
  imports Selector Inference Job_Repo Queue Json
begin

section \<open>The batch worker (internal/worker/worker.go)\<close>

text \<open>
  A worker handles one job message at a time per delivery, with a pool of goroutines that claim the
  job's items. The pool is a list of goroutine states; a schedule interleaves their steps, one
  shared-state access per step, with whatever other goroutines and processes do to the shared world
  in between. What a step reads from outside (store and queue answers, backend rows, clocks,
  the network) is its environment. The context is a flag of the world that is read where the code
  reads \<open>ctx.Err()\<close>.
\<close>

subsection \<open>Configuration, dependencies and world\<close>

record worker_Config =
  wc_Concurrency :: int
  wc_MaxItemAttempts :: int
  wc_ReclaimMinIdle :: duration
  wc_ReclaimInterval :: duration
  wc_OutboxInterval :: duration
  wc_OutboxBatch :: int

text \<open>
  The libraries the worker calls: \<open>uuid.Parse\<close>, \<open>UUID.String\<close>, the splitting of JSON text into
  values, and the \<open>%q\<close> and \<open>%v\<close> of \<open>fmt\<close> for values of these kinds.
\<close>

record go_lib =
  uuid_Parse :: "string \<Rightarrow> string + uuid"
  uuid_String :: "uuid \<Rightarrow> string"
  json_value :: "string \<Rightarrow> json option"
  quote :: "string \<Rightarrow> string"
  select_error_text :: "select_error \<Rightarrow> string"
  go_error_text :: "go_error \<Rightarrow> string"

record ('e, 's, 'qe, 'q, 'r, 'x) Worker =
  wk_queue :: "('qe, 'q) Queue"
  wk_store :: "('e, 's) JobStore"
  wk_intn :: "'r intn"
  wk_int63n :: "'x int63n"
  wk_client :: Client
  wk_lib :: go_lib
  wk_cfg :: worker_Config

definition New ::
  "('e, 's, 'qe, 'q, 'r, 'x) Worker \<Rightarrow> worker_Config \<Rightarrow> ('e, 's, 'qe, 'q, 'r, 'x) Worker" where
  "New deps cfg =
     (let cfg = (if wc_Concurrency cfg < 1 then cfg\<lparr>wc_Concurrency := 1\<rparr> else cfg);
          cfg = (if wc_MaxItemAttempts cfg < 1 then cfg\<lparr>wc_MaxItemAttempts := 1\<rparr> else cfg);
          cfg = (if wc_ReclaimMinIdle cfg \<le> 0 then cfg\<lparr>wc_ReclaimMinIdle := 60 * 10 ^ 9\<rparr> else cfg);
          cfg = (if wc_ReclaimInterval cfg \<le> 0 then cfg\<lparr>wc_ReclaimInterval := 30 * 10 ^ 9\<rparr> else cfg);
          cfg = (if wc_OutboxInterval cfg \<le> 0 then cfg\<lparr>wc_OutboxInterval := 5 * 10 ^ 9\<rparr> else cfg);
          cfg = (if wc_OutboxBatch cfg < 1 then cfg\<lparr>wc_OutboxBatch := 100\<rparr> else cfg)
      in deps\<lparr>wk_cfg := cfg\<rparr>)"

text \<open>The state the worker's goroutines share, with the two counters they keep.\<close>

record ('s, 'q, 'r) world =
  w_store :: 's
  w_queue :: 'q
  w_sel :: "'r Selector"
  w_br :: Breaker
  w_inflight :: "string list"
  w_ctx :: bool
  WorkerFailuresTotal :: nat
  BatchItemsProcessedTotal :: "ItemStatus \<Rightarrow> nat"

definition worker_failure :: "('s, 'q, 'r) world \<Rightarrow> ('s, 'q, 'r) world" where
  "worker_failure w = w\<lparr>WorkerFailuresTotal := WorkerFailuresTotal w + 1\<rparr>"

definition item_processed :: "ItemStatus \<Rightarrow> ('s, 'q, 'r) world \<Rightarrow> ('s, 'q, 'r) world" where
  "item_processed st w =
     w\<lparr>BatchItemsProcessedTotal := (BatchItemsProcessedTotal w)(st := BatchItemsProcessedTotal w st + 1)\<rparr>"

definition markInFlight :: "string \<Rightarrow> ('s, 'q, 'r) world \<Rightarrow> bool \<times> ('s, 'q, 'r) world" where
  "markInFlight msgID w =
     (if msgID \<in> set (w_inflight w) then (False, w)
      else (True, w\<lparr>w_inflight := w_inflight w @ [msgID]\<rparr>))"

definition release_inflight :: "string \<Rightarrow> ('s, 'q, 'r) world \<Rightarrow> ('s, 'q, 'r) world" where
  "release_inflight msgID w = w\<lparr>w_inflight := filter (\<lambda>m. m \<noteq> msgID) (w_inflight w)\<rparr>"

definition isInFlight :: "string \<Rightarrow> ('s, 'q, 'r) world \<Rightarrow> bool" where
  "isInFlight msgID w \<longleftrightarrow> msgID \<in> set (w_inflight w)"

text \<open>Calls on the store and the queue of the world.\<close>

definition on_store :: "('s \<Rightarrow> 'a \<times> 's) \<Rightarrow> ('s, 'q, 'r) world \<Rightarrow> 'a \<times> ('s, 'q, 'r) world" where
  "on_store f w = (case f (w_store w) of (a, s) \<Rightarrow> (a, w\<lparr>w_store := s\<rparr>))"

definition on_queue :: "('q \<Rightarrow> 'a \<times> 'q) \<Rightarrow> ('s, 'q, 'r) world \<Rightarrow> 'a \<times> ('s, 'q, 'r) world" where
  "on_queue f w = (case f (w_queue w) of (a, q) \<Rightarrow> (a, w\<lparr>w_queue := q\<rparr>))"

subsection \<open>Error texts\<close>

definition selectFailureMessage :: "go_lib \<Rightarrow> string \<Rightarrow> select_error \<Rightarrow> bool \<Rightarrow> string" where
  "selectFailureMessage lib model err failedOver =
     (if err = ErrNoBackends \<and> \<not> failedOver then ''model '' @ quote lib model @ '' is not served by any backend''
      else if err = ErrNoBackends \<or> err = ErrNoCapacity then ''no backend is currently available for this model''
      else ''routing failed: '' @ select_error_text lib err)"

text \<open>\<open>inference.Error.Error()\<close>.\<close>

definition Error_text :: "go_lib \<Rightarrow> Error \<Rightarrow> string" where
  "Error_text lib e =
     (let kind = (if err_Transient e then ''transient'' else ''permanent'')
      in case err_Err e of
           Some err \<Rightarrow> ''inference: backend '' @ err_Backend e @ '': '' @ kind @ '' failure: '' @ go_error_text lib err
         | None \<Rightarrow> ''inference: backend '' @ err_Backend e @ '': '' @ kind @ '' failure: upstream status ''
                     @ int_decimal (err_Status e))"

definition modelFromRequest :: "go_lib \<Rightarrow> string \<Rightarrow> string" where
  "modelFromRequest lib request =
     (case json_value lib request of
        None \<Rightarrow> []
      | Some j \<Rightarrow> (case unmarshal_string_field ''model'' j of None \<Rightarrow> [] | Some m \<Rightarrow> m))"

subsection \<open>One goroutine of the pool\<close>

text \<open>
  Where a goroutine is: at the head of its claim loop; about to publish the dead letter of an
  exhausted item; at the head of the failover loop of \<open>processItem\<close>; in \<open>callBackend\<close> before the
  call, before the circuit report and before the release of its slot; after \<open>callBackend\<close>; in
  \<open>finishItem\<close>; or ended.
\<close>

datatype goroutine =
    GLoop
  | GExhausted BatchJobItem
  | GItem BatchJobItem "uuid list"
  | GCall BatchJobItem "uuid list" Selection nat
  | GReport BatchJobItem "uuid list" Selection nat do_result
  | GRelease BatchJobItem "uuid list" nat "((Response option \<times> Error option) \<times> bool) option"
  | GCalled BatchJobItem "uuid list" "Response option \<times> Error option" bool
  | GFinish BatchJobItem ItemStatus string "string option"
  | GDone

record ('e, 'qe, 'x) genv =
  ge_store :: 'e
  ge_queue :: 'qe
  ge_policies :: policy_store
  ge_backends :: backend_store
  ge_clk :: "uuid \<Rightarrow> time"
  ge_now :: time
  ge_attempts :: "int \<Rightarrow> attempt_env"
  ge_rng :: 'x
  ge_panic :: bool

text \<open>The next state, whether the pass is now broken, and the world.\<close>

type_synonym ('s, 'q, 'r) gresult = "goroutine \<times> bool \<times> ('s, 'q, 'r) world"

definition claim_step ::
  "('e, 's, 'qe, 'q, 'r, 'x) Worker \<Rightarrow> uuid \<Rightarrow> ('e, 'qe, 'x) genv \<Rightarrow> ('s, 'q, 'r) world \<Rightarrow> ('s, 'q, 'r) gresult" where
  "claim_step wk jobID ge w =
     (if w_ctx w then (GDone, False, w)
      else case on_store (js_ClaimNextQueuedItem (wk_store wk) (ge_store ge) jobID (wc_MaxItemAttempts (wk_cfg wk))) w of
        (Inl err, w) \<Rightarrow> (GDone, True, worker_failure w)
      | (Inr res, w) \<Rightarrow>
          (case cr_Outcome res of
             ClaimNone \<Rightarrow> (GDone, False, w)
           | ClaimExhausted \<Rightarrow> (GExhausted (the (cr_Item res)), False, item_processed ItemStatusFailed w)
           | ClaimClaimed \<Rightarrow> (GItem (the (cr_Item res)) [], False, w)))"

definition exhausted_step ::
  "('e, 's, 'qe, 'q, 'r, 'x) Worker \<Rightarrow> Message \<Rightarrow> ('e, 'qe, 'x) genv \<Rightarrow> BatchJobItem \<Rightarrow> ('s, 'q, 'r) world
     \<Rightarrow> ('s, 'q, 'r) gresult" where
  "exhausted_step wk msg ge item w =
     (let reason = ''item '' @ uuid_String (wk_lib wk) (item_ID item) @ '' (custom_id ''
                     @ quote (wk_lib wk) (item_CustomID item) @ '') ''
                     @ ExhaustedError (item_Attempts item) (wc_MaxItemAttempts (wk_cfg wk))
      in case on_queue (q_PublishDLQ (wk_queue wk) (ge_queue ge) msg reason) w of
           (Inl err, w) \<Rightarrow> (GLoop, False, worker_failure w)
         | (Inr _, w) \<Rightarrow> (GLoop, False, w))"

text \<open>The head of \<open>processItem\<close> and of its loop, up to the backend selection.\<close>

definition select_step ::
  "('e, 's, 'qe, 'q, 'r, 'x) Worker \<Rightarrow> ('e, 'qe, 'x) genv \<Rightarrow> BatchJobItem \<Rightarrow> uuid list \<Rightarrow> ('s, 'q, 'r) world
     \<Rightarrow> ('s, 'q, 'r) gresult" where
  "select_step wk ge item tried w =
     (let model = modelFromRequest (wk_lib wk) (item_Request item)
      in if model = [] then (GFinish item ItemStatusFailed [] (Some ''stored request has no model''), False, w)
         else if w_ctx w then (GDone, True, w)
         else case Select (wk_intn wk) (ge_policies ge) (ge_backends ge) (ge_clk ge) model tried (w_sel w) (w_br w) of
           None \<Rightarrow> (GDone, True, worker_failure w)
         | Some (Inl err, s, br) \<Rightarrow>
             (GFinish item ItemStatusFailed [] (Some (selectFailureMessage (wk_lib wk) model err (tried \<noteq> []))), False,
              w\<lparr>w_sel := s, w_br := br\<rparr>)
         | Some (Inr (sel, release), s, br) \<Rightarrow>
             (GCall item (tried @ [mb_ID (sel_Backend sel)]) sel release, False, w\<lparr>w_sel := s, w_br := br\<rparr>))"

definition call_step ::
  "('e, 's, 'qe, 'q, 'r, 'x) Worker \<Rightarrow> ('e, 'qe, 'x) genv \<Rightarrow> Selection \<Rightarrow> do_result" where
  "call_step wk ge sel =
     (if ge_panic ge then DoPanicked
      else case Do (wk_int63n wk) (wk_client wk) (ge_attempts ge) (sel_Backend sel) (ge_rng ge) of
        None \<Rightarrow> DoPanicked
      | Some (res, _, _) \<Rightarrow> DoReturned res)"

text \<open>The circuit report of \<open>callBackend\<close>, and what it will return (nothing after a panic).\<close>

definition report_step ::
  "('e, 'qe, 'x) genv \<Rightarrow> Selection \<Rightarrow> do_result \<Rightarrow> ('s, 'q, 'r) world
     \<Rightarrow> ((Response option \<times> Error option) \<times> bool) option \<times> ('s, 'q, 'r) world" where
  "report_step ge sel res w =
     (let backend = mb_Name (sel_Backend sel)
      in case res of
           DoPanicked \<Rightarrow> (None, w\<lparr>w_br := ReportCanceled backend (w_br w)\<rparr>)
         | DoReturned (resp, err) \<Rightarrow>
             (if err = None then (Some ((resp, None), False), w\<lparr>w_br := ReportSuccess backend (w_br w)\<rparr>)
              else if w_ctx w then (Some ((None, err), False), w\<lparr>w_br := ReportCanceled backend (w_br w)\<rparr>)
              else if IsTransient err then (Some ((None, err), True), w\<lparr>w_br := ReportFailure (ge_now ge) backend (w_br w)\<rparr>)
              else (Some ((None, err), False), w\<lparr>w_br := ReportSuccess backend (w_br w)\<rparr>)))"

text \<open>The rest of the loop body of \<open>processItem\<close> after \<open>callBackend\<close> returned.\<close>

definition called_step ::
  "('e, 's, 'qe, 'q, 'r, 'x) Worker \<Rightarrow> BatchJobItem \<Rightarrow> uuid list \<Rightarrow> Response option \<times> Error option \<Rightarrow> bool
     \<Rightarrow> ('s, 'q, 'r) world \<Rightarrow> goroutine \<times> bool" where
  "called_step wk item tried res failover w =
     (case snd res of
        None \<Rightarrow> (GFinish item ItemStatusSucceeded (resp_Body (the (fst res))) None, False)
      | Some err \<Rightarrow>
          (if failover \<and> \<not> w_ctx w then (GItem item tried, False)
           else if w_ctx w then (GDone, True)
           else (GFinish item ItemStatusFailed [] (Some (Error_text (wk_lib wk) err)), False)))"

definition finishItem ::
  "('e, 's, 'qe, 'q, 'r, 'x) Worker \<Rightarrow> ('e, 'qe, 'x) genv \<Rightarrow> BatchJobItem \<Rightarrow> ItemStatus \<Rightarrow> string \<Rightarrow> string option
     \<Rightarrow> ('s, 'q, 'r) world \<Rightarrow> (jobs_error + unit) \<times> ('s, 'q, 'r) world" where
  "finishItem wk ge item status response errMsg w =
     (case on_store (js_UpdateItemTerminal (wk_store wk) (ge_store ge) (item_ID item) status response errMsg) w of
        (Inl Jobs_ErrNotFound, w) \<Rightarrow> (Inr (), w)
      | (Inl err, w) \<Rightarrow> (Inl err, worker_failure w)
      | (Inr _, w) \<Rightarrow> (Inr (), item_processed status w))"

fun gstep ::
  "('e, 's, 'qe, 'q, 'r, 'x) Worker \<Rightarrow> Message \<Rightarrow> uuid \<Rightarrow> ('e, 'qe, 'x) genv \<Rightarrow> goroutine \<Rightarrow> ('s, 'q, 'r) world
     \<Rightarrow> ('s, 'q, 'r) gresult" where
  "gstep wk msg jobID ge GLoop w = claim_step wk jobID ge w"
| "gstep wk msg jobID ge (GExhausted item) w = exhausted_step wk msg ge item w"
| "gstep wk msg jobID ge (GItem item tried) w = select_step wk ge item tried w"
| "gstep wk msg jobID ge (GCall item tried sel h) w = (GReport item tried sel h (call_step wk ge sel), False, w)"
| "gstep wk msg jobID ge (GReport item tried sel h res) w =
     (case report_step ge sel res w of (out, w) \<Rightarrow> (GRelease item tried h out, False, w))"
| "gstep wk msg jobID ge (GRelease item tried h out) w =
     (let w = w\<lparr>w_sel := release_call h (w_sel w)\<rparr>
      in case out of
           None \<Rightarrow> (GDone, True, worker_failure w)
         | Some (res, failover) \<Rightarrow> (GCalled item tried res failover, False, w))"
| "gstep wk msg jobID ge (GCalled item tried res failover) w =
     (case called_step wk item tried res failover w of (g, b) \<Rightarrow> (g, b, w))"
| "gstep wk msg jobID ge (GFinish item status response errMsg) w =
     (case finishItem wk ge item status response errMsg w of
        (Inl _, w) \<Rightarrow> (GDone, True, w)
      | (Inr _, w) \<Rightarrow> (GLoop, False, w))"
| "gstep wk msg jobID ge GDone w = (GDone, False, w)"

subsection \<open>The pool and its schedules\<close>

text \<open>\<open>Sched i ge\<close>: goroutine \<open>i\<close> takes its next step; \<open>Others w\<close>: somebody else changed the world to \<open>w\<close>.\<close>

datatype ('e, 's, 'qe, 'q, 'r, 'x) pool_event =
    Sched nat "('e, 'qe, 'x) genv"
  | Others "('s, 'q, 'r) world"

record ('s, 'q, 'r) pool =
  p_gs :: "goroutine list"
  p_broken :: bool
  p_world :: "('s, 'q, 'r) world"

fun pool_step ::
  "('e, 's, 'qe, 'q, 'r, 'x) Worker \<Rightarrow> Message \<Rightarrow> uuid \<Rightarrow> ('s, 'q, 'r) pool
     \<Rightarrow> ('e, 's, 'qe, 'q, 'r, 'x) pool_event \<Rightarrow> ('s, 'q, 'r) pool" where
  "pool_step wk msg jobID p (Sched i ge) =
     (if i < length (p_gs p)
      then case gstep wk msg jobID ge (p_gs p ! i) (p_world p) of (g, b, w) \<Rightarrow>
             \<lparr>p_gs = (p_gs p)[i := g], p_broken = p_broken p \<or> b, p_world = w\<rparr>
      else p)"
| "pool_step wk msg jobID p (Others w) = p\<lparr>p_world := w\<rparr>"

definition pool_start :: "('e, 's, 'qe, 'q, 'r, 'x) Worker \<Rightarrow> ('s, 'q, 'r) world \<Rightarrow> ('s, 'q, 'r) pool" where
  "pool_start wk w = \<lparr>p_gs = replicate (nat (wc_Concurrency (wk_cfg wk))) GLoop, p_broken = False, p_world = w\<rparr>"

definition pool_done :: "('s, 'q, 'r) pool \<Rightarrow> bool" where
  "pool_done p \<longleftrightarrow> list_all (\<lambda>g. g = GDone) (p_gs p)"

subsection \<open>handleMessage\<close>

text \<open>What the calls before and after the pool draw from their surroundings.\<close>

record ('e, 'qe) henv =
  he_mark :: 'e
  he_requeue :: 'e
  he_recompute :: 'e
  he_dlq :: 'qe
  he_ack :: 'qe

datatype handle_error =
    QueueError string
  | ContextEnded
  | PassIncomplete uuid
  | JobPassFailed string uuid jobs_error
  | AckFailed uuid string

definition failJobPass ::
  "uuid \<Rightarrow> string \<Rightarrow> jobs_error \<Rightarrow> ('s, 'q, 'r) world \<Rightarrow> (handle_error + unit) \<times> ('s, 'q, 'r) world" where
  "failJobPass jobID op err w = (Inl (JobPassFailed op jobID err), worker_failure w)"

definition dlq_and_ack ::
  "('e, 's, 'qe, 'q, 'r, 'x) Worker \<Rightarrow> ('e, 'qe) henv \<Rightarrow> Message \<Rightarrow> string \<Rightarrow> ('s, 'q, 'r) world
     \<Rightarrow> (handle_error + unit) \<times> ('s, 'q, 'r) world" where
  "dlq_and_ack wk he msg reason w =
     (case on_queue (q_PublishDLQ (wk_queue wk) (he_dlq he) msg reason) w of
        (Inl err, w) \<Rightarrow> (Inl (QueueError err), w)
      | (Inr _, w) \<Rightarrow>
          (case on_queue (q_Ack (wk_queue wk) (he_ack he) msg) w of
             (Inl err, w) \<Rightarrow> (Inl (QueueError err), w)
           | (Inr _, w) \<Rightarrow> (Inr (), w)))"

definition dropMissingJob ::
  "('e, 's, 'qe, 'q, 'r, 'x) Worker \<Rightarrow> ('e, 'qe) henv \<Rightarrow> Message \<Rightarrow> uuid \<Rightarrow> ('s, 'q, 'r) world
     \<Rightarrow> (handle_error + unit) \<times> ('s, 'q, 'r) world" where
  "dropMissingJob wk he msg jobID w =
     dlq_and_ack wk he msg (''job '' @ uuid_String (wk_lib wk) jobID @ '' no longer exists'') w"

text \<open>Up to the pool: finished with a result, or the job id to work on.\<close>

definition handle_prologue ::
  "('e, 's, 'qe, 'q, 'r, 'x) Worker \<Rightarrow> ('e, 'qe) henv \<Rightarrow> Message \<Rightarrow> ('s, 'q, 'r) world
     \<Rightarrow> ((handle_error + unit) + uuid) \<times> ('s, 'q, 'r) world" where
  "handle_prologue wk he msg w =
     (case uuid_Parse (wk_lib wk) (msg_JobID msg) of
        Inl err \<Rightarrow>
          (case dlq_and_ack wk he msg (''unparseable job_id '' @ quote (wk_lib wk) (msg_JobID msg)) (worker_failure w) of
             (res, w) \<Rightarrow> (Inl res, w))
      | Inr jobID \<Rightarrow>
          (case on_store (js_MarkJobRunning (wk_store wk) (he_mark he) jobID) w of
             (Inl Jobs_ErrNotFound, w) \<Rightarrow> (case dropMissingJob wk he msg jobID w of (res, w) \<Rightarrow> (Inl res, w))
           | (Inl err, w) \<Rightarrow> (case failJobPass jobID ''mark job running'' err w of (res, w) \<Rightarrow> (Inl res, w))
           | (Inr _, w) \<Rightarrow>
               (case on_store (js_RequeueRunningItems (wk_store wk) (he_requeue he) jobID) w of
                  (Inl err, w) \<Rightarrow> (case failJobPass jobID ''requeue running items'' err w of (res, w) \<Rightarrow> (Inl res, w))
                | (Inr _, w) \<Rightarrow> (Inr jobID, w))))"

text \<open>After \<open>wg.Wait()\<close>.\<close>

definition handle_epilogue ::
  "('e, 's, 'qe, 'q, 'r, 'x) Worker \<Rightarrow> ('e, 'qe) henv \<Rightarrow> Message \<Rightarrow> uuid \<Rightarrow> ('s, 'q, 'r) pool
     \<Rightarrow> (handle_error + unit) \<times> ('s, 'q, 'r) world" where
  "handle_epilogue wk he msg jobID p =
     (let w = p_world p
      in if w_ctx w then (Inl ContextEnded, w)
         else if p_broken p then (Inl (PassIncomplete jobID), w)
         else case on_store (js_RecomputeAndUpdateJobStatus (wk_store wk) (he_recompute he) jobID) w of
           (Inl Jobs_ErrNotFound, w) \<Rightarrow> dropMissingJob wk he msg jobID w
         | (Inl err, w) \<Rightarrow> failJobPass jobID ''recompute job status'' err w
         | (Inr _, w) \<Rightarrow>
             (case on_queue (q_Ack (wk_queue wk) (he_ack he) msg) w of
                (Inl err, w) \<Rightarrow> (Inl (AckFailed jobID err), worker_failure w)
              | (Inr _, w) \<Rightarrow> (Inr (), w)))"

text \<open>
  The whole handler under a schedule of its pool. \<open>None\<close>: the schedule ends before the pool does.
  The deferred release of the in-flight mark runs on every return.
\<close>

definition handleMessage ::
  "('e, 's, 'qe, 'q, 'r, 'x) Worker \<Rightarrow> ('e, 'qe) henv \<Rightarrow> ('e, 's, 'qe, 'q, 'r, 'x) pool_event list \<Rightarrow> Message
     \<Rightarrow> ('s, 'q, 'r) world \<Rightarrow> ((handle_error + unit) \<times> ('s, 'q, 'r) world) option" where
  "handleMessage wk he sched msg w =
     (case markInFlight (msg_ID msg) w of
        (False, w) \<Rightarrow> Some (Inr (), w)
      | (True, w) \<Rightarrow>
          (case handle_prologue wk he msg w of
             (Inl res, w) \<Rightarrow> Some (res, release_inflight (msg_ID msg) w)
           | (Inr jobID, w) \<Rightarrow>
               (let p = foldl (pool_step wk msg jobID) (pool_start wk w) sched
                in if \<not> pool_done p then None
                   else case handle_epilogue wk he msg jobID p of
                     (res, w) \<Rightarrow> Some (res, release_inflight (msg_ID msg) w))))"

subsection \<open>The recovery loops\<close>

text \<open>
  The loop of \<open>reclaimOnce\<close> over the claimed messages: each with the environment and the schedule
  its handler runs under.
\<close>

fun reclaim_loop ::
  "('e, 's, 'qe, 'q, 'r, 'x) Worker \<Rightarrow> (Message \<times> ('e, 'qe) henv \<times> ('e, 's, 'qe, 'q, 'r, 'x) pool_event list) list
     \<Rightarrow> ('s, 'q, 'r) world \<Rightarrow> ('s, 'q, 'r) world option" where
  "reclaim_loop wk [] w = Some w"
| "reclaim_loop wk ((msg, he, sched) # ms) w =
     (if w_ctx w then Some w
      else if isInFlight (msg_ID msg) w then reclaim_loop wk ms w
      else case handleMessage wk he sched msg w of
        None \<Rightarrow> None
      | Some (_, w) \<Rightarrow> reclaim_loop wk ms w)"

definition reclaimOnce ::
  "('e, 's, 'qe, 'q, 'r, 'x) Worker \<Rightarrow> 'qe
     \<Rightarrow> (Message \<Rightarrow> ('e, 'qe) henv \<times> ('e, 's, 'qe, 'q, 'r, 'x) pool_event list)
     \<Rightarrow> ('s, 'q, 'r) world \<Rightarrow> ('s, 'q, 'r) world option" where
  "reclaimOnce wk qe envs w =
     (case on_queue (q_Claim (wk_queue wk) qe (wc_ReclaimMinIdle (wk_cfg wk))) w of
        (Inl err, w) \<Rightarrow> Some (if w_ctx w then w else worker_failure w)
      | (Inr msgs, w) \<Rightarrow> reclaim_loop wk (map (\<lambda>m. (m, envs m)) msgs) w)"

text \<open>The outbox drain; \<open>envs\<close> gives the surroundings of each row's publish and mark.\<close>

fun drain_loop ::
  "('e, 's, 'qe, 'q, 'r, 'x) Worker \<Rightarrow> (uuid \<Rightarrow> 'qe \<times> 'e) \<Rightarrow> BatchJobOutbox list
     \<Rightarrow> ('s, 'q, 'r) world \<Rightarrow> ('s, 'q, 'r) world" where
  "drain_loop wk envs [] w = w"
| "drain_loop wk envs (ob # obs) w =
     (if w_ctx w then w
      else case envs (ob_ID ob) of (qe, e) \<Rightarrow>
        (case on_queue (q_Publish (wk_queue wk) qe (uuid_String (wk_lib wk) (ob_JobID ob))) w of
           (Inl err, w) \<Rightarrow>
             drain_loop wk envs obs
               (snd (on_store (js_MarkOutboxFailedAttempt (wk_store wk) e (ob_ID ob) err) (worker_failure w)))
         | (Inr _, w) \<Rightarrow>
             drain_loop wk envs obs (snd (on_store (js_MarkOutboxPublished (wk_store wk) e (ob_ID ob)) w))))"

definition drainOutboxOnce ::
  "('e, 's, 'qe, 'q, 'r, 'x) Worker \<Rightarrow> 'e \<Rightarrow> (uuid \<Rightarrow> 'qe \<times> 'e) \<Rightarrow> ('s, 'q, 'r) world \<Rightarrow> ('s, 'q, 'r) world" where
  "drainOutboxOnce wk e envs w =
     (case js_PendingOutbox (wk_store wk) e (wc_OutboxBatch (wk_cfg wk)) (w_store w) of
        Inl err \<Rightarrow> (if w_ctx w then w else worker_failure w)
      | Inr rows \<Rightarrow> drain_loop wk envs rows w)"

subsection \<open>Who holds which item\<close>

fun g_item :: "goroutine \<Rightarrow> uuid option" where
  "g_item (GItem item tried) = Some (item_ID item)"
| "g_item (GCall item tried sel h) = Some (item_ID item)"
| "g_item (GReport item tried sel h res) = Some (item_ID item)"
| "g_item (GRelease item tried h out) = Some (item_ID item)"
| "g_item (GCalled item tried res failover) = Some (item_ID item)"
| "g_item (GFinish item status response errMsg) = Some (item_ID item)"
| "g_item _ = None"

text \<open>Every running item of the job is held by a goroutine of the pool.\<close>

definition covered :: "uuid \<Rightarrow> goroutine list \<Rightarrow> BatchJobItem list \<Rightarrow> bool" where
  "covered j gs its \<longleftrightarrow> (\<forall>it \<in> set its. item_JobID it = j \<and> item_Status it = ItemStatusRunning
      \<longrightarrow> Some (item_ID it) \<in> set (map g_item gs))"

definition no_queued :: "uuid \<Rightarrow> BatchJobItem list \<Rightarrow> bool" where
  "no_queued j its \<longleftrightarrow> (\<forall>it \<in> set its. item_JobID it = j \<longrightarrow> item_Status it \<noteq> ItemStatusQueued)"

lemma covered_update:
  assumes "i < length gs" and "covered j gs its"
    and "\<And>it. it \<in> set its' \<Longrightarrow> item_JobID it = j \<Longrightarrow> item_Status it = ItemStatusRunning \<Longrightarrow>
      g_item g' = Some (item_ID it) \<or> it \<in> set its \<and> g_item (gs ! i) \<noteq> Some (item_ID it)"
  shows "covered j (gs[i := g']) its'"
  unfolding covered_def
proof (intro ballI impI)
  fix it
  assume it: "it \<in> set its'" and st: "item_JobID it = j \<and> item_Status it = ItemStatusRunning"
  consider "g_item g' = Some (item_ID it)" | "it \<in> set its" "g_item (gs ! i) \<noteq> Some (item_ID it)"
    using assms(3) [OF it] st by blast
  then show "Some (item_ID it) \<in> set (map g_item (gs[i := g']))"
  proof cases
    case 1
    then show ?thesis using assms(1) by (metis image_eqI list.set_map set_update_memI)
  next
    case 2
    then obtain k where "k < length gs" "g_item (gs ! k) = Some (item_ID it)"
      using assms(2) st unfolding covered_def by (metis in_set_conv_nth length_map nth_map)
    moreover from this 2(2) have "k \<noteq> i" by auto
    ultimately have "k < length (gs[i := g'])" "g_item (gs[i := g'] ! k) = Some (item_ID it)" by simp_all
    then show ?thesis by (metis image_eqI list.set_map nth_mem)
  qed
qed

lemma covered_same:
  "i < length gs \<Longrightarrow> covered j gs its \<Longrightarrow> g_item g' = g_item (gs ! i) \<Longrightarrow> covered j (gs[i := g']) its"
proof (rule covered_update)
  fix it assume "covered j gs its" "g_item g' = g_item (gs ! i)"
  then show "g_item g' = Some (item_ID it) \<or> it \<in> set its \<and> g_item (gs ! i) \<noteq> Some (item_ID it)"
    if "it \<in> set its" using that by auto
qed auto

text \<open>The steps that touch neither the store nor the context.\<close>

lemma gstep_frame:
  assumes "gstep wk msg j ge g w = (g', b, w')" and "\<forall>item st r m. g \<noteq> GLoop \<and> g \<noteq> GFinish item st r m"
  shows "w_store w' = w_store w \<and> w_ctx w' = w_ctx w \<and> (b \<or> g_item g' = g_item g) \<and> (g' = GDone \<longrightarrow> b \<or> g = GDone)"
  using assms
  by (cases g; auto simp: exhausted_step_def select_step_def report_step_def called_step_def on_queue_def
      worker_failure_def Let_def split: if_splits sum.splits prod.splits option.splits do_result.splits)

lemma on_store_eq: "on_store f w = (a, w') \<longleftrightarrow> (\<exists>s'. f (w_store w) = (a, s') \<and> w' = w\<lparr>w_store := s'\<rparr>)"
  by (auto simp: on_store_def split: prod.splits)

lemma counter_fields [simp]:
  "w_store (worker_failure w) = w_store w" "w_ctx (worker_failure w) = w_ctx w"
  "w_queue (worker_failure w) = w_queue w" "w_sel (worker_failure w) = w_sel w"
  "w_store (item_processed st w) = w_store w" "w_ctx (item_processed st w) = w_ctx w"
  "w_queue (item_processed st w) = w_queue w" "w_sel (item_processed st w) = w_sel w"
  by (simp_all add: worker_failure_def item_processed_def)

text \<open>
  A schedule in which nobody else works on the job: a claim may skip rows locked by another claim of
  the same pool (a goroutine that is at the head of its loop), and whatever else happens in between
  leaves the job's items alone, keeps the store consistent and never revives an ended context.
\<close>

fun solo_event ::
  "('s \<Rightarrow> bool) \<Rightarrow> ('s \<Rightarrow> BatchJobItem list) \<Rightarrow> ('e \<Rightarrow> bool) \<Rightarrow> uuid \<Rightarrow> ('s, 'q, 'r) pool
     \<Rightarrow> ('e, 's, 'qe, 'q, 'r, 'x) pool_event \<Rightarrow> bool" where
  "solo_event ok its quiet j p (Sched i ge) \<longleftrightarrow>
     quiet (ge_store ge) \<or> list_ex (\<lambda>k. k \<noteq> i \<and> p_gs p ! k = GLoop) [0..<length (p_gs p)]"
| "solo_event ok its quiet j p (Others w) \<longleftrightarrow>
     ok (w_store w) \<and> (w_ctx (p_world p) \<longrightarrow> w_ctx w)
     \<and> filter (\<lambda>it. item_JobID it = j) (its (w_store w))
         = filter (\<lambda>it. item_JobID it = j) (its (w_store (p_world p)))"

fun solo ::
  "('s \<Rightarrow> bool) \<Rightarrow> ('s \<Rightarrow> BatchJobItem list) \<Rightarrow> ('e \<Rightarrow> bool) \<Rightarrow> ('e, 's, 'qe, 'q, 'r, 'x) Worker \<Rightarrow> Message \<Rightarrow> uuid
     \<Rightarrow> ('s, 'q, 'r) pool \<Rightarrow> ('e, 's, 'qe, 'q, 'r, 'x) pool_event list \<Rightarrow> bool" where
  "solo ok its quiet wk msg j p [] \<longleftrightarrow> True"
| "solo ok its quiet wk msg j p (ev # evs) \<longleftrightarrow>
     solo_event ok its quiet j p ev \<and> solo ok its quiet wk msg j (pool_step wk msg j p ev) evs"

lemma covered_filter: "covered j gs its \<longleftrightarrow> covered j gs (filter (\<lambda>it. item_JobID it = j) its)"
  by (auto simp: covered_def)

lemma no_queued_filter: "no_queued j its \<longleftrightarrow> no_queued j (filter (\<lambda>it. item_JobID it = j) its)"
  by (auto simp: no_queued_def)

definition pool_inv :: "('s \<Rightarrow> bool) \<Rightarrow> ('s \<Rightarrow> BatchJobItem list) \<Rightarrow> uuid \<Rightarrow> ('s, 'q, 'r) pool \<Rightarrow> bool" where
  [inv_defs]: "pool_inv ok its j p \<longleftrightarrow> ok (w_store (p_world p))
     \<and> (\<not> p_broken p \<and> \<not> w_ctx (p_world p) \<longrightarrow> covered j (p_gs p) (its (w_store (p_world p)))
          \<and> (pool_done p \<longrightarrow> no_queued j (its (w_store (p_world p)))))"

lemma pool_done_update:
  assumes "i < length gs" and "list_all (\<lambda>g. g = GDone) (gs[i := g'])"
  shows "g' = GDone \<and> (\<forall>k < length gs. k \<noteq> i \<longrightarrow> gs ! k = GDone)"
proof (intro conjI allI impI)
  have all: "\<And>k. k < length gs \<Longrightarrow> gs[i := g'] ! k = GDone" using assms(2) by (simp add: list_all_length)
  show "g' = GDone" using all [OF assms(1)] assms(1) by simp
  show "gs ! k = GDone" if "k < length gs" "k \<noteq> i" for k using all [OF that(1)] that(2) by simp
qed

lemma on_queue_store [simp]: "w_store (snd (on_queue f w)) = w_store w" "w_ctx (snd (on_queue f w)) = w_ctx w"
  by (simp_all add: on_queue_def split: prod.splits)

lemma w_store_upd: "w_store (w\<lparr>w_store := s\<rparr>) = s"
  by simp

lemma dlq_and_ack_store: "w_store (snd (dlq_and_ack wk he msg reason w)) = w_store w"
  by (auto simp: dlq_and_ack_def on_queue_def split: prod.splits sum.splits)

lemma release_inflight_fields [simp]:
  "w_store (release_inflight m w) = w_store w" "w_queue (release_inflight m w) = w_queue w"
  by (simp_all add: release_inflight_def)

lemma prologue_cases:
  assumes "uuid_Parse (wk_lib wk) (msg_JobID msg) = Inr j" and "handle_prologue wk he msg w = (res, w1)"
  obtains (gone) "fst (js_MarkJobRunning (wk_store wk) (he_mark he) j (w_store w)) = Inl Jobs_ErrNotFound"
    | (failed) op err where "res = Inl (Inl (JobPassFailed op j err))"
    | (go) "res = Inr j"
proof -
  obtain mr s1 where m: "js_MarkJobRunning (wk_store wk) (he_mark he) j (w_store w) = (mr, s1)" by fastforce
  obtain rr s2 where r: "js_RequeueRunningItems (wk_store wk) (he_requeue he) j s1 = (rr, s2)" by fastforce
  show thesis
  proof (cases mr)
    case (Inl err)
    show thesis
    proof (cases "err = Jobs_ErrNotFound")
      case True
      then show thesis using gone m Inl by simp
    next
      case False
      then show thesis using failed assms m Inl
        by (cases err) (auto simp: handle_prologue_def on_store_def failJobPass_def)
    qed
  next
    case (Inr u)
    then show thesis using failed go assms m r
      by (cases rr) (auto simp: handle_prologue_def on_store_def failJobPass_def)
  qed
qed

lemma prologue_go:
  assumes "handle_prologue wk he msg w = (Inr j, w1)"
  shows "\<exists>s1 n. js_MarkJobRunning (wk_store wk) (he_mark he) j (w_store w) = (Inr (), s1)
     \<and> js_RequeueRunningItems (wk_store wk) (he_requeue he) j s1 = (Inr n, w_store w1)"
proof -
  obtain j' where u: "uuid_Parse (wk_lib wk) (msg_JobID msg) = Inr j'"
    using assms by (cases "uuid_Parse (wk_lib wk) (msg_JobID msg)") (auto simp: handle_prologue_def split: prod.splits)
  obtain mr s1 where m: "js_MarkJobRunning (wk_store wk) (he_mark he) j' (w_store w) = (mr, s1)" by fastforce
  obtain rr s2 where r: "js_RequeueRunningItems (wk_store wk) (he_requeue he) j' s1 = (rr, s2)" by fastforce
  obtain x where mr: "mr = Inr x"
    using assms u m by (cases mr) (auto simp: handle_prologue_def on_store_def failJobPass_def split: prod.splits jobs_error.splits)
  then show ?thesis using assms u m r
    by (cases rr) (auto simp: handle_prologue_def on_store_def failJobPass_def)
qed

lemma epilogue_ok:
  assumes "handle_epilogue wk he msg j p = (Inr (), w')"
  shows "\<not> w_ctx (p_world p) \<and> \<not> p_broken p
     \<and> (\<exists>r. js_RecomputeAndUpdateJobStatus (wk_store wk) (he_recompute he) j (w_store (p_world p)) = (r, w_store w')
          \<and> (r = Inl Jobs_ErrNotFound \<or> (\<exists>jst. r = Inr jst)))"
proof -
  obtain r s1 where r: "js_RecomputeAndUpdateJobStatus (wk_store wk) (he_recompute he) j (w_store (p_world p)) = (r, s1)"
    by fastforce
  have live: "\<not> w_ctx (p_world p) \<and> \<not> p_broken p" using assms by (auto simp: handle_epilogue_def Let_def split: if_splits)
  let ?w = "(p_world p)\<lparr>w_store := s1\<rparr>"
  show ?thesis
  proof (cases r)
    case (Inl err)
    show ?thesis
    proof (cases "err = Jobs_ErrNotFound")
      case True
      then have "dropMissingJob wk he msg j ?w = (Inr (), w')"
        using assms live r Inl by (simp add: handle_epilogue_def Let_def on_store_def)
      then have "w_store w' = s1" using dlq_and_ack_store [of wk he msg _ ?w] by (metis dropMissingJob_def snd_conv w_store_upd)
      then show ?thesis using live r Inl True by simp
    next
      case False
      then show ?thesis using assms live r Inl
        by (cases err) (simp_all add: handle_epilogue_def Let_def on_store_def failJobPass_def)
    qed
  next
    case (Inr jst)
    then have "w_store w' = s1"
      using assms live r by (auto simp: handle_epilogue_def Let_def on_store_def on_queue_def split: prod.splits sum.splits)
    then show ?thesis using live r Inr by simp
  qed
qed

context job_store
begin

lemma claim_step_inv:
  assumes "inv (w_store w)" and "wk_store wk = store" and "claim_step wk j ge w = (g', b, w')"
  shows "inv (w_store w')"
proof (cases "w_ctx w")
  case True
  then show ?thesis using assms by (simp add: claim_step_def)
next
  case False
  let ?M = "wc_MaxItemAttempts (wk_cfg wk)"
  have "fresh (w_store w) (JClaim (ge_store ge) j ?M)" by (simp add: fresh_other)
  from step_inv [OF assms(1) this] have "inv (snd (js_ClaimNextQueuedItem store (ge_store ge) j ?M (w_store w)))" by simp
  then show ?thesis using assms(2,3) False
    by (auto simp: claim_step_def on_store_def split: prod.splits sum.splits ClaimOutcome.splits)
qed

lemma claim_step_covers:
  assumes "inv (w_store w)" and "wk_store wk = store" and "claim_step wk j ge w = (g', b, w')"
    and "i < length gs" and "gs ! i = GLoop" and "covered j gs (items (w_store w))" and "\<not> b"
  shows "covered j (gs[i := g']) (items (w_store w'))"
proof (cases "w_ctx w")
  case True
  then show ?thesis using assms by (auto simp: claim_step_def intro!: covered_same)
next
  case False
  let ?M = "wc_MaxItemAttempts (wk_cfg wk)"
  obtain res s' where c: "js_ClaimNextQueuedItem store (ge_store ge) j ?M (w_store w) = (Inr res, s')"
    using assms(2,3,7) False by (auto simp: claim_step_def on_store_def split: prod.splits sum.splits)
  have w': "w_store w' = s'" and out: "(g', b) = (case cr_Outcome res of ClaimNone \<Rightarrow> (GDone, False)
      | ClaimExhausted \<Rightarrow> (GExhausted (the (cr_Item res)), False) | ClaimClaimed \<Rightarrow> (GItem (the (cr_Item res)) [], False))"
    using assms(2,3) False c by (auto simp: claim_step_def on_store_def split: ClaimOutcome.splits)
  note d = inv_distinct [OF assms(1)]
  have "g_item g' = Some (item_ID it) \<or> it \<in> set (items (w_store w)) \<and> g_item (gs ! i) \<noteq> Some (item_ID it)"
    if it: "it \<in> set (items s')" "item_Status it = ItemStatusRunning" for it
  proof (cases "cr_Outcome res")
    case ClaimNone
    from claim_none [OF assms(1) c this] have "items s' = items (w_store w)" .
    then show ?thesis using it assms(5) by auto
  next
    case ClaimClaimed
    from claim_claimed [OF assms(1) c this] obtain x now where "x \<in> set (items (w_store w))"
      "cr_Item res = Some (start_item now x)" "items s' = replace_item (start_item now x) (items (w_store w))" by blast
    then show ?thesis using it out ClaimClaimed assms(5) d by (auto simp: set_replace)
  next
    case ClaimExhausted
    from claim_exhausted [OF assms(1) c this] obtain x now where "x \<in> set (items (w_store w))"
      "items s' = replace_item (exhaust_item now ?M x) (items (w_store w))" by blast
    then show ?thesis using it assms(5) d by (auto simp: set_replace)
  qed
  then show ?thesis using covered_update [OF assms(4,6)] w' by blast
qed

lemma claim_step_drains:
  assumes "inv (w_store w)" and "wk_store wk = store" and "claim_step wk j ge w = (GDone, False, w')"
    and "quiet (ge_store ge)" and "\<not> w_ctx w"
  shows "no_queued j (items (w_store w'))"
proof -
  let ?M = "wc_MaxItemAttempts (wk_cfg wk)"
  obtain res s' where c: "js_ClaimNextQueuedItem store (ge_store ge) j ?M (w_store w) = (Inr res, s')"
    using assms(2,3,5) by (auto simp: claim_step_def on_store_def split: prod.splits sum.splits)
  then have "cr_Outcome res = ClaimNone" "w_store w' = s'"
    using assms(2,3,5) by (auto simp: claim_step_def on_store_def split: ClaimOutcome.splits)
  with claim_none [OF assms(1) c] claim_none_quiet [OF assms(1,4) c] show ?thesis by (simp add: no_queued_def)
qed

lemma finishItem_inv:
  assumes "inv (w_store w)" and "wk_store wk = store" and "finishItem wk ge item st r m w = (res, w')"
  shows "inv (w_store w') \<and> w_ctx w' = w_ctx w"
proof -
  have "fresh (w_store w) (JUpdate (ge_store ge) (item_ID item) st r m)" by (simp add: fresh_other)
  from step_inv [OF assms(1) this]
  have "inv (snd (js_UpdateItemTerminal store (ge_store ge) (item_ID item) st r m (w_store w)))" by simp
  then show ?thesis using assms(2,3)
    by (auto simp: finishItem_def on_store_def split: prod.splits sum.splits jobs_error.splits)
qed

lemma finishItem_covers:
  assumes "inv (w_store w)" and "wk_store wk = store" and "finishItem wk ge item st r m w = (Inr (), w')"
    and "i < length gs" and "gs ! i = GFinish item st r m" and "covered j gs (items (w_store w))"
  shows "covered j (gs[i := GLoop]) (items (w_store w'))"
proof -
  obtain res s' where u: "js_UpdateItemTerminal store (ge_store ge) (item_ID item) st r m (w_store w) = (res, s')"
    by fastforce
  have w': "w_store w' = s'" and res: "res = Inr () \<or> res = Inl Jobs_ErrNotFound"
    using assms(2,3) u by (auto simp: finishItem_def on_store_def split: sum.splits jobs_error.splits)
  note d = inv_distinct [OF assms(1)]
  have "it \<in> set (items (w_store w)) \<and> item_ID it \<noteq> item_ID item"
    if it: "it \<in> set (items s')" "item_Status it = ItemStatusRunning" for it
    using res
  proof
    assume "res = Inr ()"
    from update_ok [OF assms(1) u [unfolded this]] obtain x now r' where "item_terminal st" "x \<in> set (items (w_store w))"
      "item_ID x = item_ID item" "items s' = replace_item (terminal_item now st r' m x) (items (w_store w))" by blast
    moreover from this it(2) have "it \<noteq> terminal_item now st r' m x" by (auto simp: item_terminal_def)
    ultimately have "x \<in> set (items (w_store w))" "it \<in> set (items (w_store w))" "it \<noteq> x" "item_ID x = item_ID item"
      using it(1) d by (simp_all add: set_replace)
    then show ?thesis using d by (metis distinct_map inj_onD)
  next
    assume "res = Inl Jobs_ErrNotFound"
    from update_missing [OF assms(1) u [unfolded this]] it show ?thesis by auto
  qed
  then show ?thesis using covered_update [OF assms(4,6), of "items (w_store w')" GLoop] assms(5) w' by fastforce
qed

lemma gstep_inv:
  assumes "inv (w_store w)" and "wk_store wk = store" and "gstep wk msg j ge g w = (g', b, w')"
  shows "inv (w_store w') \<and> w_ctx w' = w_ctx w"
proof -
  consider "g = GLoop" | item st r m where "g = GFinish item st r m"
    | "\<forall>item st r m. g \<noteq> GLoop \<and> g \<noteq> GFinish item st r m" by blast
  then show ?thesis
  proof cases
    case 1
    then have "claim_step wk j ge w = (g', b, w')" using assms(3) by simp
    moreover from this have "w_ctx w' = w_ctx w"
      by (auto simp: claim_step_def on_store_def split: if_splits prod.splits sum.splits ClaimOutcome.splits)
    ultimately show ?thesis using claim_step_inv [OF assms(1,2)] by blast
  next
    case 2
    obtain res w1 where f: "finishItem wk ge item st r m w = (res, w1)" by fastforce
    then show ?thesis using finishItem_inv [OF assms(1,2) f] assms(3) 2 by (auto split: sum.splits)
  next
    case 3
    then show ?thesis using gstep_frame [OF assms(3)] assms(1) by simp
  qed
qed

lemma gstep_covers:
  assumes "inv (w_store w)" and "wk_store wk = store" and "gstep wk msg j ge (gs ! i) w = (g', False, w')"
    and "i < length gs" and "covered j gs (items (w_store w))"
  shows "covered j (gs[i := g']) (items (w_store w'))"
proof -
  consider "gs ! i = GLoop" | item st r m where "gs ! i = GFinish item st r m"
    | "\<forall>item st r m. gs ! i \<noteq> GLoop \<and> gs ! i \<noteq> GFinish item st r m" by blast
  then show ?thesis
  proof cases
    case 1
    then show ?thesis using claim_step_covers [where b = False, OF assms(1,2) _ assms(4) 1 assms(5)] assms(3) by simp
  next
    case 2
    obtain res w1 where f: "finishItem wk ge item st r m w = (res, w1)" by fastforce
    then have "res = Inr ()" "w1 = w'" "g' = GLoop" using assms(3) 2 by (auto split: sum.splits)
    then show ?thesis using finishItem_covers [OF assms(1,2) _ assms(4) 2 assms(5)] f by blast
  next
    case 3
    from gstep_frame [OF assms(3) 3] show ?thesis using covered_same [OF assms(4,5)] by auto
  qed
qed

lemma gstep_done_was_claim:
  assumes "gstep wk msg j ge g w = (GDone, False, w')" and "g \<noteq> GDone"
  shows "g = GLoop \<and> claim_step wk j ge w = (GDone, False, w')"
proof -
  have "g = GLoop"
  proof (rule ccontr)
    assume l: "g \<noteq> GLoop"
    have "g \<noteq> GFinish item st r m" for item st r m using assms(1) by (auto split: prod.splits sum.splits)
    then show False using gstep_frame [OF assms(1)] l assms(2) by blast
  qed
  then show ?thesis using assms(1) by simp
qed

lemma pool_step_inv:
  assumes "pool_inv inv items j p" and "wk_store wk = store" and "solo_event inv items quiet j p ev"
  shows "pool_inv inv items j (pool_step wk msg j p ev)"
proof (cases ev)
  case (Others w')
  have f: "filter (\<lambda>it. item_JobID it = j) (items (w_store w')) =
      filter (\<lambda>it. item_JobID it = j) (items (w_store (p_world p)))" using assms(3) Others by simp
  have "covered j gs (items (w_store w')) \<longleftrightarrow> covered j gs (items (w_store (p_world p)))" for gs
    using covered_filter f by metis
  moreover have "no_queued j (items (w_store w')) \<longleftrightarrow> no_queued j (items (w_store (p_world p)))"
    using no_queued_filter f by metis
  ultimately show ?thesis using assms(1,3) Others by (auto simp: pool_inv_def pool_done_def)
next
  case (Sched i ge)
  show ?thesis
  proof (cases "i < length (p_gs p)")
    case False
    then show ?thesis using assms(1) Sched by simp
  next
    case i: True
    let ?w = "p_world p" and ?gs = "p_gs p"
    obtain g' b w' where g: "gstep wk msg j ge (?gs ! i) ?w = (g', b, w')" by (metis prod_cases3)
    have ok: "inv (w_store ?w)" using assms(1) by (simp add: pool_inv_def)
    have p': "pool_step wk msg j p ev = \<lparr>p_gs = ?gs[i := g'], p_broken = p_broken p \<or> b, p_world = w'\<rparr>"
      using Sched i g by simp
    note keep = gstep_inv [OF ok assms(2) g]
    have "covered j (?gs[i := g']) (items (w_store w'))
        \<and> (list_all (\<lambda>g. g = GDone) (?gs[i := g']) \<longrightarrow> no_queued j (items (w_store w')))"
      if nb: "\<not> p_broken p" "\<not> b" "\<not> w_ctx w'"
    proof
      have old: "covered j ?gs (items (w_store ?w))" "pool_done p \<longrightarrow> no_queued j (items (w_store ?w))" "\<not> w_ctx ?w"
        using assms(1) nb keep by (auto simp: pool_inv_def)
      show "covered j (?gs[i := g']) (items (w_store w'))"
        using gstep_covers [OF ok assms(2) _ i old(1)] g nb(2) by simp
      show "list_all (\<lambda>g. g = GDone) (?gs[i := g']) \<longrightarrow> no_queued j (items (w_store w'))"
      proof
        assume "list_all (\<lambda>g. g = GDone) (?gs[i := g'])"
        from pool_done_update [OF i this] have g': "g' = GDone" and oth: "\<forall>k < length ?gs. k \<noteq> i \<longrightarrow> ?gs ! k = GDone" by auto
        show "no_queued j (items (w_store w'))"
        proof (cases "?gs ! i = GDone")
          case True
          then have "pool_done p" using oth i unfolding pool_done_def list_all_length by metis
          then show ?thesis using old(2) g True by simp
        next
          case False
          have "gstep wk msg j ge (?gs ! i) ?w = (GDone, False, w')" using g g' nb(2) by simp
          from gstep_done_was_claim [OF this False]
          have c: "?gs ! i = GLoop" "claim_step wk j ge ?w = (GDone, False, w')" by blast+
          have "\<not> list_ex (\<lambda>k. k \<noteq> i \<and> ?gs ! k = GLoop) [0..<length ?gs]" using oth by (auto simp: list_ex_iff)
          then have "quiet (ge_store ge)" using assms(3) Sched by simp
          then show ?thesis by (rule claim_step_drains [OF ok assms(2) c(2) _ old(3)])
        qed
      qed
    qed
    then show ?thesis using keep unfolding p' pool_inv_def pool_done_def by auto
  qed
qed

lemma pool_run_inv:
  "pool_inv inv items j p \<Longrightarrow> wk_store wk = store \<Longrightarrow> solo inv items quiet wk msg j p evs \<Longrightarrow>
     pool_inv inv items j (foldl (pool_step wk msg j) p evs)"
  by (induction evs arbitrary: p) (simp_all add: pool_step_inv)

text \<open>After the prologue no item of the job is running.\<close>

lemma prologue_pool:
  assumes "inv (w_store w)" and "wk_store wk = store" and "handle_prologue wk he msg w = (Inr j, w1)"
    and "1 \<le> wc_Concurrency (wk_cfg wk)"
  shows "pool_inv inv items j (pool_start wk w1)"
proof -
  obtain s1 s2 n where m: "js_MarkJobRunning store (he_mark he) j (w_store w) = (Inr (), s1)"
    and r: "js_RequeueRunningItems store (he_requeue he) j s1 = (Inr n, s2)" and w1: "w_store w1 = s2"
    using prologue_go [OF assms(3)] assms(2) by auto
  have i1: "inv s1" using step_inv [OF assms(1) fresh_other, of "JMarkRunning (he_mark he) j"] m by simp
  have i2: "inv s2" using step_inv [OF i1 fresh_other, of "JRequeue (he_requeue he) j"] r by simp
  from requeue_ok [OF i1 r] obtain now where
    it: "items s2 = map (\<lambda>it. if item_JobID it = j then requeue_item now it else it) (items s1)" by blast
  have "item_Status x \<noteq> ItemStatusRunning" if "x \<in> set (items s2)" "item_JobID x = j" for x
  proof -
    obtain y where y: "x = (if item_JobID y = j then requeue_item now y else y)" using \<open>x \<in> set (items s2)\<close> unfolding it set_map by (rule imageE)
    then have "x = requeue_item now y" using \<open>item_JobID x = j\<close> by (cases "item_JobID y = j") simp_all
    then show ?thesis by (cases "item_Status y = ItemStatusRunning") (simp_all add: requeue_item_def)
  qed
  then have "covered j gs (items s2)" for gs by (auto simp: covered_def)
  moreover have "\<not> pool_done (pool_start wk w1)"
    using assms(4) by (cases "nat (wc_Concurrency (wk_cfg wk))") (simp_all add: pool_done_def pool_start_def)
  ultimately show ?thesis using i2 w1 by (simp add: pool_inv_def pool_start_def)
qed

lemma aggregate_all_terminal:
  assumes "\<forall>it \<in> set its. item_terminal (item_Status it)"
  shows "job_terminal (AggregateJobStatus (length its) (count_status ItemStatusSucceeded its) (count_status ItemStatusFailed its))"
proof -
  have "count_status ItemStatusSucceeded its + count_status ItemStatusFailed its = length its"
    using assms
  proof (induction its)
    case (Cons it its)
    then show ?case by (cases "item_Status it") (simp_all add: count_status_def item_terminal_def)
  qed (simp add: count_status_def)
  then show ?thesis by (simp add: AggregateJobStatus_def job_terminal_def)
qed

lemma finished_items:
  assumes "pool_inv inv items j p" and "pool_done p" and "\<not> w_ctx (p_world p)" and "\<not> p_broken p"
  shows "\<forall>it \<in> set (items (w_store (p_world p))). item_JobID it = j \<longrightarrow> item_terminal (item_Status it)"
proof (intro ballI impI)
  fix it
  assume it: "it \<in> set (items (w_store (p_world p)))" "item_JobID it = j"
  have "g_item g = None" if "g \<in> set (p_gs p)" for g using assms(2) that by (auto simp: pool_done_def list_all_iff)
  then have "Some (item_ID it) \<notin> set (map g_item (p_gs p))" by auto
  then have "item_Status it \<noteq> ItemStatusRunning" using assms it by (auto simp: pool_inv_def covered_def)
  moreover have "item_Status it \<noteq> ItemStatusQueued" using assms it by (auto simp: pool_inv_def no_queued_def)
  ultimately show "item_terminal (item_Status it)" by (cases "item_Status it") (simp_all add: item_terminal_def)
qed

lemma finished_job:
  assumes "inv s" and "\<forall>it \<in> set (items s). item_JobID it = j \<longrightarrow> item_terminal (item_Status it)"
    and "js_RecomputeAndUpdateJobStatus store e j s = (r, s')" and "r = Inl Jobs_ErrNotFound \<or> (\<exists>jst. r = Inr jst)"
  shows "(\<forall>job \<in> set (jobs s'). job_ID job \<noteq> j)
     \<or> (\<forall>it \<in> set (items s'). item_JobID it = j \<longrightarrow> item_terminal (item_Status it))
        \<and> (\<exists>job \<in> set (jobs s'). job_ID job = j \<and> job_terminal (job_Status job))"
  using assms(4)
proof
  assume "r = Inl Jobs_ErrNotFound"
  then show ?thesis using recompute_missing assms(3) by blast
next
  assume "\<exists>jst. r = Inr jst"
  then obtain jst where r: "js_RecomputeAndUpdateJobStatus store e j s = (Inr jst, s')" using assms(3) by auto
  have "job_terminal jst" using recompute_ok [OF assms(1) r] aggregate_all_terminal [of "filter (\<lambda>it. item_JobID it = j) (items s)"] assms(2)
    by simp
  then show ?thesis using recompute_ok [OF assms(1) r] assms(2) by auto
qed

text \<open>
  A pass that returns without an error has finished the job: all its items are terminal, and the job
  row carries the terminal aggregate of their outcomes, unless the store says the job is gone.
\<close>

lemma handle_acked:
  assumes "inv (w_store w)" and "wk_store wk = store" and "1 \<le> wc_Concurrency (wk_cfg wk)"
    and "msg_ID msg \<notin> set (w_inflight w)" and "uuid_Parse (wk_lib wk) (msg_JobID msg) = Inr j"
    and "\<And>w1. handle_prologue wk he msg (snd (markInFlight (msg_ID msg) w)) = (Inr j, w1) \<Longrightarrow>
      solo inv items quiet wk msg j (pool_start wk w1) sched"
    and "handleMessage wk he sched msg w = Some (Inr (), w')"
  shows "(\<forall>job \<in> set (jobs (w_store w')). job_ID job \<noteq> j)
     \<or> (\<forall>it \<in> set (items (w_store w')). item_JobID it = j \<longrightarrow> item_terminal (item_Status it))
        \<and> (\<exists>job \<in> set (jobs (w_store w')). job_ID job = j \<and> job_terminal (job_Status job))"
proof -
  let ?w0 = "w\<lparr>w_inflight := w_inflight w @ [msg_ID msg]\<rparr>"
  have mf: "markInFlight (msg_ID msg) w = (True, ?w0)" using assms(4) by (simp add: markInFlight_def)
  obtain res w1 where pr: "handle_prologue wk he msg ?w0 = (res, w1)" by fastforce
  show ?thesis
  proof (cases rule: prologue_cases [OF assms(5) pr])
    case 1
    then have m: "js_MarkJobRunning store (he_mark he) j (w_store w) = (Inl Jobs_ErrNotFound, w_store w)"
      using assms(2) mark_missing by (cases "js_MarkJobRunning store (he_mark he) j (w_store w)") force
    then have "handle_prologue wk he msg ?w0 = (Inl (fst (dropMissingJob wk he msg j ?w0)), snd (dropMissingJob wk he msg j ?w0))"
      using assms(2,5) by (simp add: handle_prologue_def on_store_def split: prod.splits)
    then have "w_store w' = w_store w"
      using assms(7) mf by (auto simp: handleMessage_def dropMissingJob_def dlq_and_ack_store)
    then show ?thesis using mark_missing [OF m] by simp
  next
    case (2 op err)
    then show ?thesis using assms(7) mf pr by (simp add: handleMessage_def)
  next
    case 3
    let ?p = "foldl (pool_step wk msg j) (pool_start wk w1) sched"
    have pr': "handle_prologue wk he msg ?w0 = (Inr j, w1)" using pr 3 by simp
    have inv0: "inv (w_store ?w0)" using assms(1) by simp
    have "solo inv items quiet wk msg j (pool_start wk w1) sched" using assms(6) mf pr' by simp
    from pool_run_inv [OF prologue_pool [OF inv0 assms(2) pr' assms(3)] assms(2) this]
    have pinv: "pool_inv inv items j ?p" .
    obtain w2 where ep: "handle_epilogue wk he msg j ?p = (Inr (), w2)" "w_store w' = w_store w2" "pool_done ?p"
      using assms(7) mf pr' by (auto simp: handleMessage_def Let_def split: if_splits prod.splits)
    from epilogue_ok [OF ep(1)] obtain r where live: "\<not> w_ctx (p_world ?p)" "\<not> p_broken ?p"
      and r: "js_RecomputeAndUpdateJobStatus store (he_recompute he) j (w_store (p_world ?p)) = (r, w_store w')"
        "r = Inl Jobs_ErrNotFound \<or> (\<exists>jst. r = Inr jst)"
      using assms(2) ep(2) by auto
    have t: "\<forall>it \<in> set (items (w_store (p_world ?p))). item_JobID it = j \<longrightarrow> item_terminal (item_Status it)"
      by (rule finished_items [OF pinv ep(3) live])
    have "inv (w_store (p_world ?p))" using pinv by (simp add: pool_inv_def)
    from finished_job [OF this t r] show ?thesis .
  qed
qed

end

subsection \<open>Properties of a pass over a job\<close>

lemma New_Concurrency: "1 \<le> wc_Concurrency (wk_cfg (New deps cfg))"
  by (simp add: New_def Let_def)

text \<open>C2: An acknowledged job is a finished job. When the handler of a message returns without an error,
  for a pool of any size under any interleaving of its goroutines with any answers of the database, the
  backends and the queue, and nobody else works on the same job meanwhile, then either the job row no
  longer exists, or every item of the job is terminal and the job row shows a terminal status.\<close>

theorem ack_means_job_finished:
  assumes "repo_inv (w_store w)" and "wk = New deps cfg" and "wk_store wk = JobRepo pg coll"
    and "msg_ID msg \<notin> set (w_inflight w)" and "uuid_Parse (wk_lib wk) (msg_JobID msg) = Inr j"
    and "\<And>w1. handle_prologue wk he msg (snd (markInFlight (msg_ID msg) w)) = (Inr j, w1) \<Longrightarrow>
      solo repo_inv t_items (\<lambda>e. re_locked e = []) wk msg j (pool_start wk w1) sched"
    and "handleMessage wk he sched msg w = Some (Inr (), w')"
  shows "(\<forall>job \<in> set (t_jobs (w_store w')). job_ID job \<noteq> j)
     \<or> (\<forall>it \<in> set (t_items (w_store w')). item_JobID it = j \<longrightarrow> item_terminal (item_Status it))
        \<and> (\<exists>job \<in> set (t_jobs (w_store w')). job_ID job = j \<and> job_terminal (job_Status job))"
  using repo.handle_acked [OF assms(1,3) _ assms(4-7)] New_Concurrency assms(2) by metis

definition sample_lib :: go_lib where
  "sample_lib = \<lparr>uuid_Parse = (\<lambda>s. if s = ''j'' then Inr 100 else Inl ''invalid UUID''), uuid_String = (\<lambda>_. ''j''),
     json_value = (\<lambda>_. Some (JObj [(''model'', JStr ''m'')])), quote = (\<lambda>s. s),
     select_error_text = (\<lambda>_. ''e''), go_error_text = (\<lambda>_. ''e'')\<rparr>"

definition sample_worker :: "(repo_env, job_tables, time, MemQueue, unit, unit) Worker" where
  "sample_worker = New \<lparr>wk_queue = MemJobQueue, wk_store = sample_repo, wk_intn = zero_intn, wk_int63n = zero_int63n,
     wk_client = Inference.New sample_config, wk_lib = sample_lib,
     wk_cfg = \<lparr>wc_Concurrency = 0, wc_MaxItemAttempts = 0, wc_ReclaimMinIdle = 0, wc_ReclaimInterval = 0,
       wc_OutboxInterval = 0, wc_OutboxBatch = 0\<rparr>\<rparr>
     \<lparr>wc_Concurrency = 2, wc_MaxItemAttempts = 3, wc_ReclaimMinIdle = 0, wc_ReclaimInterval = 0,
       wc_OutboxInterval = 0, wc_OutboxBatch = 0\<rparr>"

definition sample_world :: "job_tables \<Rightarrow> (job_tables, MemQueue, unit) world" where
  "sample_world t = \<lparr>w_store = t, w_queue = NewMemQueue, w_sel = NewSelector True (), w_br = sample_breaker,
     w_inflight = [], w_ctx = False, WorkerFailuresTotal = 0, BatchItemsProcessedTotal = (\<lambda>_. 0)\<rparr>"

definition sample_ge :: "(repo_env, time, unit) genv" where
  "sample_ge = \<lparr>ge_store = sample_repo_env 7, ge_queue = 0, ge_policies = sample_policies, ge_backends = sample_backends,
     ge_clk = (\<lambda>_. 5), ge_now = 6, ge_attempts = (\<lambda>_. \<lparr>env_Sleep = None, env_NewRequest = None,
       env_Do = Inr \<lparr>up_Status = 200, up_Bytes = ''{}'', up_ReadErr = None, up_CloseErr = None\<rparr>, env_CtxErr = None,
       env_CtxErrAfter = None, env_Elapsed = 1\<rparr>), ge_rng = (), ge_panic = False\<rparr>"

definition sample_henv :: "(repo_env, time) henv" where
  "sample_henv = \<lparr>he_mark = sample_repo_env 6, he_requeue = sample_repo_env 6, he_recompute = sample_repo_env 9,
     he_dlq = 0, he_ack = 0\<rparr>"

definition sample_msg :: Message where
  "sample_msg = \<lparr>msg_ID = ''mem-1'', msg_JobID = ''j''\<rparr>"

text \<open>A redelivered message: the job's only item was finished by an earlier pass, the job row not yet updated.\<close>

definition sample_tables :: "ItemStatus \<Rightarrow> job_tables" where
  "sample_tables st = \<lparr>t_jobs = [sample_job\<lparr>job_ID := 100\<rparr>],
     t_items = [(sample_item ''a'')\<lparr>item_ID := 101, item_JobID := 100, item_Status := st\<rparr>], t_outbox = []\<rparr>"

lemma sample_tables_inv: "repo_inv (sample_tables st)"
  by (simp add: repo_inv_def sample_tables_def)

definition sample_sched :: "(repo_env, job_tables, time, MemQueue, unit, unit) pool_event list" where
  "sample_sched = map (\<lambda>i. Sched i sample_ge) [0, 1]"

lemma sample_solo:
  assumes "handle_prologue sample_worker sample_henv sample_msg (snd (markInFlight ''mem-1'' (sample_world (sample_tables ItemStatusFailed)))) = (Inr 100, w1)"
  shows "solo repo_inv t_items (\<lambda>e. re_locked e = []) sample_worker sample_msg 100 (pool_start sample_worker w1) sample_sched"
proof -
  have q: "re_locked (ge_store sample_ge) = []" by (simp add: sample_ge_def sample_repo_env_def)
  have "solo ok its (\<lambda>e. re_locked e = []) wk msg j p (map (\<lambda>i. Sched i sample_ge) is)" for ok its wk msg j p "is"
    by (induction "is" arbitrary: p) (simp_all add: q del: pool_step.simps)
  then show ?thesis unfolding sample_sched_def .
qed

lemma returned_ok: "(case x of Some (Inr _, w) \<Rightarrow> P w | _ \<Rightarrow> False) \<Longrightarrow> \<exists>w. x = Some (Inr (), w) \<and> P w"
proof (cases x)
  case (Some p)
  moreover assume "case x of Some (Inr _, w) \<Rightarrow> P w | _ \<Rightarrow> False"
  ultimately show ?thesis by (cases p; cases "fst p") simp_all
qed simp

lemma sample_pass:
  "\<exists>w'. handleMessage sample_worker sample_henv sample_sched sample_msg (sample_world (sample_tables ItemStatusFailed)) = Some (Inr (), w')
     \<and> t_jobs (w_store w') \<noteq> [] \<and> job_ID (hd (t_jobs (w_store w'))) = 100"
proof -
  have "case handleMessage sample_worker sample_henv sample_sched sample_msg (sample_world (sample_tables ItemStatusFailed)) of
      Some (Inr _, w') \<Rightarrow> t_jobs (w_store w') \<noteq> [] \<and> job_ID (hd (t_jobs (w_store w'))) = 100 | _ \<Rightarrow> False" by code_simp
  from returned_ok [OF this] show ?thesis .
qed

theorem ack_means_job_finished_witness:
  "\<exists>w'. handleMessage sample_worker sample_henv sample_sched sample_msg (sample_world (sample_tables ItemStatusFailed)) = Some (Inr (), w')
     \<and> (\<exists>job. job \<in> set (t_jobs (w_store w')) \<and> job_ID job = 100 \<and> job_terminal (job_Status job))
     \<and> (\<nexists>it. it \<in> set (t_items (w_store w')) \<and> item_JobID it = 100 \<and> \<not> item_terminal (item_Status it))"
proof -
  obtain w' where w': "handleMessage sample_worker sample_henv sample_sched sample_msg (sample_world (sample_tables ItemStatusFailed)) = Some (Inr (), w')"
    and row: "hd (t_jobs (w_store w')) \<in> set (t_jobs (w_store w'))" "job_ID (hd (t_jobs (w_store w'))) = 100"
    using sample_pass by auto
  have "(\<forall>job \<in> set (t_jobs (w_store w')). job_ID job \<noteq> 100)
     \<or> (\<forall>it \<in> set (t_items (w_store w')). item_JobID it = 100 \<longrightarrow> item_terminal (item_Status it))
        \<and> (\<exists>job \<in> set (t_jobs (w_store w')). job_ID job = 100 \<and> job_terminal (job_Status job))"
  proof (rule ack_means_job_finished [OF _ sample_worker_def _ _ _ _ w'])
    show "repo_inv (w_store (sample_world (sample_tables ItemStatusFailed)))" using sample_tables_inv by (simp add: sample_world_def)
    show "wk_store sample_worker = sample_repo" by (simp add: sample_worker_def New_def Let_def)
    show "msg_ID sample_msg \<notin> set (w_inflight (sample_world (sample_tables ItemStatusFailed)))" by (simp add: sample_world_def)
    show "uuid_Parse (wk_lib sample_worker) (msg_JobID sample_msg) = Inr 100"
      by (simp add: sample_worker_def New_def Let_def sample_lib_def sample_msg_def)
    show "solo repo_inv t_items (\<lambda>e. re_locked e = []) sample_worker sample_msg 100 (pool_start sample_worker w1) sample_sched"
      if "handle_prologue sample_worker sample_henv sample_msg
        (snd (markInFlight (msg_ID sample_msg) (sample_world (sample_tables ItemStatusFailed)))) = (Inr 100, w1)" for w1
      using sample_solo that by (simp add: sample_msg_def)
  qed
  then show ?thesis using w' row by blast
qed


subsection \<open>Slots and circuit reports\<close>

text \<open>One backend call of a batch item takes three steps of its goroutine (call, report, release), with
  anything happening in between. Whatever the call did (answered, failed, was cancelled or panicked), the
  report step changes the circuit breaker by exactly one report on the called backend, success for an answer
  or a permanent error, failure for a transient one, canceled when the context ended or the call panicked,
  and the release step runs the release closure of the slot; only a transient failure asks for failover.\<close>

theorem callBackend_reports_and_releases:
  assumes "gstep wk msg j ge (GCall item tried sel h) w = (g1, b1, w1)"
    and "gstep wk msg j ge2 g1 w2 = (g3, b3, w3)" and "gstep wk msg j ge4 g3 w4 = (g5, b5, w5)"
  shows "w1 = w \<and> w_sel w3 = w_sel w2 \<and> w_br w5 = w_br w4 \<and> w_sel w5 = release_call h (w_sel w4)
     \<and> (\<exists>ev. w_br w3 = breaker_step (w_br w2) ev \<and> is_report ev \<and> event_backend ev = mb_Name (sel_Backend sel)
          \<and> (case call_step wk ge sel of
               DoPanicked \<Rightarrow> ev = EvCanceled (mb_Name (sel_Backend sel)) \<and> g5 = GDone \<and> b5
             | DoReturned (resp, None) \<Rightarrow> ev = EvSuccess (mb_Name (sel_Backend sel)) \<and> g5 = GCalled item tried (resp, None) False
             | DoReturned (resp, Some err) \<Rightarrow> g5 = GCalled item tried (None, Some err) (err_Transient err \<and> \<not> w_ctx w2)
                 \<and> (if w_ctx w2 then ev = EvCanceled (mb_Name (sel_Backend sel))
                    else if err_Transient err then ev = EvFailure (ge_now ge2) (mb_Name (sel_Backend sel))
                    else ev = EvSuccess (mb_Name (sel_Backend sel)))))"
proof -
  let ?n = "mb_Name (sel_Backend sel)"
  have g1: "g1 = GReport item tried sel h (call_step wk ge sel)" "w1 = w" using assms(1) by auto
  show ?thesis
  proof (cases "call_step wk ge sel")
    case DoPanicked
    then show ?thesis using assms(2,3) g1
      by (auto simp: report_step_def Let_def worker_failure_def intro!: exI [of _ "EvCanceled ?n"])
  next
    case (DoReturned res)
    obtain resp err where res: "res = (resp, err)" by fastforce
    show ?thesis
    proof (cases err)
      case None
      then show ?thesis using assms(2,3) g1 DoReturned res
        by (auto simp: report_step_def Let_def intro!: exI [of _ "EvSuccess ?n"])
    next
      case (Some e)
      let ?ev = "if w_ctx w2 then EvCanceled ?n else if err_Transient e then EvFailure (ge_now ge2) ?n else EvSuccess ?n"
      show ?thesis using assms(2,3) g1 DoReturned res Some
        by (intro conjI exI [of _ ?ev]) (auto simp: report_step_def Let_def IsTransient_def split: if_splits)
    qed
  qed
qed

theorem callBackend_reports_and_releases_witness:
  "\<exists>(w3 :: (job_tables, MemQueue, unit) world) (w5 :: (job_tables, MemQueue, unit) world). w_br w3 = ReportCanceled (mb_Name (sel_Backend sample_selection)) sample_breaker
     \<and> w_sel w3 = NewSelector True () \<and> w_sel w5 = release_call 0 (w_sel w3)"
proof -
  let ?ge = "sample_ge\<lparr>ge_panic := True\<rparr>"
  let ?g = "\<lambda>g w. gstep sample_worker sample_msg 100 ?ge g w"
  obtain g1 b1 w1 g3 b3 w3 g5 b5 w5 where s:
    "?g (GCall (sample_item ''a'') [2] sample_selection 0) (sample_world no_tables) = (g1, b1, w1)"
    "?g g1 w1 = (g3, b3, w3)" "?g g3 w3 = (g5, b5, w5)" by (metis prod_cases3)
  have p: "call_step sample_worker ?ge sample_selection = DoPanicked" by (simp add: call_step_def)
  have "w_br (sample_world no_tables) = sample_breaker" "w_sel (sample_world no_tables) = NewSelector True ()"
    by (simp_all add: sample_world_def)
  with callBackend_reports_and_releases [OF s]
  have "w_br w3 = ReportCanceled (mb_Name (sel_Backend sample_selection)) sample_breaker
     \<and> w_sel w3 = NewSelector True () \<and> w_sel w5 = release_call 0 (w_sel w3)" unfolding p by auto
  then show ?thesis by blast
qed

subsection \<open>The outbox drain\<close>

text \<open>Every published outbox row has its message in the queue's history; row ids determine job ids.\<close>

definition enqueued :: "go_lib \<Rightarrow> job_tables \<Rightarrow> MemQueue \<Rightarrow> bool" where
  [inv_defs]: "enqueued lib t q \<longleftrightarrow> (\<forall>ob \<in> set (t_outbox t). ob_Status ob = OutboxStatusPublished
      \<longrightarrow> uuid_String lib (ob_JobID ob) \<in> set (mq_published q))"

definition row_ids :: "BatchJobOutbox \<Rightarrow> uuid \<times> uuid" where
  "row_ids ob = (ob_ID ob, ob_JobID ob)"

lemma exec_sql_mark:
  assumes "x \<in> set (t_outbox (snd (exec_sql fl (mark_outbox_sql i f) t)))"
  shows "\<exists>y \<in> set (t_outbox t). x = y \<or> ob_ID y = i \<and> x = f y"
proof (cases "snd (exec_sql fl (mark_outbox_sql i f) t) = t")
  case False
  then have "x \<in> set (t_outbox (snd (mark_outbox_sql i f t)))"
    using exec_sql_snd [of fl "mark_outbox_sql i f" t] assms by metis
  then obtain y where y: "y \<in> set (t_outbox t)" "x = (if ob_ID y = i \<and> ob_Status y = OutboxStatusPending then f y else y)"
    unfolding mark_outbox_sql_def by auto
  then show ?thesis by (intro bexI [OF _ y(1)]) (simp split: if_splits)
qed (use assms in auto)

lemma mark_published_rows:
  assumes "x \<in> set (t_outbox (snd (repo_MarkOutboxPublished e i t)))"
  shows "\<exists>y \<in> set (t_outbox t). row_ids x = row_ids y \<and> (ob_Status x = ob_Status y \<or> ob_ID y = i)"
proof -
  from exec_sql_mark [OF assms [unfolded repo_snd_outbox]] obtain y where
    "y \<in> set (t_outbox t)" "x = y \<or> ob_ID y = i \<and> x = y\<lparr>ob_Status := OutboxStatusPublished,
       ob_PublishedAt := Some (re_now e), ob_UpdatedAt := re_now e\<rparr>" by blast
  then show ?thesis by (intro bexI [of _ y]) (auto simp: row_ids_def)
qed

lemma mark_failed_rows:
  assumes "x \<in> set (t_outbox (snd (repo_MarkOutboxFailedAttempt e i m t)))"
  shows "\<exists>y \<in> set (t_outbox t). row_ids x = row_ids y \<and> ob_Status x = ob_Status y"
proof -
  from exec_sql_mark [OF assms [unfolded repo_snd_outbox]] obtain y where
    "y \<in> set (t_outbox t)" "x = y \<or> ob_ID y = i \<and> x = y\<lparr>ob_Attempts := ob_Attempts y + 1,
       ob_LastError := Some m, ob_UpdatedAt := re_now e\<rparr>" by blast
  then show ?thesis by (intro bexI [of _ y]) (auto simp: row_ids_def)
qed

text \<open>Rows keep their ids, so what a remaining row says about job ids stays true.\<close>

lemma rows_keep_ids:
  assumes "\<And>x. x \<in> set t' \<Longrightarrow> \<exists>y \<in> set t. row_ids x = row_ids y"
    and "\<forall>ob \<in> set obs. \<forall>x \<in> set t. ob_ID x = ob_ID ob \<longrightarrow> ob_JobID x = ob_JobID ob"
  shows "\<forall>ob \<in> set obs. \<forall>x \<in> set t'. ob_ID x = ob_ID ob \<longrightarrow> ob_JobID x = ob_JobID ob"
proof (intro ballI impI)
  fix ob x
  assume "ob \<in> set obs" "x \<in> set t'" "ob_ID x = ob_ID ob"
  moreover from assms(1) [OF \<open>x \<in> set t'\<close>] obtain y where "y \<in> set t" "row_ids x = row_ids y" by blast
  ultimately show "ob_JobID x = ob_JobID ob" using assms(2) by (simp add: row_ids_def)
qed

lemma memq_publish_history:
  "set (mq_published q) \<subseteq> set (mq_published (snd (memq_Publish now j q)))"
  "memq_Publish now j q = (Inr (), q') \<Longrightarrow> set (mq_published q') = insert j (set (mq_published q))"
  by (auto simp: memq_Publish_def split: option.splits)

lemma drain_loop_enqueued:
  assumes "wk_store wk = JobRepo pg coll" and "wk_queue wk = MemJobQueue"
    and "enqueued (wk_lib wk) (w_store w) (w_queue w)"
    and "\<forall>ob \<in> set obs. \<forall>x \<in> set (t_outbox (w_store w)). ob_ID x = ob_ID ob \<longrightarrow> ob_JobID x = ob_JobID ob"
  shows "enqueued (wk_lib wk) (w_store (drain_loop wk envs obs w)) (w_queue (drain_loop wk envs obs w))"
  using assms(3,4)
proof (induction obs arbitrary: w)
  case (Cons ob obs)
  show ?case
  proof (cases "w_ctx w")
    case False
    obtain qe e where env: "envs (ob_ID ob) = (qe, e)" by fastforce
    let ?j = "uuid_String (wk_lib wk) (ob_JobID ob)"
    obtain res q' where p: "memq_Publish qe ?j (w_queue w) = (res, q')" by fastforce
    have hist: "set (mq_published (w_queue w)) \<subseteq> set (mq_published q')" using memq_publish_history(1) p by (metis snd_conv)
    show ?thesis
    proof (cases res)
      case (Inl err)
      let ?t = "snd (repo_MarkOutboxFailedAttempt e (ob_ID ob) err (w_store w))"
      have "enqueued (wk_lib wk) ?t q'"
        unfolding enqueued_def
      proof (intro ballI impI)
        fix x
        assume x: "x \<in> set (t_outbox ?t)" "ob_Status x = OutboxStatusPublished"
        from mark_failed_rows [OF x(1)] obtain y where y: "y \<in> set (t_outbox (w_store w))" "row_ids x = row_ids y"
          "ob_Status x = ob_Status y" by blast
        then show "uuid_String (wk_lib wk) (ob_JobID x) \<in> set (mq_published q')"
          using x(2) Cons.prems(1) hist by (auto simp: enqueued_def row_ids_def)
      qed
      moreover have "\<forall>ob' \<in> set obs. \<forall>x \<in> set (t_outbox ?t). ob_ID x = ob_ID ob' \<longrightarrow> ob_JobID x = ob_JobID ob'"
        by (rule rows_keep_ids [of _ "t_outbox (w_store w)"]) (use mark_failed_rows Cons.prems(2) in \<open>blast, simp\<close>)
      moreover have "drain_loop wk envs (ob # obs) w = drain_loop wk envs obs ((worker_failure (w\<lparr>w_queue := q'\<rparr>))\<lparr>w_store := ?t\<rparr>)"
        using False env p Inl assms(1,2) by (simp add: on_queue_def on_store_def MemJobQueue_def JobRepo_def case_prod_unfold)
      ultimately show ?thesis using Cons.IH [of "(worker_failure (w\<lparr>w_queue := q'\<rparr>))\<lparr>w_store := ?t\<rparr>"] by simp
    next
      case (Inr u)
      let ?t = "snd (repo_MarkOutboxPublished e (ob_ID ob) (w_store w))"
      have now: "set (mq_published q') = insert ?j (set (mq_published (w_queue w)))"
        using memq_publish_history(2) p Inr by simp
      have "enqueued (wk_lib wk) ?t q'"
        unfolding enqueued_def
      proof (intro ballI impI)
        fix x
        assume x: "x \<in> set (t_outbox ?t)" "ob_Status x = OutboxStatusPublished"
        from mark_published_rows [OF x(1)] obtain y where y: "y \<in> set (t_outbox (w_store w))" "row_ids x = row_ids y"
          "ob_Status x = ob_Status y \<or> ob_ID y = ob_ID ob" by blast
        have j: "ob_JobID x = ob_JobID y" using y(2) by (simp add: row_ids_def)
        from y(3) show "uuid_String (wk_lib wk) (ob_JobID x) \<in> set (mq_published q')"
        proof
          assume "ob_Status x = ob_Status y"
          then show ?thesis using Cons.prems(1) y(1) x(2) j now by (simp add: enqueued_def)
        next
          assume "ob_ID y = ob_ID ob"
          then have "ob_JobID y = ob_JobID ob" using Cons.prems(2) y(1) by simp
          then show ?thesis using j now by simp
        qed
      qed
      moreover have "\<forall>ob' \<in> set obs. \<forall>x \<in> set (t_outbox ?t). ob_ID x = ob_ID ob' \<longrightarrow> ob_JobID x = ob_JobID ob'"
        by (rule rows_keep_ids [of _ "t_outbox (w_store w)"]) (use mark_published_rows Cons.prems(2) in \<open>blast, simp\<close>)
      moreover have "drain_loop wk envs (ob # obs) w = drain_loop wk envs obs (w\<lparr>w_queue := q', w_store := ?t\<rparr>)"
        using False env p Inr assms(1,2) by (simp add: on_queue_def on_store_def MemJobQueue_def JobRepo_def case_prod_unfold)
      ultimately show ?thesis using Cons.IH [of "w\<lparr>w_queue := q', w_store := ?t\<rparr>"] by simp
    qed
  qed (use Cons.prems in simp)
qed simp

lemma drain_enqueued:
  assumes "wk_store wk = JobRepo pg coll" and "wk_queue wk = MemJobQueue" and "outbox_inv (w_store w)"
    and "enqueued (wk_lib wk) (w_store w) (w_queue w)" and "drainOutboxOnce wk e envs w = w'"
  shows "enqueued (wk_lib wk) (w_store w') (w_queue w')"
proof (cases "repo_PendingOutbox e (wc_OutboxBatch (wk_cfg wk)) (w_store w)")
  case (Inl err)
  then show ?thesis using assms by (auto simp: drainOutboxOnce_def JobRepo_def)
next
  case (Inr rows)
  have rows: "set rows \<subseteq> set (t_outbox (w_store w))"
    using Inr by (cases "re_fault e") (auto simp: repo_PendingOutbox_def dest: in_set_takeD split: if_splits)
  have "distinct (map ob_ID (t_outbox (w_store w)))" using assms(3) by (simp add: outbox_inv_def)
  then have "\<forall>ob \<in> set rows. \<forall>x \<in> set (t_outbox (w_store w)). ob_ID x = ob_ID ob \<longrightarrow> ob_JobID x = ob_JobID ob"
    using rows by (auto simp: distinct_map inj_on_def)
  from drain_loop_enqueued [OF assms(1,2,4) this] show ?thesis
    using assms(1,5) Inr by (auto simp: drainOutboxOnce_def JobRepo_def)
qed

text \<open>The outbox never forgets a job: a drain pass marks a row published only after the queue accepted its
  message, whatever fails on the way. If every published row had its job's message published before the
  pass, the same holds after it.\<close>

theorem drain_marks_only_published:
  assumes "wk_store wk = JobRepo pg coll" and "wk_queue wk = MemJobQueue" and "outbox_inv (w_store w)"
    and "enqueued (wk_lib wk) (w_store w) (w_queue w)" and "drainOutboxOnce wk e envs w = w'"
  shows "enqueued (wk_lib wk) (w_store w') (w_queue w')"
  by (rule drain_enqueued [OF assms])

definition sample_outbox_tables :: job_tables where
  "sample_outbox_tables = no_tables\<lparr>t_jobs := [sample_job\<lparr>job_ID := 100\<rparr>], t_outbox := [\<lparr>ob_ID = 1, ob_JobID = 100,
     ob_Status = OutboxStatusPending, ob_Attempts = 0, ob_LastError = None, ob_PublishedAt = None, ob_CreatedAt = 0,
     ob_UpdatedAt = 0\<rparr>]\<rparr>"

theorem drain_marks_only_published_witness:
  "enqueued sample_lib (w_store (drainOutboxOnce sample_worker (sample_repo_env 9) (\<lambda>_. (0, sample_repo_env 9))
       (sample_world sample_outbox_tables)))
     (w_queue (drainOutboxOnce sample_worker (sample_repo_env 9) (\<lambda>_. (0, sample_repo_env 9)) (sample_world sample_outbox_tables)))"
proof -
  have "wk_store sample_worker = sample_repo" "wk_queue sample_worker = MemJobQueue" "wk_lib sample_worker = sample_lib"
    by (simp_all add: sample_worker_def New_def Let_def)
  moreover have "outbox_inv (w_store (sample_world sample_outbox_tables))"
    by (simp add: sample_world_def sample_outbox_tables_def outbox_inv_def no_tables_def)
  moreover have "enqueued sample_lib (w_store (sample_world sample_outbox_tables)) (w_queue (sample_world sample_outbox_tables))"
    by (simp add: enqueued_def sample_world_def sample_outbox_tables_def no_tables_def OutboxStatusPending_def OutboxStatusPublished_def)
  ultimately show ?thesis using drain_marks_only_published [where wk = sample_worker and w = "sample_world sample_outbox_tables"] by metis
qed

end
