(* ===== verification/Batch_System.thy ===== *)
theory Batch_System
  imports Batch Worker
begin

section \<open>Gateway, outbox and worker together\<close>

text \<open>
  Create requests of the gateway, the worker's outbox drain and everything else that touches the job tables
  and the queue, interleaved in any order over one Postgres and one queue. A step of a request is a step of
  \<open>createBatchJob\<close>; a drain pass is \<open>drainOutboxOnce\<close>.
\<close>

subsection \<open>Executions\<close>

record ('s, 'c, 'l, 'r) batch_system =
  bs_requests :: "(chat_http \<times> batch_pc) list"
  bs_world :: "('s, 'c, 'l, 'r, job_tables, MemQueue) batch_world"

datatype ('e, 'r) system_event =
    Request nat "('e, repo_env, time) batch_env"
  | Drain repo_env "uuid \<Rightarrow> time \<times> repo_env" "(job_tables, MemQueue, 'r) world"
  | QueueOp "time queue_event"
  | StoreOp "repo_env job_event"

fun system_step ::
  "('e, 's, 'c, 'l, 'r, 'x, repo_env, job_tables, time, MemQueue) batch_deps \<Rightarrow> (repo_env, job_tables, time, MemQueue, 'wr, 'wx) Worker
     \<Rightarrow> ('s, 'c, 'l, 'r) batch_system \<Rightarrow> ('e, 'wr) system_event \<Rightarrow> ('s, 'c, 'l, 'r) batch_system" where
  "system_step bd wk s (Request i ev) =
     (if i < length (bs_requests s)
      then case bs_requests s ! i of (q, pc) \<Rightarrow>
             (case createBatchJob bd q ev pc (bs_world s) of (pc', b) \<Rightarrow> \<lparr>bs_requests = (bs_requests s)[i := (q, pc')], bs_world = b\<rparr>)
      else s)"
| "system_step bd wk s (Drain e envs w) =
     (let w' = drainOutboxOnce wk e envs (w\<lparr>w_store := bw_jobs (bs_world s), w_queue := bw_queue (bs_world s)\<rparr>)
      in s\<lparr>bs_world := (bs_world s)\<lparr>bw_jobs := w_store w', bw_queue := w_queue w'\<rparr>\<rparr>)"
| "system_step bd wk s (QueueOp ev) = s\<lparr>bs_world := (bs_world s)\<lparr>bw_queue := queue_step (bd_JobQueue bd) (bw_queue (bs_world s)) ev\<rparr>\<rparr>"
| "system_step bd wk s (StoreOp ev) = s\<lparr>bs_world := (bs_world s)\<lparr>bw_jobs := job_step (bd_Jobs bd) (bw_jobs (bs_world s)) ev\<rparr>\<rparr>"

text \<open>Apart from requests and drain passes nothing marks an outbox row published.\<close>

fun outside :: "('e, 'r) system_event \<Rightarrow> bool" where
  "outside (StoreOp (JOutboxPublished e i)) \<longleftrightarrow> False"
| "outside _ \<longleftrightarrow> True"

subsection \<open>Outbox rows over store operations\<close>

text \<open>Rows keep their ids and are not removed; a row is published only if it was, and otherwise pending.\<close>

definition rows_kept :: "job_tables \<Rightarrow> job_tables \<Rightarrow> bool" where
  "rows_kept t t' \<longleftrightarrow> (\<forall>x \<in> set (t_outbox t). \<exists>y \<in> set (t_outbox t'). row_ids y = row_ids x)
     \<and> job_ID ` set (t_jobs t) \<subseteq> job_ID ` set (t_jobs t')"

definition rows_from :: "job_tables \<Rightarrow> job_tables \<Rightarrow> bool" where
  "rows_from t t' \<longleftrightarrow> (\<forall>x \<in> set (t_outbox t'). ob_Status x = OutboxStatusPending
     \<or> (\<exists>y \<in> set (t_outbox t). row_ids y = row_ids x \<and> ob_Status y = ob_Status x))"

lemma rows_refl: "rows_kept t t" "rows_from t t"
  by (auto simp: rows_kept_def rows_from_def)

lemma rows_exec:
  assumes "rows_kept t (snd (f t))" and "rows_from t (snd (f t))"
  shows "rows_kept t (snd (exec_sql fl f t)) \<and> rows_from t (snd (exec_sql fl f t))"
  using assms rows_refl by (cases fl) auto

lemma rows_same:
  assumes "t_outbox t' = t_outbox t" and "map job_ID (t_jobs t') = map job_ID (t_jobs t)"
  shows "rows_kept t t' \<and> rows_from t t'"
proof -
  have "set (map job_ID (t_jobs t')) = set (map job_ID (t_jobs t))" using assms(2) by simp
  then show ?thesis using assms(1) by (auto simp: rows_kept_def rows_from_def)
qed

lemma rows_mark:
  assumes "\<And>x. ob_ID (f x) = ob_ID x \<and> ob_JobID (f x) = ob_JobID x"
  shows "rows_kept t (snd (mark_outbox_sql i f t))"
  using assms by (auto simp: rows_kept_def mark_outbox_sql_def row_ids_def)

lemma rows_mark_failed:
  "rows_kept t (snd (repo_MarkOutboxFailedAttempt e i m t)) \<and> rows_from t (snd (repo_MarkOutboxFailedAttempt e i m t))"
proof -
  let ?f = "\<lambda>ob. ob\<lparr>ob_Attempts := ob_Attempts ob + 1, ob_LastError := Some m, ob_UpdatedAt := re_now e\<rparr>"
  have "rows_from t (snd (mark_outbox_sql i ?f t))" by (auto simp: rows_from_def mark_outbox_sql_def row_ids_def)
  then show ?thesis unfolding repo_snd_outbox by (intro rows_exec rows_mark) simp_all
qed

lemma rows_kept_published: "rows_kept t (snd (repo_MarkOutboxPublished e i t))"
  unfolding repo_snd_outbox by (cases "re_fault e") (simp_all add: rows_refl rows_mark)

lemma rows_step:
  assumes "\<forall>e i. ev \<noteq> JOutboxPublished e i"
  shows "rows_kept t (job_step (JobRepo pg coll) t ev) \<and> rows_from t (job_step (JobRepo pg coll) t ev)"
proof (cases ev)
  case (JCreate e job its)
  have "rows_kept t (snd (create_tx pg e job its t))" "rows_from t (snd (create_tx pg e job its t))"
    by (auto simp: create_tx_def Let_def rows_kept_def rows_from_def split: sum.splits)
  then show ?thesis using rows_exec [where f = "create_tx pg e job its"] JCreate by (simp add: JobRepo_def repo_snd)
next
  case (JClaim e j M)
  have "rows_kept t (snd (claim_tx e j M t)) \<and> rows_from t (snd (claim_tx e j M t))"
    by (rule rows_same) (cases rule: claim_tx_cases [of e j M t]; simp)+
  then show ?thesis using rows_exec [where f = "claim_tx e j M"] JClaim by (simp add: JobRepo_def repo_snd)
next
  case (JUpdate e i sta r m)
  have "rows_kept t (snd (update_item_sql pg e i sta (normalizeJSONB r) m t)) \<and> rows_from t (snd (update_item_sql pg e i sta (normalizeJSONB r) m t))"
    by (rule rows_same) (simp_all add: update_item_sql_def split: sum.splits)
  then show ?thesis using rows_exec [where f = "update_item_sql pg e i sta (normalizeJSONB r) m"] JUpdate rows_refl
    by (cases "item_terminal sta") (simp_all add: JobRepo_def repo_snd)
next
  case (JRequeue e j)
  then show ?thesis by (intro rows_same; cases "re_fault e") (simp_all add: JobRepo_def repo_RequeueRunningItems_def)
next
  case (JMarkRunning e j)
  then show ?thesis by (intro rows_same; cases "re_fault e") (simp_all add: JobRepo_def repo_MarkJobRunning_def same_ids del: map_map)
next
  case (JRecompute e j)
  have "rows_kept t (snd (recompute_sql e j t)) \<and> rows_from t (snd (recompute_sql e j t))"
    by (rule rows_same) (simp_all add: recompute_sql_def Let_def same_ids)
  then show ?thesis using rows_exec [where f = "recompute_sql e j"] JRecompute by (simp add: JobRepo_def repo_snd_outbox)
next
  case (JOutboxFailed e i m)
  then show ?thesis using rows_mark_failed by (simp add: JobRepo_def)
qed (use assms in simp)

subsection \<open>The system invariant\<close>

definition known_statuses :: "job_tables \<Rightarrow> bool" where
  [inv_defs]: "known_statuses t \<longleftrightarrow> (\<forall>ob \<in> set (t_outbox t). ob_Status ob = OutboxStatusPending \<or> ob_Status ob = OutboxStatusPublished)"

text \<open>A request that created a job knows that job's outbox row, and marks it published only after the publish.\<close>

definition row_of :: "job_tables \<Rightarrow> BatchJob \<Rightarrow> BatchJobOutbox \<Rightarrow> bool" where
  "row_of t job ob \<longleftrightarrow> (\<exists>x \<in> set (t_outbox t). row_ids x = (ob_ID ob, job_ID job)) \<and> job_ID job \<in> job_ID ` set (t_jobs t)"

fun pc_ok :: "(uuid \<Rightarrow> string) \<Rightarrow> job_tables \<Rightarrow> MemQueue \<Rightarrow> batch_pc \<Rightarrow> bool" where
  "pc_ok us t qu (BPublish rec job ob) \<longleftrightarrow> row_of t job ob"
| "pc_ok us t qu (BMark rec job ob failed) \<longleftrightarrow> row_of t job ob \<and> (failed = None \<longrightarrow> us (job_ID job) \<in> set (mq_published qu))"
| "pc_ok us t qu _ \<longleftrightarrow> True"

definition tables_ok :: "go_lib \<Rightarrow> job_tables \<Rightarrow> MemQueue \<Rightarrow> bool" where
  "tables_ok lib t qu \<longleftrightarrow> outbox_inv t \<and> known_statuses t \<and> enqueued lib t qu"

definition system_inv :: "go_lib \<Rightarrow> ('s, 'c, 'l, 'r) batch_system \<Rightarrow> bool" where
  [inv_defs]: "system_inv lib s \<longleftrightarrow> tables_ok lib (bw_jobs (bs_world s)) (bw_queue (bs_world s))
     \<and> (\<forall>(q, pc) \<in> set (bs_requests s). pc_ok (uuid_String lib) (bw_jobs (bs_world s)) (bw_queue (bs_world s)) pc)"

text \<open>What no step undoes.\<close>

definition grows :: "job_tables \<Rightarrow> MemQueue \<Rightarrow> job_tables \<Rightarrow> MemQueue \<Rightarrow> bool" where
  "grows t qu t' qu' \<longleftrightarrow> rows_kept t t' \<and> set (mq_published qu) \<subseteq> set (mq_published qu')"

lemma rows_kept_trans: "rows_kept t t' \<Longrightarrow> rows_kept t' t'' \<Longrightarrow> rows_kept t t''"
  unfolding rows_kept_def by (intro conjI ballI) (metis, blast)

lemma grows_refl: "grows t qu t qu" by (simp add: grows_def rows_refl)

lemma row_of_kept: "row_of t job ob \<Longrightarrow> rows_kept t t' \<Longrightarrow> row_of t' job ob"
  unfolding row_of_def rows_kept_def by (metis subsetD)

lemma pc_ok_grows: "pc_ok us t qu pc \<Longrightarrow> grows t qu t' qu' \<Longrightarrow> pc_ok us t' qu' pc"
  by (cases pc) (auto simp: grows_def row_of_kept)

text \<open>Store operations other than the mark.\<close>

lemma tables_ok_from:
  assumes "tables_ok lib t qu" and "outbox_inv t'" and "rows_from t t'" and "set (mq_published qu) \<subseteq> set (mq_published qu')"
  shows "tables_ok lib t' qu'"
proof -
  have "ob_Status x = OutboxStatusPending \<or> ob_Status x = OutboxStatusPublished \<and> uuid_String lib (ob_JobID x) \<in> set (mq_published qu')"
    if "x \<in> set (t_outbox t')" for x
  proof (cases "ob_Status x = OutboxStatusPending")
    case False
    with assms(3) that obtain y where "y \<in> set (t_outbox t)" "row_ids y = row_ids x" "ob_Status y = ob_Status x"
      by (auto simp: rows_from_def)
    then show ?thesis using assms(1,4) False unfolding tables_ok_def known_statuses_def enqueued_def row_ids_def
      by (metis prod.inject subsetD)
  qed simp
  then show ?thesis using assms(2) by (fastforce simp: tables_ok_def known_statuses_def enqueued_def OutboxStatusPending_def OutboxStatusPublished_def)
qed

lemma store_op:
  assumes "tables_ok lib t qu" and "\<forall>e i. ev \<noteq> JOutboxPublished e i" and "set (mq_published qu) \<subseteq> set (mq_published qu')"
  shows "tables_ok lib (job_step (JobRepo pg coll) t ev) qu' \<and> grows t qu (job_step (JobRepo pg coll) t ev) qu'"
  using tables_ok_from [OF assms(1) outbox_step _ assms(3)] rows_step [OF assms(2)] assms(1,3) by (simp add: tables_ok_def grows_def)

text \<open>The mark, after the publish.\<close>

lemma mark_published:
  assumes "tables_ok lib t qu" and "\<exists>x \<in> set (t_outbox t). row_ids x = (i, j)" and "uuid_String lib j \<in> set (mq_published qu)"
  shows "tables_ok lib (snd (repo_MarkOutboxPublished e i t)) qu \<and> grows t qu (snd (repo_MarkOutboxPublished e i t)) qu"
proof -
  let ?t = "snd (repo_MarkOutboxPublished e i t)"
  have inv: "outbox_inv t" using assms(1) by (simp add: tables_ok_def)
  have st: "x \<in> set (t_outbox ?t) \<Longrightarrow> ob_Status x = OutboxStatusPending \<or> ob_Status x = OutboxStatusPublished
      \<and> uuid_String lib (ob_JobID x) \<in> set (mq_published qu)" for x
  proof -
    assume "x \<in> set (t_outbox ?t)"
    from exec_sql_mark [OF this [unfolded repo_snd_outbox]] obtain y where y: "y \<in> set (t_outbox t)"
      "x = y \<or> ob_ID y = i \<and> x = y\<lparr>ob_Status := OutboxStatusPublished, ob_PublishedAt := Some (re_now e), ob_UpdatedAt := re_now e\<rparr>" by blast
    from assms(2) obtain z where z: "z \<in> set (t_outbox t)" "ob_ID z = i" "ob_JobID z = j" by (auto simp: row_ids_def)
    have "ob_ID y = i \<Longrightarrow> y = z" using inv y(1) z by (auto simp: outbox_inv_def distinct_map inj_on_def)
    then show ?thesis using y z assms(1,3) by (auto simp: tables_ok_def known_statuses_def enqueued_def)
  qed
  moreover have "outbox_inv ?t" using outbox_step [OF inv, of _ _ "JOutboxPublished e i"] by (simp add: JobRepo_def)
  ultimately show ?thesis using rows_kept_published
    by (fastforce simp: tables_ok_def known_statuses_def enqueued_def grows_def OutboxStatusPending_def OutboxStatusPublished_def)
qed

lemma publish_history: "set (mq_published qu) \<subseteq> set (mq_published (queue_step MemJobQueue qu ev))"
proof (cases ev)
  case (QPublish e j)
  then show ?thesis using memq_publish_history(1) by (simp add: MemJobQueue_def)
next
  case (QDeliver e)
  then show ?thesis by (simp add: MemJobQueue_def memq_Deliver_def takeOne_def split: prod.splits option.splits list.splits)
qed (simp_all add: MemJobQueue_def memq_Ack_def memq_Claim_def memq_PublishDLQ_def)


lemma drain_loop_ok:
  assumes "wk_store wk = JobRepo pg coll" and "wk_queue wk = MemJobQueue" and "tables_ok (wk_lib wk) (w_store w) (w_queue w)"
    and "\<forall>ob \<in> set obs. \<exists>x \<in> set (t_outbox (w_store w)). row_ids x = row_ids ob"
  shows "let w' = drain_loop wk envs obs w in tables_ok (wk_lib wk) (w_store w') (w_queue w') \<and> grows (w_store w) (w_queue w) (w_store w') (w_queue w')"
  using assms(3,4)
proof (induction obs arbitrary: w)
  case Nil
  then show ?case by (simp add: grows_refl)
next
  case (Cons ob obs)
  show ?case
  proof (cases "w_ctx w")
    case True
    then show ?thesis using Cons.prems by (simp add: grows_refl)
  next
    case False
    obtain qe e where env: "envs (ob_ID ob) = (qe, e)" by fastforce
    let ?j = "uuid_String (wk_lib wk) (ob_JobID ob)" and ?t = "w_store w"
    obtain res q' where p: "memq_Publish qe ?j (w_queue w) = (res, q')" by fastforce
    have hist: "set (mq_published (w_queue w)) \<subseteq> set (mq_published q')" using memq_publish_history(1) p by (metis snd_conv)
    have "\<exists>w1 t1. drain_loop wk envs (ob # obs) w = drain_loop wk envs obs w1 \<and> w_store w1 = t1 \<and> w_queue w1 = q'
        \<and> tables_ok (wk_lib wk) t1 q' \<and> grows ?t (w_queue w) t1 q'"
    proof (cases res)
      case (Inl err)
      let ?t1 = "snd (repo_MarkOutboxFailedAttempt e (ob_ID ob) err ?t)"
      have "drain_loop wk envs (ob # obs) w = drain_loop wk envs obs ((worker_failure (w\<lparr>w_queue := q'\<rparr>))\<lparr>w_store := ?t1\<rparr>)"
        using False env p Inl assms(1,2) by (simp add: on_queue_def on_store_def MemJobQueue_def JobRepo_def case_prod_unfold)
      moreover have "tables_ok (wk_lib wk) ?t1 q' \<and> grows ?t (w_queue w) ?t1 q'"
        using store_op [OF Cons.prems(1) _ hist, of "JOutboxFailed e (ob_ID ob) err"] by (simp add: JobRepo_def)
      ultimately show ?thesis
        by (intro exI [of _ "(worker_failure (w\<lparr>w_queue := q'\<rparr>))\<lparr>w_store := ?t1\<rparr>"] exI [of _ ?t1]) (simp add: worker_failure_def)
    next
      case (Inr u)
      let ?t1 = "snd (repo_MarkOutboxPublished e (ob_ID ob) ?t)"
      have "drain_loop wk envs (ob # obs) w = drain_loop wk envs obs (w\<lparr>w_queue := q', w_store := ?t1\<rparr>)"
        using False env p Inr assms(1,2) by (simp add: on_queue_def on_store_def MemJobQueue_def JobRepo_def case_prod_unfold)
      moreover have "tables_ok (wk_lib wk) ?t q'"
        using tables_ok_from [OF Cons.prems(1) _ rows_refl(2) hist] Cons.prems(1) by (simp add: tables_ok_def)
      moreover have "?j \<in> set (mq_published q')" using memq_publish_history(2) p Inr by simp
      ultimately show ?thesis
        using mark_published [of "wk_lib wk" ?t q' "ob_ID ob" "ob_JobID ob" e] Cons.prems(2) hist
        by (intro exI [of _ "w\<lparr>w_queue := q', w_store := ?t1\<rparr>"] exI [of _ ?t1]) (auto simp: row_ids_def grows_def)
    qed
    then obtain w1 where w1: "drain_loop wk envs (ob # obs) w = drain_loop wk envs obs w1" "w_queue w1 = q'"
      "tables_ok (wk_lib wk) (w_store w1) (w_queue w1)" "grows ?t (w_queue w) (w_store w1) (w_queue w1)" by blast
    have "\<forall>ob \<in> set obs. \<exists>x \<in> set (t_outbox (w_store w1)). row_ids x = row_ids ob"
      using Cons.prems(2) w1(4) unfolding grows_def rows_kept_def by (metis list.set_intros(2))
    from Cons.IH [OF w1(3) this] show ?thesis using w1(1,4) rows_kept_trans by (auto simp: Let_def grows_def)
  qed
qed

lemma drain_ok:
  assumes "wk_store wk = JobRepo pg coll" and "wk_queue wk = MemJobQueue" and "tables_ok (wk_lib wk) (w_store w) (w_queue w)"
  shows "let w' = drainOutboxOnce wk e envs w in tables_ok (wk_lib wk) (w_store w') (w_queue w') \<and> grows (w_store w) (w_queue w) (w_store w') (w_queue w')"
proof (cases "repo_PendingOutbox e (wc_OutboxBatch (wk_cfg wk)) (w_store w)")
  case (Inl err)
  then show ?thesis using assms by (simp add: drainOutboxOnce_def JobRepo_def worker_failure_def grows_refl)
next
  case (Inr rows)
  have "set rows \<subseteq> set (t_outbox (w_store w))"
    using Inr by (cases "re_fault e") (auto simp: repo_PendingOutbox_def dest: in_set_takeD split: if_splits)
  then have "\<forall>ob \<in> set rows. \<exists>x \<in> set (t_outbox (w_store w)). row_ids x = row_ids ob" by auto
  from drain_loop_ok [OF assms this] show ?thesis using assms(1) Inr by (simp add: drainOutboxOnce_def JobRepo_def)
qed

lemma request_ok:
  assumes "bd_Jobs bd = JobRepo pg coll" and "bd_JobQueue bd = MemJobQueue" and "dp_uuid_String (bd_Deps bd) = uuid_String lib"
    and "tables_ok lib (bw_jobs b) (bw_queue b)" and "pc_ok (uuid_String lib) (bw_jobs b) (bw_queue b) pc"
    and "createBatchJob bd q ev pc b = (pc', b')"
  shows "tables_ok lib (bw_jobs b') (bw_queue b') \<and> grows (bw_jobs b) (bw_queue b) (bw_jobs b') (bw_queue b')
    \<and> pc_ok (uuid_String lib) (bw_jobs b') (bw_queue b') pc'"
proof -
  have idle: ?thesis if "bw_jobs b' = bw_jobs b" "bw_queue b' = bw_queue b" "pc_ok (uuid_String lib) (bw_jobs b') (bw_queue b') pc'"
    using that assms(4) by (simp add: grows_refl)
  show ?thesis
  proof (cases pc)
    case (BCreate job rec)
    let ?ev = "JCreate (be_job ev) (batch_job_row job) (batch_items (bj_items job))"
    obtain res t where c: "js_CreateWithItemsAndOutbox (bd_Jobs bd) (be_job ev) (batch_job_row job) (batch_items (bj_items job)) (bw_jobs b) = (res, t)"
      by fastforce
    have t: "bw_jobs b' = t" "bw_queue b' = bw_queue b" using assms(6) c BCreate by (auto simp: batch_create_def split: sum.splits)
    have "tables_ok lib t (bw_queue b) \<and> grows (bw_jobs b) (bw_queue b) t (bw_queue b)"
      using store_op [OF assms(4), of ?ev "bw_queue b" pg coll] c assms(1) by simp
    moreover have "pc_ok (uuid_String lib) t (bw_queue b) pc'"
    proof (cases res)
      case (Inr x)
      obtain created ob where x: "x = (created, ob)" by (cases x)
      have "row_of t created ob"
        using create_committed [OF c [unfolded assms(1) Inr x]] by (simp add: row_of_def row_ids_def)
      then show ?thesis using assms(6) c BCreate Inr x by (auto simp: batch_create_def)
    qed (use assms(6) c BCreate in \<open>auto simp: batch_create_def\<close>)
    ultimately show ?thesis using t by simp
  next
    case (BPublish rec job ob)
    obtain res qu where p: "memq_Publish (be_queue ev) (uuid_String lib (job_ID job)) (bw_queue b) = (res, qu)" by fastforce
    have h: "set (mq_published (bw_queue b)) \<subseteq> set (mq_published qu)" using memq_publish_history(1) p by (metis snd_conv)
    have b': "bw_jobs b' = bw_jobs b" "bw_queue b' = qu" "pc' = BMark rec job ob (case res of Inl err \<Rightarrow> Some err | Inr _ \<Rightarrow> None)"
      using assms(2,3,6) BPublish p by (auto simp: batch_publish_def MemJobQueue_def split: sum.splits)
    have "res = Inr () \<Longrightarrow> uuid_String lib (job_ID job) \<in> set (mq_published qu)" using memq_publish_history(2) p by auto
    then have "pc_ok (uuid_String lib) (bw_jobs b) qu pc'" using assms(5) BPublish b'(3) by (cases res) auto
    moreover have "tables_ok lib (bw_jobs b) qu"
      using tables_ok_from [OF assms(4) _ rows_refl(2) h] assms(4) by (simp add: tables_ok_def)
    ultimately show ?thesis using b' h by (simp add: grows_def rows_refl)
  next
    case (BMark rec job ob failed)
    then have pc': "pc' = BRespond rec (created_response bd q job)" and qu: "bw_queue b' = bw_queue b"
      using assms(6) by (auto simp: batch_mark_def)
    show ?thesis
    proof (cases failed)
      case None
      then have "bw_jobs b' = snd (repo_MarkOutboxPublished (be_job ev) (ob_ID ob) (bw_jobs b))"
        using assms(1,6) BMark by (auto simp: batch_mark_def JobRepo_def)
      then show ?thesis using mark_published [OF assms(4), of "ob_ID ob" "job_ID job" "be_job ev"] assms(5) BMark None pc' qu
        by (simp add: row_of_def)
    next
      case (Some err)
      then have "bw_jobs b' = job_step (JobRepo pg coll) (bw_jobs b) (JOutboxFailed (be_job ev) (ob_ID ob) err)"
        using assms(1,6) BMark by (auto simp: batch_mark_def)
      then show ?thesis using store_op [OF assms(4), of "JOutboxFailed (be_job ev) (ob_ID ob) err" "bw_queue b" pg coll] pc' qu by simp
    qed
  next
    case BStart
    have "pc_ok us t qu (batch_start bd q)" for us t qu
      by (simp add: batch_start_def batch_fail_def Let_def split: option.split sum.split prod.split)
    then show ?thesis using BStart assms(6) by (intro idle) auto
  next
    case (BCheck job)
    then show ?thesis using assms(6) decided by (intro idle) (auto simp: on_gw_def batch_check_def batch_fail_def batch_decided_def Let_def
      split: prod.splits sum.splits applied.splits)
  next
    case (BAllow job)
    then show ?thesis using assms(6) by (intro idle) (auto simp: on_gw_def batch_allow_def split: prod.splits bool.splits if_splits)
  next
    case (BBegin job)
    then show ?thesis using assms(6) by (intro idle) (auto simp: on_gw_def batch_begin_def batch_fail_def batch_decided_def Let_def
      split: prod.splits sum.splits applied.splits if_splits)
  qed (use assms(4,6) in \<open>auto simp: grows_refl\<close>)
qed


lemma system_ok:
  assumes "bd_Jobs bd = JobRepo pg coll" and "bd_JobQueue bd = MemJobQueue" and "wk_store wk = JobRepo pg coll" and "wk_queue wk = MemJobQueue"
    and "dp_uuid_String (bd_Deps bd) = uuid_String (wk_lib wk)" and "outside ev" and "system_inv (wk_lib wk) s"
  shows "system_inv (wk_lib wk) (system_step bd wk s ev)"
proof -
  let ?b = "bs_world s"
  have t: "tables_ok (wk_lib wk) (bw_jobs ?b) (bw_queue ?b)" and r: "\<forall>(q, pc) \<in> set (bs_requests s). pc_ok (uuid_String (wk_lib wk)) (bw_jobs ?b) (bw_queue ?b) pc"
    using assms(7) by (auto simp: system_inv_def)
  have lift: "system_inv (wk_lib wk) (s\<lparr>bs_world := b'\<rparr>)"
    if "tables_ok (wk_lib wk) (bw_jobs b') (bw_queue b')" "grows (bw_jobs ?b) (bw_queue ?b) (bw_jobs b') (bw_queue b')" for b'
    using that r by (auto simp: system_inv_def intro: pc_ok_grows)
  show ?thesis
  proof (cases ev)
    case (Request i bev)
    show ?thesis
    proof (cases "i < length (bs_requests s)")
      case True
      obtain q pc where qp: "bs_requests s ! i = (q, pc)" by fastforce
      obtain pc' b' where st: "createBatchJob bd q bev pc ?b = (pc', b')" by fastforce
      have "(q, pc) \<in> set (bs_requests s)" using True qp by (metis nth_mem)
      with r have "pc_ok (uuid_String (wk_lib wk)) (bw_jobs ?b) (bw_queue ?b) pc" by auto
      from request_ok [OF assms(1,2,5) t this st] have ok: "tables_ok (wk_lib wk) (bw_jobs b') (bw_queue b')"
        "grows (bw_jobs ?b) (bw_queue ?b) (bw_jobs b') (bw_queue b')" "pc_ok (uuid_String (wk_lib wk)) (bw_jobs b') (bw_queue b') pc'" by auto
      have "pc_ok (uuid_String (wk_lib wk)) (bw_jobs b') (bw_queue b') (snd x)" if "x \<in> set ((bs_requests s)[i := (q, pc')])" for x
      proof -
        have "x = (q, pc') \<or> x \<in> set (bs_requests s)" using that set_update_subset_insert [of "bs_requests s" i "(q, pc')"] by blast
        then show ?thesis using ok(3) r pc_ok_grows [OF _ ok(2)] by auto
      qed
      then have "\<forall>(q, pc) \<in> set ((bs_requests s)[i := (q, pc')]). pc_ok (uuid_String (wk_lib wk)) (bw_jobs b') (bw_queue b') pc" by auto
      then show ?thesis using Request True qp st ok(1) by (simp add: system_inv_def)
    qed (use Request assms(7) in simp)
  next
    case (Drain e envs w)
    let ?w = "w\<lparr>w_store := bw_jobs ?b, w_queue := bw_queue ?b\<rparr>"
    from drain_ok [OF assms(3,4), of ?w e envs] t show ?thesis unfolding Drain system_step.simps Let_def by (intro lift) simp_all
  next
    case (QueueOp qev)
    have h: "set (mq_published (bw_queue ?b)) \<subseteq> set (mq_published (queue_step MemJobQueue (bw_queue ?b) qev))" by (rule publish_history)
    show ?thesis unfolding QueueOp system_step.simps using assms(2) t tables_ok_from [OF t _ rows_refl(2) h] h
      by (intro lift) (simp_all add: tables_ok_def grows_def rows_refl)
  next
    case (StoreOp jev)
    then have "\<forall>e i. jev \<noteq> JOutboxPublished e i" using assms(6) by auto
    from store_op [OF t this order_refl, of pg coll] show ?thesis unfolding StoreOp system_step.simps using assms(1) by (intro lift) simp_all
  qed
qed

lemma system_run_ok:
  assumes "bd_Jobs bd = JobRepo pg coll" and "bd_JobQueue bd = MemJobQueue" and "wk_store wk = JobRepo pg coll" and "wk_queue wk = MemJobQueue"
    and "dp_uuid_String (bd_Deps bd) = uuid_String (wk_lib wk)" and "list_all outside evs" and "system_inv (wk_lib wk) s"
  shows "system_inv (wk_lib wk) (foldl (system_step bd wk) s evs)"
  using assms(6,7) by (induction evs arbitrary: s) (simp_all add: system_ok [OF assms(1-5)])



definition sample_system ::
  "(idem_table, string \<Rightarrow> (string \<times> time) option, string \<Rightarrow> counter, unit) batch_system" where
  "sample_system = \<lparr>bs_requests = [(sample_chat_http ''k'', BStart)], bs_world = sample_bw\<rparr>"

definition sample_events :: "(idem_env, unit) system_event list" where
  "sample_events = [StoreOp (JCreate (sample_repo_env 5) sample_job [sample_item ''a'']), QueueOp (QDeliver 6),
     StoreOp (JOutboxFailed (sample_repo_env 6) 102 ''redis down'')]"


subsection \<open>A drain pass empties the outbox\<close>

lemma mark_ok:
  assumes "re_fault e = NoFault"
  shows "t_outbox (snd (repo_MarkOutboxPublished e i t)) = map (\<lambda>ob. if ob_ID ob = i \<and> ob_Status ob = OutboxStatusPending
      then ob\<lparr>ob_Status := OutboxStatusPublished, ob_PublishedAt := Some (re_now e), ob_UpdatedAt := re_now e\<rparr> else ob) (t_outbox t)"
  using assms by (simp add: repo_snd_outbox mark_outbox_sql_def)

lemma drain_loop_publishes:
  assumes "wk_store wk = JobRepo pg coll" and "wk_queue wk = MemJobQueue" and "\<forall>i. re_fault (snd (envs i)) = NoFault"
    and "\<not> w_ctx w" and "mq_publishErr (w_queue w) = None"
    and "\<forall>x \<in> set (t_outbox (w_store w)). ob_Status x = OutboxStatusPublished \<or> ob_Status x = OutboxStatusPending \<and> ob_ID x \<in> ob_ID ` set obs"
  shows "let w' = drain_loop wk envs obs w in (\<forall>x \<in> set (t_outbox (w_store w')). ob_Status x = OutboxStatusPublished)
    \<and> map msg_JobID (mq_pending (w_queue w')) = map msg_JobID (mq_pending (w_queue w)) @ map (\<lambda>ob. uuid_String (wk_lib wk) (ob_JobID ob)) obs"
  using assms(4-6)
proof (induction obs arbitrary: w)
  case Nil
  then show ?case by auto
next
  case (Cons ob obs)
  obtain qe e where env: "envs (ob_ID ob) = (qe, e)" by fastforce
  then have e: "re_fault e = NoFault" using assms(3) by (metis snd_conv)
  let ?j = "uuid_String (wk_lib wk) (ob_JobID ob)" and ?t = "snd (repo_MarkOutboxPublished e (ob_ID ob) (w_store w))"
  obtain q' where p: "memq_Publish qe ?j (w_queue w) = (Inr (), q')" and q': "mq_publishErr q' = None"
    "map msg_JobID (mq_pending q') = map msg_JobID (mq_pending (w_queue w)) @ [?j]"
    using Cons.prems(2) by (simp add: memq_Publish_def)
  have "drain_loop wk envs (ob # obs) w = drain_loop wk envs obs (w\<lparr>w_queue := q', w_store := ?t\<rparr>)"
    using Cons.prems(1) env p assms(1,2) by (simp add: on_queue_def on_store_def MemJobQueue_def JobRepo_def case_prod_unfold)
  moreover have "\<forall>x \<in> set (t_outbox ?t). ob_Status x = OutboxStatusPublished \<or> ob_Status x = OutboxStatusPending \<and> ob_ID x \<in> ob_ID ` set obs"
    using Cons.prems(3) unfolding mark_ok [OF e] by auto
  ultimately show ?case using Cons.IH [of "w\<lparr>w_queue := q', w_store := ?t\<rparr>"] Cons.prems(1) q' by (simp add: Let_def)
qed



end
