(* ===== verification/Control_Repo.thy ===== *)
theory Control_Repo
  imports Db Selector Auth "HOL-Library.Product_Lexorder" "HOL-Library.List_Lexorder" "HOL-Library.Char_ord"
begin

section \<open>The control-plane tables (internal/db: tenant, apikey, backend and routing policy repositories)\<close>

text \<open>
  Four tables with the same shape: a generated id and one unique column. The statements on them are written
  once (\<open>insert_row\<close>, \<open>upsert_row\<close>, \<open>update_row\<close>) and used by each repository with its own row type, CHECK
  constraints and columns; the locale \<open>unique_table\<close> proves once what all of them keep. A Go \<open>int\<close> bound to an
  \<open>integer\<close> column is rejected by the driver when it does not fit 32 bits. The trigger of the migrations stamps
  \<open>updated_at\<close> on every update. Text order is the database's collation, as in \<open>Job_Repo\<close>.
\<close>

record control_env =
  cx_fault :: fault
  cx_now :: time
  cx_new :: uuid

subsection \<open>Statements on a table with a unique column\<close>

text \<open>\<open>idf\<close> and \<open>keyf\<close> read the primary key and the unique column.\<close>

definition insert_row :: "('r \<Rightarrow> uuid) \<Rightarrow> ('r \<Rightarrow> 'k) \<Rightarrow> 'r \<Rightarrow> 'r list \<Rightarrow> (pg_error + 'r) \<times> 'r list" where
  "insert_row idf keyf r t =
     (if keyf r \<in> set (map keyf t) \<or> idf r \<in> set (map idf t) then (Inl (PgCode uniqueViolationCode), t)
      else (Inr r, t @ [r]))"

text \<open>\<open>INSERT ... ON CONFLICT (key) DO UPDATE\<close>: \<open>assign old\<close> is the row after the assignments.\<close>

definition upsert_row ::
  "('r \<Rightarrow> uuid) \<Rightarrow> ('r \<Rightarrow> 'k) \<Rightarrow> ('r \<Rightarrow> 'r) \<Rightarrow> 'r \<Rightarrow> 'r list \<Rightarrow> (pg_error + 'r) \<times> 'r list" where
  "upsert_row idf keyf assign r t =
     (case find (\<lambda>x. keyf x = keyf r) t of
        None \<Rightarrow> insert_row idf keyf r t
      | Some old \<Rightarrow> (Inr (assign old), map (\<lambda>x. if keyf x = keyf r then assign x else x) t))"

text \<open>\<open>UPDATE ... WHERE id = i RETURNING\<close>.\<close>

definition update_row ::
  "('r \<Rightarrow> uuid) \<Rightarrow> ('r \<Rightarrow> 'k) \<Rightarrow> uuid \<Rightarrow> ('r \<Rightarrow> 'r) \<Rightarrow> 'r list \<Rightarrow> (pg_error + 'r) \<times> 'r list" where
  "update_row idf keyf i f t =
     (case find (\<lambda>x. idf x = i) t of
        None \<Rightarrow> (Inl PgxErrNoRows, t)
      | Some old \<Rightarrow>
          (if keyf (f old) \<in> set (map keyf (filter (\<lambda>x. idf x \<noteq> i) t)) then (Inl (PgCode uniqueViolationCode), t)
           else (Inr (f old), map (\<lambda>x. if idf x = i then f x else x) t)))"

definition get_row :: "('r \<Rightarrow> bool) \<Rightarrow> 'r list \<Rightarrow> (pg_error + 'r) \<times> 'r list" where
  "get_row P t = (case find P t of None \<Rightarrow> Inl PgxErrNoRows | Some r \<Rightarrow> Inr r, t)"

text \<open>The scan functions map an absent row.\<close>

definition scanned :: "(pg_error + 'r) \<times> 't \<Rightarrow> (db_error + 'r) \<times> 't" where
  "scanned res = (case res of (Inl err, t) \<Rightarrow> (Inl (mapNotFound err), t) | (Inr r, t) \<Rightarrow> (Inr r, t))"

subsection \<open>tenant_repo.go, apikey_repo.go\<close>

definition tenant_Upsert :: "control_env \<Rightarrow> string \<Rightarrow> Tenant list \<Rightarrow> (db_error + Tenant) \<times> Tenant list" where
  "tenant_Upsert e name t =
     scanned (exec_sql (cx_fault e)
       (upsert_row tn_ID tn_Name (\<lambda>old. old\<lparr>tn_Name := name, tn_UpdatedAt := cx_now e\<rparr>)
          \<lparr>tn_ID = cx_new e, tn_Name = name, tn_CreatedAt = cx_now e, tn_UpdatedAt = cx_now e\<rparr>) t)"

definition tenant_GetByID :: "control_env \<Rightarrow> uuid \<Rightarrow> Tenant list \<Rightarrow> db_error + Tenant" where
  "tenant_GetByID e i t = fst (scanned (exec_sql (cx_fault e) (get_row (\<lambda>x. tn_ID x = i)) t))"

text \<open>A key refers to an existing tenant; \<open>tenants\<close> are the rows of that table.\<close>

definition apikey_upsert_sql ::
  "control_env \<Rightarrow> Tenant list \<Rightarrow> uuid \<Rightarrow> string \<Rightarrow> string \<Rightarrow> APIKey list \<Rightarrow> (pg_error + APIKey) \<times> APIKey list" where
  "apikey_upsert_sql e tenants tenantID name keyHash t =
     (if keyHash \<notin> set (map ak_KeyHash t) \<and> tenantID \<notin> set (map tn_ID tenants) then (Inl (PgCode ''23503''), t)
      else upsert_row ak_ID ak_KeyHash (\<lambda>old. old\<lparr>ak_Name := name, ak_UpdatedAt := cx_now e\<rparr>)
             \<lparr>ak_ID = cx_new e, ak_TenantID = tenantID, ak_Name = name, ak_KeyHash = keyHash, ak_CreatedAt = cx_now e,
              ak_UpdatedAt = cx_now e\<rparr> t)"

definition apikey_Upsert ::
  "control_env \<Rightarrow> Tenant list \<Rightarrow> uuid \<Rightarrow> string \<Rightarrow> string \<Rightarrow> APIKey list \<Rightarrow> (db_error + APIKey) \<times> APIKey list" where
  "apikey_Upsert e tenants tenantID name keyHash t =
     scanned (exec_sql (cx_fault e) (apikey_upsert_sql e tenants tenantID name keyHash) t)"

definition apikey_GetByHash :: "control_env \<Rightarrow> APIKey list \<Rightarrow> key_store" where
  "apikey_GetByHash e t keyHash = fst (scanned (exec_sql (cx_fault e) (get_row (\<lambda>x. ak_KeyHash x = keyHash)) t))"

subsection \<open>backend_repo.go\<close>

definition fits_int4 :: "int \<Rightarrow> bool" where
  "fits_int4 v \<longleftrightarrow> - (2 ^ 31) \<le> v \<and> v < 2 ^ 31"

text \<open>The CHECK constraints; that of the kind holds by the type.\<close>

definition backend_checks :: "ModelBackend \<Rightarrow> bool" where
  "backend_checks b \<longleftrightarrow> mb_Priority b \<ge> 0 \<and> mb_Weight b > 0 \<and> mb_MaxInFlight b > 0"

text \<open>Binding the arguments, then the constraints, then the statement.\<close>

definition checked_backend ::
  "ModelBackend \<Rightarrow> (ModelBackend list \<Rightarrow> (pg_error + ModelBackend) \<times> ModelBackend list) \<Rightarrow> ModelBackend list
     \<Rightarrow> (pg_error + ModelBackend) \<times> ModelBackend list" where
  "checked_backend b f t =
     (if \<not> (fits_int4 (mb_Priority b) \<and> fits_int4 (mb_Weight b) \<and> fits_int4 (mb_MaxInFlight b))
      then (Inl (PgOther ''value out of range for int4''), t)
      else if \<not> backend_checks b then (Inl (PgCode ''23514''), t)
      else f t)"

definition fresh_backend :: "control_env \<Rightarrow> ModelBackend \<Rightarrow> ModelBackend" where
  "fresh_backend e b = b\<lparr>mb_ID := cx_new e, mb_CreatedAt := cx_now e, mb_UpdatedAt := cx_now e\<rparr>"

definition backend_Insert :: "control_env \<Rightarrow> ModelBackend \<Rightarrow> ModelBackend list \<Rightarrow> (db_error + ModelBackend) \<times> ModelBackend list" where
  "backend_Insert e b t =
     scanned (exec_sql (cx_fault e) (checked_backend b (insert_row mb_ID mb_Name (fresh_backend e b))) t)"

text \<open>All columns but the id and the creation time come from \<open>b\<close>.\<close>

definition assign_backend :: "time \<Rightarrow> ModelBackend \<Rightarrow> ModelBackend \<Rightarrow> ModelBackend" where
  "assign_backend now b old = b\<lparr>mb_ID := mb_ID old, mb_CreatedAt := mb_CreatedAt old, mb_UpdatedAt := now\<rparr>"

definition backend_Upsert :: "control_env \<Rightarrow> ModelBackend \<Rightarrow> ModelBackend list \<Rightarrow> (db_error + ModelBackend) \<times> ModelBackend list" where
  "backend_Upsert e b t =
     scanned (exec_sql (cx_fault e)
       (checked_backend b (upsert_row mb_ID mb_Name (assign_backend (cx_now e) b) (fresh_backend e b))) t)"

text \<open>The constraints are only evaluated for a row that is there.\<close>

definition backend_update_sql ::
  "control_env \<Rightarrow> ModelBackend \<Rightarrow> ModelBackend list \<Rightarrow> (pg_error + ModelBackend) \<times> ModelBackend list" where
  "backend_update_sql e b t =
     (if \<not> (fits_int4 (mb_Priority b) \<and> fits_int4 (mb_Weight b) \<and> fits_int4 (mb_MaxInFlight b))
      then (Inl (PgOther ''value out of range for int4''), t)
      else if mb_ID b \<in> set (map mb_ID t) \<and> \<not> backend_checks b then (Inl (PgCode ''23514''), t)
      else update_row mb_ID mb_Name (mb_ID b) (assign_backend (cx_now e) b) t)"

definition backend_Update :: "control_env \<Rightarrow> ModelBackend \<Rightarrow> ModelBackend list \<Rightarrow> (db_error + ModelBackend) \<times> ModelBackend list" where
  "backend_Update e b t = scanned (exec_sql (cx_fault e) (backend_update_sql e b) t)"

definition backend_GetByID :: "control_env \<Rightarrow> uuid \<Rightarrow> ModelBackend list \<Rightarrow> db_error + ModelBackend" where
  "backend_GetByID e i t = fst (scanned (exec_sql (cx_fault e) (get_row (\<lambda>x. mb_ID x = i)) t))"

text \<open>The shared \<open>list\<close>: an error of the query is returned wrapped.\<close>

definition list_rows :: "(string \<Rightarrow> string) \<Rightarrow> control_env \<Rightarrow> (ModelBackend \<Rightarrow> bool) \<Rightarrow> ModelBackend list \<Rightarrow> db_error + ModelBackend list" where
  "list_rows collate e P t =
     (case fst (exec_sql (cx_fault e)
             (\<lambda>t. (Inr (sort_key (\<lambda>b. (mb_Priority b, collate (mb_Name b))) (filter P t)) :: pg_error + _, t)) t) of
        Inl err \<Rightarrow> Inl (DB_Err err)
      | Inr rows \<Rightarrow> Inr rows)"

definition backend_List :: "(string \<Rightarrow> string) \<Rightarrow> control_env \<Rightarrow> ModelBackend list \<Rightarrow> db_error + ModelBackend list" where
  "backend_List collate e t = list_rows collate e (\<lambda>_. True) t"

definition backend_ListEnabled :: "(string \<Rightarrow> string) \<Rightarrow> control_env \<Rightarrow> ModelBackend list \<Rightarrow> db_error + ModelBackend list" where
  "backend_ListEnabled collate e t = list_rows collate e mb_Enabled t"

definition backend_ListByModelEnabled :: "(string \<Rightarrow> string) \<Rightarrow> control_env \<Rightarrow> ModelBackend list \<Rightarrow> backend_store" where
  "backend_ListByModelEnabled collate e t model = list_rows collate e (\<lambda>b. mb_ModelName b = model \<and> mb_Enabled b) t"

subsection \<open>routingpolicy_repo.go\<close>

definition policy_checks :: "RoutingPolicy \<Rightarrow> bool" where
  "policy_checks p \<longleftrightarrow> rp_Strategy p = StrategyPriorityWeighted"

text \<open>\<open>COALESCE($n, '{}'::jsonb)\<close> of the bound config; a rejected text fails the statement.\<close>

definition bound_policy :: "postgres \<Rightarrow> RoutingPolicy \<Rightarrow> pg_error + RoutingPolicy" where
  "bound_policy pg p =
     (case bind_jsonb pg (normalizeJSONB (rp_Config p)) of
        Inl err \<Rightarrow> Inl err
      | Inr None \<Rightarrow> Inr (p\<lparr>rp_Config := ''{}''\<rparr>)
      | Inr (Some c) \<Rightarrow> Inr (p\<lparr>rp_Config := c\<rparr>))"

definition checked_policy ::
  "postgres \<Rightarrow> RoutingPolicy \<Rightarrow> (RoutingPolicy list \<Rightarrow> bool)
     \<Rightarrow> (RoutingPolicy \<Rightarrow> RoutingPolicy list \<Rightarrow> (pg_error + RoutingPolicy) \<times> RoutingPolicy list)
     \<Rightarrow> RoutingPolicy list \<Rightarrow> (pg_error + RoutingPolicy) \<times> RoutingPolicy list" where
  "checked_policy pg p reached f t =
     (case bound_policy pg p of
        Inl err \<Rightarrow> (Inl err, t)
      | Inr p' \<Rightarrow> (if reached t \<and> \<not> policy_checks p' then (Inl (PgCode ''23514''), t) else f p' t))"

definition fresh_policy :: "control_env \<Rightarrow> RoutingPolicy \<Rightarrow> RoutingPolicy" where
  "fresh_policy e p = p\<lparr>rp_ID := cx_new e, rp_CreatedAt := cx_now e, rp_UpdatedAt := cx_now e\<rparr>"

definition assign_policy :: "time \<Rightarrow> RoutingPolicy \<Rightarrow> RoutingPolicy \<Rightarrow> RoutingPolicy" where
  "assign_policy now p old = p\<lparr>rp_ID := rp_ID old, rp_CreatedAt := rp_CreatedAt old, rp_UpdatedAt := now\<rparr>"

definition policy_Insert ::
  "postgres \<Rightarrow> control_env \<Rightarrow> RoutingPolicy \<Rightarrow> RoutingPolicy list \<Rightarrow> (db_error + RoutingPolicy) \<times> RoutingPolicy list" where
  "policy_Insert pg e p t =
     scanned (exec_sql (cx_fault e)
       (checked_policy pg p (\<lambda>_. True) (\<lambda>p. insert_row rp_ID rp_Name (fresh_policy e p))) t)"

definition policy_Upsert ::
  "postgres \<Rightarrow> control_env \<Rightarrow> RoutingPolicy \<Rightarrow> RoutingPolicy list \<Rightarrow> (db_error + RoutingPolicy) \<times> RoutingPolicy list" where
  "policy_Upsert pg e p t =
     scanned (exec_sql (cx_fault e)
       (checked_policy pg p (\<lambda>_. True) (\<lambda>p. upsert_row rp_ID rp_Name (assign_policy (cx_now e) p) (fresh_policy e p))) t)"

definition policy_Update ::
  "postgres \<Rightarrow> control_env \<Rightarrow> RoutingPolicy \<Rightarrow> RoutingPolicy list \<Rightarrow> (db_error + RoutingPolicy) \<times> RoutingPolicy list" where
  "policy_Update pg e p t =
     scanned (exec_sql (cx_fault e)
       (checked_policy pg p (\<lambda>t. rp_ID p \<in> set (map rp_ID t))
          (\<lambda>p. update_row rp_ID rp_Name (rp_ID p) (assign_policy (cx_now e) p))) t)"

definition policy_GetByID :: "control_env \<Rightarrow> uuid \<Rightarrow> RoutingPolicy list \<Rightarrow> db_error + RoutingPolicy" where
  "policy_GetByID e i t = fst (scanned (exec_sql (cx_fault e) (get_row (\<lambda>x. rp_ID x = i)) t))"

definition policy_List :: "(string \<Rightarrow> string) \<Rightarrow> control_env \<Rightarrow> RoutingPolicy list \<Rightarrow> db_error + RoutingPolicy list" where
  "policy_List collate e t =
     (case fst (exec_sql (cx_fault e) (\<lambda>t. (Inr (sort_key (\<lambda>p. collate (rp_Name p)) t) :: pg_error + _, t)) t) of
        Inl err \<Rightarrow> Inl (DB_Err err)
      | Inr rows \<Rightarrow> Inr rows)"

text \<open>\<open>ORDER BY created_at LIMIT 1\<close>; among equal times the database is free, here it takes the first row.\<close>

definition policy_GetForModel :: "control_env \<Rightarrow> RoutingPolicy list \<Rightarrow> policy_store" where
  "policy_GetForModel e t model =
     fst (scanned (exec_sql (cx_fault e)
       (\<lambda>t. get_row (\<lambda>_. True) (sort_key rp_CreatedAt (filter (\<lambda>p. rp_ModelName p = model \<and> rp_Enabled p) t))) t))"


subsection \<open>What the statements keep\<close>

text \<open>
  The two uniqueness constraints of a table. \<open>fresh i\<close> is a new row with the generated id \<open>i\<close>, \<open>assign\<close> the
  row after an update with the values of another one.
\<close>

definition table_inv :: "('r \<Rightarrow> uuid) \<Rightarrow> ('r \<Rightarrow> 'k) \<Rightarrow> 'r list \<Rightarrow> bool" where
  [inv_defs]: "table_inv idf keyf t \<longleftrightarrow> distinct (map idf t) \<and> distinct (map keyf t)"

lemma filter_unique: "distinct (map f t) \<Longrightarrow> x \<in> set t \<Longrightarrow> filter (\<lambda>y. f y = f x) t = [x]"
  by (induction t) (auto simp: filter_empty_conv, metis image_eqI)

locale unique_table =
  fixes idf :: "'r \<Rightarrow> uuid" and keyf :: "'r \<Rightarrow> 'k" and assign :: "time \<Rightarrow> 'r \<Rightarrow> 'r \<Rightarrow> 'r"
  assumes assign_id: "idf (assign now r old) = idf old"
    and assign_key: "keyf old = keyf r \<Longrightarrow> keyf (assign now r old) = keyf r"
begin

lemma insert_inv: "table_inv idf keyf t \<Longrightarrow> table_inv idf keyf (snd (insert_row idf keyf r t))"
  by (auto simp: insert_row_def table_inv_def)

lemma upsert_inv:
  assumes "table_inv idf keyf t" and "keyf r' = keyf r"
  shows "table_inv idf keyf (snd (upsert_row idf keyf (assign now r) r' t))"
proof (cases "find (\<lambda>x. keyf x = keyf r') t")
  case (Some old)
  let ?f = "\<lambda>x. if keyf x = keyf r' then assign now r x else x"
  have "map idf (map ?f t) = map idf t" "map keyf (map ?f t) = map keyf t"
    using assms(2) by (auto simp: assign_id assign_key)
  then show ?thesis using assms(1) Some by (simp add: upsert_row_def table_inv_def del: map_map)
qed (simp add: upsert_row_def insert_inv [OF assms(1)])

text \<open>After an upsert exactly one row has the key: the old one with the new values, or the new one.\<close>

lemma upsert_result:
  assumes "table_inv idf keyf t" and "upsert_row idf keyf (assign now r) r' t = (Inr x, t')" and "keyf r' = keyf r"
  shows "filter (\<lambda>y. keyf y = keyf r) t' = [x] \<and> filter (\<lambda>y. keyf y \<noteq> keyf r) t' = filter (\<lambda>y. keyf y \<noteq> keyf r) t
    \<and> ((\<exists>old \<in> set t. keyf old = keyf r \<and> x = assign now r old) \<or> (keyf r \<notin> set (map keyf t) \<and> x = r'))"
proof (cases "find (\<lambda>x. keyf x = keyf r') t")
  case None
  then have "keyf r \<notin> set (map keyf t)" using assms(3) by (auto simp: find_None_iff)
  moreover from this have "x = r'" "t' = t @ [r']"
    using assms(2,3) None by (auto simp: upsert_row_def insert_row_def split: if_splits)
  moreover have "filter (\<lambda>y. keyf y = keyf r) t = []" using calculation(1) unfolding filter_empty_conv by (metis image_eqI list.set_map)
  ultimately show ?thesis using assms(3) by simp
next
  case (Some old)
  then have old: "old \<in> set t" "keyf old = keyf r" using assms(3) by (auto simp: find_Some_iff)
  let ?f = "\<lambda>x. if keyf x = keyf r then assign now r x else x"
  have t': "t' = map ?f t" "x = assign now r old" using assms(2,3) Some by (auto simp: upsert_row_def)
  have "filter (\<lambda>y. keyf y = keyf r) t = [old]"
    using filter_unique [of keyf t old] old assms(1) by (simp add: table_inv_def)
  then have "filter (\<lambda>y. keyf y = keyf r) t' = [x]" unfolding t'
    using old(2) by (simp add: filter_map comp_def assign_key cong: filter_cong if_cong)
  moreover have "filter (\<lambda>y. keyf y \<noteq> keyf r) t' = filter (\<lambda>y. keyf y \<noteq> keyf r) t"
    unfolding t' by (induction t) (auto simp: assign_key)
  ultimately show ?thesis using old t' by blast
qed

lemma update_inv:
  assumes "table_inv idf keyf t" and "\<And>x. idf (f x) = idf x"
  shows "table_inv idf keyf (snd (update_row idf keyf i f t))"
proof (cases "find (\<lambda>x. idf x = i) t")
  case (Some old)
  then have old: "old \<in> set t" "idf old = i" by (auto simp: find_Some_iff)
  have uniq: "x = old" if "x \<in> set t" "idf x = i" for x
    using that old assms(1) by (auto simp: table_inv_def distinct_map inj_on_def)
  let ?f = "\<lambda>x. if idf x = i then f x else x"
  have ids: "map idf (map ?f t) = map idf t" using assms(2) by simp
  show ?thesis
  proof (cases "keyf (f old) \<in> set (map keyf (filter (\<lambda>x. idf x \<noteq> i) t))")
    case False
    have "inj_on keyf (set (map ?f t))"
    proof (rule inj_onI)
      fix x y assume "x \<in> set (map ?f t)" "y \<in> set (map ?f t)" and k: "keyf x = keyf y"
      then obtain x0 y0 where x0: "x0 \<in> set t" "x = ?f x0" and y0: "y0 \<in> set t" "y = ?f y0" by auto
      have inj: "inj_on keyf (set t)" using assms(1) by (simp add: table_inv_def distinct_map)
      have no: "z \<in> set t \<Longrightarrow> idf z \<noteq> i \<Longrightarrow> keyf z \<noteq> keyf (f old)" for z using False by (auto simp: image_iff)
      consider "idf x0 = i" "idf y0 = i" | "idf x0 = i" "idf y0 \<noteq> i" | "idf x0 \<noteq> i" "idf y0 = i" | "idf x0 \<noteq> i" "idf y0 \<noteq> i" by blast
      then show "x = y"
      proof cases
        case 1
        then show ?thesis using uniq x0 y0 by metis
      next
        case 2
        then show ?thesis using uniq [OF x0(1)] no [OF y0(1)] x0 y0 k by simp
      next
        case 3
        then show ?thesis using uniq [OF y0(1)] no [OF x0(1)] x0 y0 k by simp
      next
        case 4
        then show ?thesis using inj x0 y0 k by (auto dest: inj_onD)
      qed
    qed
    moreover have "distinct (map idf (map ?f t))" using assms(1) unfolding ids table_inv_def by blast
    then have "distinct (map ?f t)" by (rule distinct_map [THEN iffD1, THEN conjunct1])
    ultimately have "distinct (map keyf (map ?f t))" by (subst distinct_map) blast
    moreover have "snd (update_row idf keyf i f t) = map ?f t" using Some False by (simp add: update_row_def)
    ultimately show ?thesis using assms(1) ids by (simp only: table_inv_def)
  qed (use Some assms(1) in \<open>simp add: update_row_def\<close>)
qed (use assms(1) in \<open>simp add: update_row_def\<close>)

end

interpretation tenants: unique_table tn_ID tn_Name "\<lambda>now r old. old\<lparr>tn_Name := tn_Name r, tn_UpdatedAt := now\<rparr>"
  by unfold_locales simp_all

interpretation api_keys: unique_table ak_ID ak_KeyHash "\<lambda>now r old. old\<lparr>ak_Name := ak_Name r, ak_UpdatedAt := now\<rparr>"
  by unfold_locales simp_all

interpretation model_backends: unique_table mb_ID mb_Name assign_backend
  by unfold_locales (simp_all add: assign_backend_def)

interpretation routing_policies: unique_table rp_ID rp_Name assign_policy
  by unfold_locales (simp_all add: assign_policy_def)

end
