(* ===== verification/Admin.thy ===== *)
theory Admin
  imports Api_Helpers Control_Repo
begin

section \<open>The admin endpoints (internal/api/admin.go)\<close>

text \<open>
  The six control-plane handlers over the repositories of \<open>Control_Repo\<close>. A PATCH loads a row, changes it in
  memory and writes it back with a second statement: other requests may run in between, so its model takes the
  table at the load and the table at the write. Parameters: the streaming decoder on the (possibly cut) body,
  the bytes of a decoded value, \<open>url.Parse\<close>, \<open>uuid.Parse\<close> and the printed forms.
\<close>

definition maxBodyBytes :: nat where "maxBodyBytes = push_bit 20 1"

text \<open>What \<open>dec.Decode\<close> makes of a body: \<open>io.EOF\<close> before any value, another error, or the first value.\<close>

datatype decoded = DecEOF | DecError | DecValue json

record admin_deps =
  ad_lib :: json_lib
  ad_decode :: "string \<Rightarrow> bool \<Rightarrow> decoded"
  ad_raw :: "json \<Rightarrow> string"
  ad_whole :: "string \<Rightarrow> json option"
  ad_url :: parse_url
  ad_uuid_Parse :: "string \<Rightarrow> uuid option"
  ad_uuid_String :: "uuid \<Rightarrow> string"
  ad_time_json :: "time \<Rightarrow> json"
  ad_pg :: postgres
  ad_collate :: "string \<Rightarrow> string"

subsection \<open>Responses\<close>

definition int_json :: "int \<Rightarrow> json" where "int_json n = JNum (int_decimal n)"

definition toBackendResponse :: "admin_deps \<Rightarrow> ModelBackend \<Rightarrow> json" where
  "toBackendResponse ad b =
     JObj [(''id'', JStr (ad_uuid_String ad (mb_ID b))), (''name'', JStr (mb_Name b)), (''base_url'', JStr (mb_BaseURL b)),
           (''model_name'', JStr (mb_ModelName b)), (''kind'', JStr (BackendKind_String (mb_Kind b))),
           (''enabled'', JBool (mb_Enabled b)), (''priority'', int_json (mb_Priority b)), (''weight'', int_json (mb_Weight b)),
           (''max_in_flight'', int_json (mb_MaxInFlight b)), (''created_at'', ad_time_json ad (mb_CreatedAt b)),
           (''updated_at'', ad_time_json ad (mb_UpdatedAt b))]"

definition toPolicyResponse :: "admin_deps \<Rightarrow> RoutingPolicy \<Rightarrow> json option" where
  "toPolicyResponse ad p =
     (let cfg = (if length (rp_Config p) = 0 then ''{}'' else rp_Config p)
      in case ad_whole ad cfg of
           None \<Rightarrow> None
         | Some c \<Rightarrow>
             Some (JObj [(''id'', JStr (ad_uuid_String ad (rp_ID p))), (''name'', JStr (rp_Name p)), (''model_name'', JStr (rp_ModelName p)),
                   (''strategy'', JStr (rp_Strategy p)), (''config'', c), (''enabled'', JBool (rp_Enabled p)),
                   (''created_at'', ad_time_json ad (rp_CreatedAt p)), (''updated_at'', ad_time_json ad (rp_UpdatedAt p))]))"

subsection \<open>Request bodies\<close>

record backendCreateRequest =
  bc_Name :: "string option"
  bc_BaseURL :: "string option"
  bc_ModelName :: "string option"
  bc_Kind :: "string option"
  bc_Enabled :: "bool option"
  bc_Priority :: "int option"
  bc_Weight :: "int option"
  bc_MaxInFlight :: "int option"

record backendPatchRequest =
  bp_BaseURL :: "string option"
  bp_Enabled :: "bool option"
  bp_Priority :: "int option"
  bp_Weight :: "int option"
  bp_MaxInFlight :: "int option"

record policyCreateRequest =
  pc_Name :: "string option"
  pc_ModelName :: "string option"
  pc_Strategy :: "string option"
  pc_Config :: "json option"
  pc_Enabled :: "bool option"

record policyPatchRequest =
  pp_Config :: "json option"
  pp_Enabled :: "bool option"

text \<open>Storing into a pointer field: \<open>null\<close> sets it to nil; \<open>None\<close> is a type error.\<close>

definition store_ptr :: "(json \<Rightarrow> 'a option) \<Rightarrow> ('a option \<Rightarrow> 'r) \<Rightarrow> json \<Rightarrow> 'r option" where
  "store_ptr rd upd v = (if v = JNull then Some (upd None) else map_option (\<lambda>a. upd (Some a)) (rd v))"

text \<open>The members in order, as in \<open>Json\<close>: a type error is remembered and decoding goes on; unknown keys are skipped.\<close>

fun decode_struct :: "(string \<Rightarrow> json \<Rightarrow> 'r \<Rightarrow> 'r option) \<Rightarrow> (string \<times> json) list \<Rightarrow> 'r \<Rightarrow> bool \<Rightarrow> 'r option" where
  "decode_struct set_field [] r err = (if err then None else Some r)"
| "decode_struct set_field ((k, v) # ms) r err =
     (case set_field k v r of
        None \<Rightarrow> decode_struct set_field ms r True
      | Some r' \<Rightarrow> decode_struct set_field ms r' err)"

definition set_backend_create :: "json_lib \<Rightarrow> string \<Rightarrow> json \<Rightarrow> backendCreateRequest \<Rightarrow> backendCreateRequest option" where
  "set_backend_create lib k v r =
     (if names_field ''name'' k then store_ptr read_string (\<lambda>x. r\<lparr>bc_Name := x\<rparr>) v
      else if names_field ''base_url'' k then store_ptr read_string (\<lambda>x. r\<lparr>bc_BaseURL := x\<rparr>) v
      else if names_field ''model_name'' k then store_ptr read_string (\<lambda>x. r\<lparr>bc_ModelName := x\<rparr>) v
      else if names_field ''kind'' k then store_ptr read_string (\<lambda>x. r\<lparr>bc_Kind := x\<rparr>) v
      else if names_field ''enabled'' k then store_ptr read_bool (\<lambda>x. r\<lparr>bc_Enabled := x\<rparr>) v
      else if names_field ''priority'' k then store_ptr (read_int lib) (\<lambda>x. r\<lparr>bc_Priority := x\<rparr>) v
      else if names_field ''weight'' k then store_ptr (read_int lib) (\<lambda>x. r\<lparr>bc_Weight := x\<rparr>) v
      else if names_field ''max_in_flight'' k then store_ptr (read_int lib) (\<lambda>x. r\<lparr>bc_MaxInFlight := x\<rparr>) v
      else Some r)"

definition set_backend_patch :: "json_lib \<Rightarrow> string \<Rightarrow> json \<Rightarrow> backendPatchRequest \<Rightarrow> backendPatchRequest option" where
  "set_backend_patch lib k v r =
     (if names_field ''base_url'' k then store_ptr read_string (\<lambda>x. r\<lparr>bp_BaseURL := x\<rparr>) v
      else if names_field ''enabled'' k then store_ptr read_bool (\<lambda>x. r\<lparr>bp_Enabled := x\<rparr>) v
      else if names_field ''priority'' k then store_ptr (read_int lib) (\<lambda>x. r\<lparr>bp_Priority := x\<rparr>) v
      else if names_field ''weight'' k then store_ptr (read_int lib) (\<lambda>x. r\<lparr>bp_Weight := x\<rparr>) v
      else if names_field ''max_in_flight'' k then store_ptr (read_int lib) (\<lambda>x. r\<lparr>bp_MaxInFlight := x\<rparr>) v
      else Some r)"

text \<open>A \<open>RawMessage\<close> field takes every value, \<open>null\<close> included.\<close>

definition set_policy_create :: "string \<Rightarrow> json \<Rightarrow> policyCreateRequest \<Rightarrow> policyCreateRequest option" where
  "set_policy_create k v r =
     (if names_field ''name'' k then store_ptr read_string (\<lambda>x. r\<lparr>pc_Name := x\<rparr>) v
      else if names_field ''model_name'' k then store_ptr read_string (\<lambda>x. r\<lparr>pc_ModelName := x\<rparr>) v
      else if names_field ''strategy'' k then store_ptr read_string (\<lambda>x. r\<lparr>pc_Strategy := x\<rparr>) v
      else if names_field ''config'' k then Some (r\<lparr>pc_Config := Some v\<rparr>)
      else if names_field ''enabled'' k then store_ptr read_bool (\<lambda>x. r\<lparr>pc_Enabled := x\<rparr>) v
      else Some r)"

definition set_policy_patch :: "string \<Rightarrow> json \<Rightarrow> policyPatchRequest \<Rightarrow> policyPatchRequest option" where
  "set_policy_patch k v r =
     (if names_field ''config'' k then Some (r\<lparr>pp_Config := Some v\<rparr>)
      else if names_field ''enabled'' k then store_ptr read_bool (\<lambda>x. r\<lparr>pp_Enabled := x\<rparr>) v
      else Some r)"

text \<open>
  \<open>decodeJSON\<close>: the reader stops with an error at the size limit, so a longer body is seen cut. \<open>Inl\<close> is the
  writer after the 400. A body of \<open>null\<close> leaves the struct as it was.
\<close>

definition decodeJSON ::
  "admin_deps \<Rightarrow> (string \<Rightarrow> json \<Rightarrow> 'r \<Rightarrow> 'r option) \<Rightarrow> 'r \<Rightarrow> string \<Rightarrow> http_request \<Rightarrow> response_writer \<Rightarrow> response_writer + 'r" where
  "decodeJSON ad set_field dst body q w =
     (let bad = Inl (writeBadRequest (ad_lib ad) q ''invalid JSON body'' w)
      in case ad_decode ad (take maxBodyBytes body) (length body \<le> maxBodyBytes) of
           DecEOF \<Rightarrow> Inl (writeBadRequest (ad_lib ad) q ''request body is required'' w)
         | DecError \<Rightarrow> bad
         | DecValue v \<Rightarrow>
             (case read_object v of
                None \<Rightarrow> bad
              | Some ms \<Rightarrow> (case decode_struct set_field ms dst False of None \<Rightarrow> bad | Some r \<Rightarrow> Inr r)))"

subsection \<open>Validation\<close>

definition isAbsoluteHTTPURL :: "parse_url \<Rightarrow> string \<Rightarrow> bool" where
  "isAbsoluteHTTPURL parse raw =
     (case parse raw of
        None \<Rightarrow> False
      | Some (sch, host) \<Rightarrow> (if sch \<noteq> ''http'' \<and> sch \<noteq> ''https'' then False else host \<noteq> []))"

definition isJSONObject :: "json \<Rightarrow> bool" where
  "isJSONObject v = (case v of JObj _ \<Rightarrow> True | _ \<Rightarrow> False)"

definition defaultConfig :: "string \<Rightarrow> string" where
  "defaultConfig raw = (if length raw = 0 then ''{}'' else raw)"

text \<open>\<open>Inl\<close> is the message of the first problem.\<close>

definition validateBackendValues :: "parse_url \<Rightarrow> string \<Rightarrow> string \<Rightarrow> int \<Rightarrow> int \<Rightarrow> int \<Rightarrow> string + unit" where
  "validateBackendValues parse baseURL kind priority weight maxInFlight =
     (if \<not> BackendKind_IsValid kind then Inl ''kind must be one of: openai_compatible, mock''
      else if \<not> isAbsoluteHTTPURL parse baseURL then Inl ''base_url must be an absolute http or https URL''
      else if priority < 0 then Inl ''priority must be >= 0''
      else if weight \<le> 0 then Inl ''weight must be > 0''
      else if maxInFlight \<le> 0 then Inl ''max_in_flight must be > 0''
      else Inr ())"

definition validateBackendCreate :: "parse_url \<Rightarrow> backendCreateRequest \<Rightarrow> string + unit" where
  "validateBackendCreate parse req =
     (if bc_Name req = None \<or> bc_Name req = Some [] then Inl ''name is required''
      else if bc_BaseURL req = None then Inl ''base_url is required''
      else if bc_ModelName req = None \<or> bc_ModelName req = Some [] then Inl ''model_name is required''
      else if bc_Kind req = None then Inl ''kind is required''
      else if bc_Priority req = None then Inl ''priority is required''
      else if bc_Weight req = None then Inl ''weight is required''
      else if bc_MaxInFlight req = None then Inl ''max_in_flight is required''
      else validateBackendValues parse (the (bc_BaseURL req)) (the (bc_Kind req)) (the (bc_Priority req)) (the (bc_Weight req))
             (the (bc_MaxInFlight req)))"

definition validatePolicyCreate :: "policyCreateRequest \<Rightarrow> string + unit" where
  "validatePolicyCreate req =
     (if pc_Name req = None \<or> pc_Name req = Some [] then Inl ''name is required''
      else if pc_ModelName req = None \<or> pc_ModelName req = Some [] then Inl ''model_name is required''
      else if pc_Strategy req = None \<or> pc_Strategy req = Some [] then Inl ''strategy is required''
      else if the (pc_Strategy req) \<noteq> StrategyPriorityWeighted then Inl ''strategy must be priority_weighted''
      else if pc_Config req \<noteq> None \<and> \<not> isJSONObject (the (pc_Config req)) then Inl ''config must be a JSON object''
      else Inr ())"

subsection \<open>Backend handlers\<close>

definition listBackends :: "admin_deps \<Rightarrow> control_env \<Rightarrow> ModelBackend list handler" where
  "listBackends ad e = (\<lambda>q w t.
     (Returned_normally,
      (case backend_List (ad_collate ad) e t of
         Inl err \<Rightarrow> writeInternal (ad_lib ad) q ''could not list backends'' w
       | Inr bs \<Rightarrow> writeJSON (ad_lib ad) 200 (JArr (map (toBackendResponse ad) bs)) w), t))"

definition empty_backend_create :: backendCreateRequest where
  "empty_backend_create = \<lparr>bc_Name = None, bc_BaseURL = None, bc_ModelName = None, bc_Kind = None, bc_Enabled = None,
     bc_Priority = None, bc_Weight = None, bc_MaxInFlight = None\<rparr>"

definition empty_backend_patch :: backendPatchRequest where
  "empty_backend_patch = \<lparr>bp_BaseURL = None, bp_Enabled = None, bp_Priority = None, bp_Weight = None, bp_MaxInFlight = None\<rparr>"

text \<open>The row of a validated request; id and times are set by the database.\<close>

definition backend_of_request :: "backendCreateRequest \<Rightarrow> ModelBackend" where
  "backend_of_request req =
     \<lparr>mb_ID = 0, mb_Name = the (bc_Name req), mb_BaseURL = the (bc_BaseURL req), mb_ModelName = the (bc_ModelName req),
      mb_Kind = the (ParseBackendKind (the (bc_Kind req))),
      mb_Enabled = (case bc_Enabled req of None \<Rightarrow> True | Some b \<Rightarrow> b), mb_Priority = the (bc_Priority req),
      mb_Weight = the (bc_Weight req), mb_MaxInFlight = the (bc_MaxInFlight req), mb_CreatedAt = 0, mb_UpdatedAt = 0\<rparr>"

definition createBackend :: "admin_deps \<Rightarrow> control_env \<Rightarrow> string \<Rightarrow> ModelBackend list handler" where
  "createBackend ad e body = (\<lambda>q w t.
     let lib = ad_lib ad in
     case decodeJSON ad (set_backend_create lib) empty_backend_create body q w of
       Inl w \<Rightarrow> (Returned_normally, w, t)
     | Inr req \<Rightarrow>
     case validateBackendCreate (ad_url ad) req of
       Inl msg \<Rightarrow> (Returned_normally, writeBadRequest lib q msg w, t)
     | Inr _ \<Rightarrow>
     case backend_Insert e (backend_of_request req) t of
       (Inl err, t) \<Rightarrow>
         (Returned_normally,
          (if IsUniqueViolation err
           then httperror_Write lib (rq_requestID q) 409 CodeConflict ''a backend with that name already exists'' w
           else writeInternal lib q ''could not create backend'' w), t)
     | (Inr created, t) \<Rightarrow> (Returned_normally, writeJSON lib 201 (toBackendResponse ad created) w, t))"

definition patched_backend :: "backendPatchRequest \<Rightarrow> ModelBackend \<Rightarrow> ModelBackend" where
  "patched_backend req b =
     (let b = (case bp_BaseURL req of None \<Rightarrow> b | Some x \<Rightarrow> b\<lparr>mb_BaseURL := x\<rparr>);
          b = (case bp_Enabled req of None \<Rightarrow> b | Some x \<Rightarrow> b\<lparr>mb_Enabled := x\<rparr>);
          b = (case bp_Priority req of None \<Rightarrow> b | Some x \<Rightarrow> b\<lparr>mb_Priority := x\<rparr>);
          b = (case bp_Weight req of None \<Rightarrow> b | Some x \<Rightarrow> b\<lparr>mb_Weight := x\<rparr>)
      in (case bp_MaxInFlight req of None \<Rightarrow> b | Some x \<Rightarrow> b\<lparr>mb_MaxInFlight := x\<rparr>))"

text \<open>Up to the load, on the table at that moment: the response already written, or the request and the row.\<close>

definition patch_backend_load ::
  "admin_deps \<Rightarrow> control_env \<Rightarrow> string \<Rightarrow> string \<Rightarrow> http_request \<Rightarrow> response_writer \<Rightarrow> ModelBackend list
     \<Rightarrow> response_writer + backendPatchRequest \<times> ModelBackend" where
  "patch_backend_load ad e urlParam body q w t =
     (let lib = ad_lib ad in
      case parseID lib (ad_uuid_Parse ad) urlParam q w of
        Inl w \<Rightarrow> Inl w
      | Inr i \<Rightarrow>
      case decodeJSON ad (set_backend_patch lib) empty_backend_patch body q w of
        Inl w \<Rightarrow> Inl w
      | Inr req \<Rightarrow>
      case backend_GetByID e i t of
        Inl err \<Rightarrow> Inl (if err = DB_ErrNotFound then writeNotFound lib q ''backend not found'' w
                        else writeInternal lib q ''could not load backend'' w)
      | Inr current \<Rightarrow> Inr (req, current))"

text \<open>From the load to the response, on the table at the write.\<close>

definition patch_backend_store ::
  "admin_deps \<Rightarrow> control_env \<Rightarrow> backendPatchRequest \<Rightarrow> ModelBackend \<Rightarrow> ModelBackend list handler" where
  "patch_backend_store ad e req current = (\<lambda>q w t.
     let lib = ad_lib ad; b = patched_backend req current in
     case validateBackendValues (ad_url ad) (mb_BaseURL b) (BackendKind_String (mb_Kind b)) (mb_Priority b) (mb_Weight b) (mb_MaxInFlight b) of
       Inl msg \<Rightarrow> (Returned_normally, writeBadRequest lib q msg w, t)
     | Inr _ \<Rightarrow>
     case backend_Update e b t of
       (Inl err, t) \<Rightarrow>
         (Returned_normally,
          (if err = DB_ErrNotFound then writeNotFound lib q ''backend not found'' w
           else writeInternal lib q ''could not update backend'' w), t)
     | (Inr updated, t) \<Rightarrow> (Returned_normally, writeJSON lib 200 (toBackendResponse ad updated) w, t))"

definition patchBackend ::
  "admin_deps \<Rightarrow> control_env \<Rightarrow> control_env \<Rightarrow> string \<Rightarrow> string \<Rightarrow> (ModelBackend list \<Rightarrow> ModelBackend list) \<Rightarrow> ModelBackend list handler" where
  "patchBackend ad e e' urlParam body others = (\<lambda>q w t.
     case patch_backend_load ad e urlParam body q w t of
       Inl w \<Rightarrow> (Returned_normally, w, t)
     | Inr (req, current) \<Rightarrow> patch_backend_store ad e' req current q w (others t))"

subsection \<open>Routing policy handlers\<close>

definition listPolicies :: "admin_deps \<Rightarrow> control_env \<Rightarrow> RoutingPolicy list handler" where
  "listPolicies ad e = (\<lambda>q w t.
     (Returned_normally,
      (case policy_List (ad_collate ad) e t of
         Inl err \<Rightarrow> writeInternal (ad_lib ad) q ''could not list routing policies'' w
       | Inr ps \<Rightarrow> write_value (ad_lib ad) 200 (map_option JArr (those (map (toPolicyResponse ad) ps))) w), t))"

definition empty_policy_create :: policyCreateRequest where
  "empty_policy_create = \<lparr>pc_Name = None, pc_ModelName = None, pc_Strategy = None, pc_Config = None, pc_Enabled = None\<rparr>"

definition empty_policy_patch :: policyPatchRequest where
  "empty_policy_patch = \<lparr>pp_Config = None, pp_Enabled = None\<rparr>"

definition config_bytes :: "admin_deps \<Rightarrow> json option \<Rightarrow> string" where
  "config_bytes ad c = (case c of None \<Rightarrow> [] | Some v \<Rightarrow> ad_raw ad v)"

definition policy_of_request :: "admin_deps \<Rightarrow> policyCreateRequest \<Rightarrow> RoutingPolicy" where
  "policy_of_request ad req =
     \<lparr>rp_ID = 0, rp_Name = the (pc_Name req), rp_ModelName = the (pc_ModelName req), rp_Strategy = the (pc_Strategy req),
      rp_Config = defaultConfig (config_bytes ad (pc_Config req)),
      rp_Enabled = (case pc_Enabled req of None \<Rightarrow> True | Some b \<Rightarrow> b), rp_CreatedAt = 0, rp_UpdatedAt = 0\<rparr>"

definition createPolicy :: "admin_deps \<Rightarrow> control_env \<Rightarrow> string \<Rightarrow> RoutingPolicy list handler" where
  "createPolicy ad e body = (\<lambda>q w t.
     let lib = ad_lib ad in
     case decodeJSON ad set_policy_create empty_policy_create body q w of
       Inl w \<Rightarrow> (Returned_normally, w, t)
     | Inr req \<Rightarrow>
     case validatePolicyCreate req of
       Inl msg \<Rightarrow> (Returned_normally, writeBadRequest lib q msg w, t)
     | Inr _ \<Rightarrow>
     case policy_Insert (ad_pg ad) e (policy_of_request ad req) t of
       (Inl err, t) \<Rightarrow>
         (Returned_normally,
          (if IsUniqueViolation err
           then httperror_Write lib (rq_requestID q) 409 CodeConflict ''a routing policy with that name already exists'' w
           else writeInternal lib q ''could not create routing policy'' w), t)
     | (Inr created, t) \<Rightarrow> (Returned_normally, write_value lib 201 (toPolicyResponse ad created) w, t))"

definition patch_policy_load ::
  "admin_deps \<Rightarrow> control_env \<Rightarrow> string \<Rightarrow> string \<Rightarrow> http_request \<Rightarrow> response_writer \<Rightarrow> RoutingPolicy list
     \<Rightarrow> response_writer + policyPatchRequest \<times> RoutingPolicy" where
  "patch_policy_load ad e urlParam body q w t =
     (let lib = ad_lib ad in
      case parseID lib (ad_uuid_Parse ad) urlParam q w of
        Inl w \<Rightarrow> Inl w
      | Inr i \<Rightarrow>
      case decodeJSON ad set_policy_patch empty_policy_patch body q w of
        Inl w \<Rightarrow> Inl w
      | Inr req \<Rightarrow>
      case policy_GetByID e i t of
        Inl err \<Rightarrow> Inl (if err = DB_ErrNotFound then writeNotFound lib q ''routing policy not found'' w
                        else writeInternal lib q ''could not load routing policy'' w)
      | Inr current \<Rightarrow> Inr (req, current))"

definition patched_policy :: "admin_deps \<Rightarrow> policyPatchRequest \<Rightarrow> RoutingPolicy \<Rightarrow> RoutingPolicy" where
  "patched_policy ad req p =
     (let p = (case pp_Config req of None \<Rightarrow> p | Some v \<Rightarrow> p\<lparr>rp_Config := ad_raw ad v\<rparr>)
      in (case pp_Enabled req of None \<Rightarrow> p | Some b \<Rightarrow> p\<lparr>rp_Enabled := b\<rparr>))"

definition patch_policy_store ::
  "admin_deps \<Rightarrow> control_env \<Rightarrow> policyPatchRequest \<Rightarrow> RoutingPolicy \<Rightarrow> RoutingPolicy list handler" where
  "patch_policy_store ad e req current = (\<lambda>q w t.
     let lib = ad_lib ad in
     if pp_Config req \<noteq> None \<and> \<not> isJSONObject (the (pp_Config req))
     then (Returned_normally, writeBadRequest lib q ''config must be a JSON object'' w, t)
     else case policy_Update (ad_pg ad) e (patched_policy ad req current) t of
       (Inl err, t) \<Rightarrow>
         (Returned_normally,
          (if err = DB_ErrNotFound then writeNotFound lib q ''routing policy not found'' w
           else writeInternal lib q ''could not update routing policy'' w), t)
     | (Inr updated, t) \<Rightarrow> (Returned_normally, write_value lib 200 (toPolicyResponse ad updated) w, t))"

definition patchPolicy ::
  "admin_deps \<Rightarrow> control_env \<Rightarrow> control_env \<Rightarrow> string \<Rightarrow> string \<Rightarrow> (RoutingPolicy list \<Rightarrow> RoutingPolicy list) \<Rightarrow> RoutingPolicy list handler" where
  "patchPolicy ad e e' urlParam body others = (\<lambda>q w t.
     case patch_policy_load ad e urlParam body q w t of
       Inl w \<Rightarrow> (Returned_normally, w, t)
     | Inr (req, current) \<Rightarrow> patch_policy_store ad e' req current q w (others t))"


subsection \<open>Creating a backend\<close>

lemma kind_roundtrip: "BackendKind_IsValid k \<Longrightarrow> ParseBackendKind k \<noteq> None" "BackendKind_IsValid (BackendKind_String b)"
  by (auto simp: BackendKind_IsValid_def ParseBackendKind_def) (cases b; simp)

text \<open>The validation covers the CHECK constraints of the table.\<close>

lemma validated_checks:
  assumes "validateBackendCreate parse req = Inr u"
  shows "backend_checks (backend_of_request req) \<and> bc_Name req = Some (mb_Name (backend_of_request req)) \<and> mb_Name (backend_of_request req) \<noteq> []
    \<and> Some (BackendKind_String (mb_Kind (backend_of_request req))) = bc_Kind req"
proof -
  have "BackendKind_String (the (ParseBackendKind k)) = k" if "BackendKind_IsValid k" for k
    using that by (auto simp: BackendKind_IsValid_def ParseBackendKind_def)
  then show ?thesis using assms
    by (auto simp: validateBackendCreate_def validateBackendValues_def backend_checks_def backend_of_request_def split: if_splits)
qed

definition int4s :: "ModelBackend \<Rightarrow> bool" where
  "int4s b \<longleftrightarrow> fits_int4 (mb_Priority b) \<and> fits_int4 (mb_Weight b) \<and> fits_int4 (mb_MaxInFlight b)"


subsection \<open>Patching a backend\<close>

lemma patched_identity:
  "mb_ID (patched_backend req b) = mb_ID b" "mb_Name (patched_backend req b) = mb_Name b" "mb_ModelName (patched_backend req b) = mb_ModelName b"
  "mb_Kind (patched_backend req b) = mb_Kind b"
  by (simp_all add: patched_backend_def Let_def split: option.splits)

lemma patched_fields:
  "mb_BaseURL (patched_backend req b) = (case bp_BaseURL req of None \<Rightarrow> mb_BaseURL b | Some x \<Rightarrow> x)"
  "mb_Enabled (patched_backend req b) = (case bp_Enabled req of None \<Rightarrow> mb_Enabled b | Some x \<Rightarrow> x)"
  "mb_Priority (patched_backend req b) = (case bp_Priority req of None \<Rightarrow> mb_Priority b | Some x \<Rightarrow> x)"
  "mb_Weight (patched_backend req b) = (case bp_Weight req of None \<Rightarrow> mb_Weight b | Some x \<Rightarrow> x)"
  "mb_MaxInFlight (patched_backend req b) = (case bp_MaxInFlight req of None \<Rightarrow> mb_MaxInFlight b | Some x \<Rightarrow> x)"
  by (simp_all add: patched_backend_def Let_def split: option.splits)

text \<open>What a PATCH that answers 200 did to the table it wrote to.\<close>

lemma patch_store_200:
  assumes "patch_backend_store ad e req current q w t = (out, w', t')" and "rw_sent w = None" and "sent_status w' = Some 200"
  shows "cx_fault e = NoFault \<and> mb_ID current \<in> mb_ID ` set t
    \<and> t' = map (\<lambda>x. if mb_ID x = mb_ID current then assign_backend (cx_now e) (patched_backend req current) x else x) t"
proof -
  have st: "sent_status (httperror_Write lib rid s code m w) = Some s" for lib rid s code m
    using assms(2) by (simp add: sent_status_def httperror_Write_sent)
  then obtain u where "backend_Update e (patched_backend req current) t = (Inr u, t')"
    using assms(1,3) by (auto simp: patch_backend_store_def Let_def writeBadRequest_def writeNotFound_def writeInternal_def
        split: sum.splits prod.splits if_splits)
  then have f: "cx_fault e = NoFault" and s: "backend_update_sql e (patched_backend req current) t = (Inr u, t')"
    by (auto simp: backend_Update_def scanned_def exec_sql_Inr split: prod.splits sum.splits)
  then obtain old where old: "find (\<lambda>x. mb_ID x = mb_ID current) t = Some old"
    by (auto simp: backend_update_sql_def update_row_def patched_identity split: if_splits option.splits)
  then have "mb_ID current \<in> mb_ID ` set t" by (auto simp: find_Some_iff) (metis imageI nth_mem)
  then show ?thesis using f s old by (auto simp: backend_update_sql_def update_row_def patched_identity split: if_splits)
qed


text \<open>C38: Concurrent PATCHes overwrite each other. Whatever was written to the row between the load and the write of a PATCH
  that answers 200, afterwards every field absent from its body has the value the PATCH loaded, not the value stored
  in between: a change another request made meanwhile, and was told had succeeded, is undone.\<close>

theorem concurrent_patch_reverts_fields:
  assumes "patch_backend_load ad e urlParam body q w t = Inr (req, current)"
    and "patchBackend ad e e' urlParam body others q w t = (out, w', t')" and "rw_sent w = None" and "sent_status w' = Some 200"
    and "row \<in> set t'" and "mb_ID row = mb_ID current"
  shows "(bp_Enabled req = None \<longrightarrow> mb_Enabled row = mb_Enabled current) \<and> (bp_BaseURL req = None \<longrightarrow> mb_BaseURL row = mb_BaseURL current)
    \<and> (bp_Priority req = None \<longrightarrow> mb_Priority row = mb_Priority current) \<and> (bp_Weight req = None \<longrightarrow> mb_Weight row = mb_Weight current)
    \<and> (bp_MaxInFlight req = None \<longrightarrow> mb_MaxInFlight row = mb_MaxInFlight current)"
proof -
  have st: "patch_backend_store ad e' req current q w (others t) = (out, w', t')" using assms(1,2) by (simp add: patchBackend_def)
  from patch_store_200 [OF st assms(3,4)] assms(5,6) obtain x where "row = assign_backend (cx_now e') (patched_backend req current) x"
    by auto
  then show ?thesis by (simp add: assign_backend_def patched_fields split: option.splits)
qed

lemma Select_from_list:
  assumes "Select intn policies backends clk model exclude s br = Some (Inr (sel, h), s', br')" and "backends model = Inr list"
    and "intn_ok intn"
  shows "sel_Backend sel \<in> set list"
proof -
  obtain r' ordered where o: "order intn (rng s) (filter routable list) = Some (r', ordered)"
    "fst (select_loop clk exclude ordered (s\<lparr>rng := r'\<rparr>) br) = Some (sel_Backend sel, h)"
    using assms(1,2) by (auto simp: Select_def Let_def split: sum.splits prod.splits if_splits option.splits)
  have "\<forall>b \<in> set (filter routable list). 0 < mb_Weight b" by (auto simp: routable_def)
  from order_set [OF assms(3) this o(1)] show ?thesis using select_loop_Some [OF o(2)] by auto
qed

text \<open>C21: Disabling takes effect at once. After a PATCH that sets \<open>enabled\<close> to false and answers 200, no selection that reads
  the table, for any model, caller history, breaker and semaphore state, hands out that backend; what is handed out
  is an enabled backend of the requested model.\<close>

theorem disabled_backend_is_not_selected:
  assumes "table_inv mb_ID mb_Name t" and "patch_backend_load ad e urlParam body q w t = Inr (req, current)" and "bp_Enabled req = Some False"
    and "patchBackend ad e e' urlParam body (\<lambda>t. t) q w t = (out, w', t')" and "rw_sent w = None" and "sent_status w' = Some 200"
    and "intn_ok intn"
    and "Select intn policies (backend_ListByModelEnabled coll e'' t') clk model exclude s br = Some (Inr (sel, h), s', br')"
  shows "mb_ID (sel_Backend sel) \<noteq> mb_ID current \<and> sel_Backend sel \<in> set t' \<and> mb_Enabled (sel_Backend sel) \<and> mb_ModelName (sel_Backend sel) = model"
proof -
  have st: "patch_backend_store ad e' req current q w t = (out, w', t')" using assms(2,4) by (simp add: patchBackend_def)
  note p = patch_store_200 [OF st assms(5,6)]
  obtain list where l: "backend_ListByModelEnabled coll e'' t' model = Inr list"
    using assms(8) by (auto simp: Select_def split: sum.splits prod.splits)
  have rows: "set list = {b \<in> set t'. mb_ModelName b = model \<and> mb_Enabled b}"
    using l by (cases "cx_fault e''") (auto simp: backend_ListByModelEnabled_def list_rows_def)
  have "sel_Backend sel \<in> set list" using Select_from_list [OF assms(8) l assms(7)] .
  moreover have "x \<in> set t' \<Longrightarrow> mb_ID x = mb_ID current \<Longrightarrow> \<not> mb_Enabled x" for x
    using p assms(3) by (auto simp: assign_backend_def patched_fields)
  ultimately show ?thesis using rows by auto
qed


subsection \<open>A sample\<close>

text \<open>A create body with a priority of 2 to the power 31, and a PATCH body that disables a backend.\<close>

definition sample_create_body :: "(string \<times> json) list" where
  "sample_create_body = [(''name'', JStr ''n''), (''base_url'', JStr ''http://h''), (''model_name'', JStr ''m''), (''kind'', JStr ''mock''),
     (''priority'', JNum ''p''), (''weight'', JNum ''1''), (''max_in_flight'', JNum ''1'')]"

definition sample_ad :: "(string \<times> json) list \<Rightarrow> admin_deps" where
  "sample_ad ms = \<lparr>ad_lib = sample_json_lib\<lparr>parse_int := (\<lambda>s. if s = ''p'' then Some (2 ^ 31) else Some 1)\<rparr>,
     ad_decode = (\<lambda>_ _. DecValue (JObj ms)), ad_raw = (\<lambda>_. ''{}''), ad_whole = (\<lambda>_. Some (JObj [])),
     ad_url = (\<lambda>_. Some (''http'', ''h'')), ad_uuid_Parse = (\<lambda>_. Some 2), ad_uuid_String = (\<lambda>_. ''u''),
     ad_time_json = (\<lambda>_. JNull), ad_pg = \<lparr>pg_jsonb = Some, pg_interval = (\<lambda>d. d)\<rparr>, ad_collate = (\<lambda>s. s)\<rparr>"

definition sample_ce :: control_env where
  "sample_ce = \<lparr>cx_fault = NoFault, cx_now = 9, cx_new = 7\<rparr>"

definition sample_create_request :: backendCreateRequest where
  "sample_create_request = \<lparr>bc_Name = Some ''n'', bc_BaseURL = Some ''http://h'', bc_ModelName = Some ''m'', bc_Kind = Some ''mock'',
     bc_Enabled = None, bc_Priority = Some (2 ^ 31), bc_Weight = Some 1, bc_MaxInFlight = Some 1\<rparr>"

lemma sample_create_decodes:
  "decodeJSON (sample_ad sample_create_body) (set_backend_create (ad_lib (sample_ad sample_create_body))) empty_backend_create body q w
     = Inr sample_create_request"
proof -
  have "decode_struct (set_backend_create (sample_json_lib\<lparr>parse_int := (\<lambda>s. if s = ''p'' then Some (2 ^ 31) else Some 1)\<rparr>))
      sample_create_body empty_backend_create False = Some sample_create_request"
    by code_simp
  then show ?thesis by (simp add: decodeJSON_def sample_ad_def Let_def)
qed


definition sample_rows2 :: "ModelBackend list" where
  "sample_rows2 = [sample_backend 2 ''b'' 10 3, sample_backend 3 ''c'' 20 1]"

definition sample_patch :: "backendPatchRequest" where
  "sample_patch = empty_backend_patch\<lparr>bp_Enabled := Some False\<rparr>"

lemma sample_patch_load:
  "patch_backend_load (sample_ad [(''enabled'', JBool False)]) sample_ce ''2'' body q w sample_rows2 = Inr (sample_patch, sample_backend 2 ''b'' 10 3)"
proof -
  have "decode_struct (set_backend_patch lib) [(''enabled'', JBool False)] empty_backend_patch False = Some sample_patch" for lib
    by (simp add: set_backend_patch_def names_field_def store_ptr_def sample_patch_def)
  then show ?thesis
    by (simp add: patch_backend_load_def parseID_def decodeJSON_def sample_ad_def backend_GetByID_def get_row_def scanned_def sample_ce_def
        sample_rows2_def sample_backend_def Let_def)
qed

lemma sample_keys: "map mb_Name sample_rows2 = [''b'', ''c'']" "map mb_ID sample_rows2 = [2, 3]"
  "map mb_Name (map (\<lambda>b. if mb_ID b = 2 then b\<lparr>mb_Priority := 99\<rparr> else b) sample_rows2) = [''b'', ''c'']"
  "map mb_ID (map (\<lambda>b. if mb_ID b = 2 then b\<lparr>mb_Priority := 99\<rparr> else b) sample_rows2) = [2, 3]"
  by (simp_all add: sample_rows2_def sample_backend_def)

lemma sample_patch_200:
  assumes "map mb_Name (others sample_rows2) = [''b'', ''c'']" and "map mb_ID (others sample_rows2) = [2, 3]"
  shows "\<exists>w' t'. patchBackend (sample_ad [(''enabled'', JBool False)]) sample_ce sample_ce ''2'' body others q fresh_writer sample_rows2 = (Returned_normally, w', t')
     \<and> sent_status w' = Some 200"
proof -
  obtain r1 r2 where o: "others sample_rows2 = [r1, r2]" "mb_ID r1 = 2" "mb_ID r2 = 3" "mb_Name r2 = ''c''" "mb_Name r1 = ''b''"
    using assms by (cases "others sample_rows2"; cases "tl (others sample_rows2)") auto
  have v: "validateBackendValues (ad_url (sample_ad [(''enabled'', JBool False)])) ''http://h'' (BackendKind_String BackendKindMock) 10 3 1 = Inr ()" by code_simp
  have p: "patched_backend sample_patch (sample_backend 2 ''b'' 10 3) = (sample_backend 2 ''b'' 10 3)\<lparr>mb_Enabled := False\<rparr>"
    by (simp add: patched_backend_def sample_patch_def empty_backend_patch_def Let_def)
  have s: "patchBackend (sample_ad [(''enabled'', JBool False)]) sample_ce sample_ce ''2'' body others q fresh_writer sample_rows2 =
      patch_backend_store (sample_ad [(''enabled'', JBool False)]) sample_ce sample_patch (sample_backend 2 ''b'' 10 3) q fresh_writer (others sample_rows2)"
    by (simp add: patchBackend_def sample_patch_load)
  show ?thesis unfolding s patch_backend_store_def Let_def p using o v
    by (simp add: sample_backend_def backend_Update_def backend_update_sql_def
        fits_int4_def backend_checks_def update_row_def scanned_def sample_ce_def assign_backend_def sent_status_def writeJSON_sent fresh_writer_def Let_def)
qed


text \<open>Between the load and the write another PATCH set the priority of the same backend to 99: that change is gone.\<close>

theorem concurrent_patch_reverts_fields_witness:
  "\<exists>w' t' row. patchBackend (sample_ad [(''enabled'', JBool False)]) sample_ce sample_ce ''2'' []
        (map (\<lambda>b. if mb_ID b = 2 then b\<lparr>mb_Priority := 99\<rparr> else b)) sample_http_request fresh_writer sample_rows2 = (Returned_normally, w', t')
     \<and> sent_status w' = Some 200 \<and> row \<in> set t' \<and> mb_ID row = 2 \<and> mb_Priority row = 10"
proof -
  let ?o = "map (\<lambda>b. if mb_ID b = 2 then b\<lparr>mb_Priority := 99\<rparr> else b)"
  obtain w' t' where p: "patchBackend (sample_ad [(''enabled'', JBool False)]) sample_ce sample_ce ''2'' [] ?o sample_http_request fresh_writer sample_rows2
       = (Returned_normally, w', t')" "sent_status w' = Some 200"
    using sample_patch_200 [of ?o "[]" sample_http_request] sample_keys by auto
  have st: "patch_backend_store (sample_ad [(''enabled'', JBool False)]) sample_ce sample_patch (sample_backend 2 ''b'' 10 3) sample_http_request fresh_writer
      (?o sample_rows2) = (Returned_normally, w', t')"
    using p(1) sample_patch_load by (simp add: patchBackend_def)
  have "rw_sent fresh_writer = None" by (simp add: fresh_writer_def)
  from patch_store_200 [OF st this p(2)] have "map mb_ID t' = map mb_ID (?o sample_rows2)" by (auto simp: assign_backend_def)
  then have "2 \<in> set (map mb_ID t')" unfolding sample_keys by simp
  then obtain row where row: "row \<in> set t'" "mb_ID row = mb_ID (sample_backend 2 ''b'' 10 3)" by (auto simp: sample_backend_def)
  from concurrent_patch_reverts_fields [OF sample_patch_load p(1) _ p(2) row] p row show ?thesis
    by (intro exI [of _ w'] exI [of _ t'] exI [of _ row]) (simp add: fresh_writer_def sample_patch_def empty_backend_patch_def sample_backend_def)
qed


definition sample_after_patch :: "ModelBackend list" where
  "sample_after_patch = [(sample_backend 2 ''b'' 10 3)\<lparr>mb_Enabled := False, mb_UpdatedAt := 9\<rparr>, sample_backend 3 ''c'' 20 1]"

lemma sample_select_after:
  "map_option fst (Select zero_intn sample_policies (backend_ListByModelEnabled (\<lambda>s. s) sample_ce sample_after_patch) (\<lambda>_. 5) ''m'' []
      (NewSelector True ()) sample_breaker)
   = Some (Inr (\<lparr>sel_Backend = sample_backend 3 ''c'' 20 1, sel_PolicyName = fallbackPolicyName, sel_Strategy = fallbackStrategy\<rparr>, 0))"
  by code_simp

theorem disabled_backend_is_not_selected_witness:
  "\<exists>w' t' sel h s' br'. patchBackend (sample_ad [(''enabled'', JBool False)]) sample_ce sample_ce ''2'' [] (\<lambda>t. t) sample_http_request fresh_writer
        sample_rows2 = (Returned_normally, w', t')
     \<and> Select zero_intn sample_policies (backend_ListByModelEnabled (\<lambda>s. s) sample_ce t') (\<lambda>_. 5) ''m'' [] (NewSelector True ()) sample_breaker
        = Some (Inr (sel, h), s', br') \<and> mb_ID (sel_Backend sel) \<noteq> 2"
proof -
  obtain w' t' where p: "patchBackend (sample_ad [(''enabled'', JBool False)]) sample_ce sample_ce ''2'' [] (\<lambda>t. t) sample_http_request fresh_writer sample_rows2
       = (Returned_normally, w', t')" "sent_status w' = Some 200"
    using sample_patch_200 [of "\<lambda>t. t" "[]" sample_http_request] sample_keys by auto
  have st: "patch_backend_store (sample_ad [(''enabled'', JBool False)]) sample_ce sample_patch (sample_backend 2 ''b'' 10 3) sample_http_request fresh_writer
      sample_rows2 = (Returned_normally, w', t')"
    using p(1) sample_patch_load by (simp add: patchBackend_def)
  have fw: "rw_sent fresh_writer = None" by (simp add: fresh_writer_def)
  have t': "t' = sample_after_patch" using patch_store_200 [OF st fw p(2)]
    by (simp add: sample_rows2_def sample_after_patch_def assign_backend_def patched_backend_def sample_patch_def empty_backend_patch_def
        sample_backend_def sample_ce_def Let_def)
  obtain s' br' sel where sel: "Select zero_intn sample_policies (backend_ListByModelEnabled (\<lambda>s. s) sample_ce t') (\<lambda>_. 5) ''m'' []
      (NewSelector True ()) sample_breaker = Some (Inr (sel, 0), s', br')"
    using sample_select_after unfolding t' by (auto simp: prod_eq_iff)
  have inv: "table_inv mb_ID mb_Name sample_rows2" by (simp add: table_inv_def sample_rows2_def sample_backend_def)
  have "bp_Enabled sample_patch = Some False" by (simp add: sample_patch_def)
  from disabled_backend_is_not_selected [OF inv sample_patch_load this p(1) fw p(2) intn_ok_zero sel]
  have "mb_ID (sel_Backend sel) \<noteq> 2" by (simp add: sample_backend_def)
  with p(1) sel show ?thesis by blast
qed

end
