(* ===== verification/Seed.thy ===== *)
theory Seed
  imports Control_Repo Config
begin

section \<open>Seeding (internal/seed/seed.go)\<close>

text \<open>
  \<open>Run\<close> over the four control-plane tables. Each statement has its own environment; \<open>hmac\<close> is the HMAC behind
  \<open>auth.HashAPIKey\<close>. A failed statement ends the run, leaving what was written before it.
\<close>

record control_tables =
  ct_tenants :: "Tenant list"
  ct_keys :: "APIKey list"
  ct_backends :: "ModelBackend list"
  ct_policies :: "RoutingPolicy list"

definition demoTenantName :: string where "demoTenantName = ''demo''"
definition demoAPIKeyName :: string where "demoAPIKeyName = ''demo-key''"
definition demoModelName :: string where "demoModelName = ''llama-fast''"
definition fastBackendName :: string where "fastBackendName = ''mock-llm-fast''"
definition cheapBackendName :: string where "cheapBackendName = ''mock-llm-cheap''"
definition defaultPolicyName :: string where "defaultPolicyName = ''default''"

datatype seed_error = SeedTenant db_error | SeedAPIKey db_error | SeedBackend string db_error | SeedPolicy db_error

definition HashAPIKey :: "(string \<Rightarrow> string \<Rightarrow> string) \<Rightarrow> string \<Rightarrow> string \<Rightarrow> string" where
  "HashAPIKey hmac secret raw = hmac secret raw"

definition seed_backend :: "string \<Rightarrow> string \<Rightarrow> int \<Rightarrow> ModelBackend" where
  "seed_backend name url priority =
     \<lparr>mb_ID = 0, mb_Name = name, mb_BaseURL = url, mb_ModelName = demoModelName, mb_Kind = BackendKindMock, mb_Enabled = True,
      mb_Priority = priority, mb_Weight = 1, mb_MaxInFlight = 32, mb_CreatedAt = 0, mb_UpdatedAt = 0\<rparr>"

definition seed_backends :: "app_Config \<Rightarrow> ModelBackend list" where
  "seed_backends cfg =
     [seed_backend fastBackendName (SeedBackendFastURL cfg) 10, seed_backend cheapBackendName (SeedBackendCheapURL cfg) 20]"

definition seed_policy :: RoutingPolicy where
  "seed_policy = \<lparr>rp_ID = 0, rp_Name = defaultPolicyName, rp_ModelName = demoModelName, rp_Strategy = StrategyPriorityWeighted,
     rp_Config = ''{}'', rp_Enabled = True, rp_CreatedAt = 0, rp_UpdatedAt = 0\<rparr>"

text \<open>The loop over the backends; the \<open>k\<close>-th statement of the run runs in \<open>es k\<close>.\<close>

fun seed_loop :: "(nat \<Rightarrow> control_env) \<Rightarrow> nat \<Rightarrow> ModelBackend list \<Rightarrow> ModelBackend list \<Rightarrow> (seed_error + unit) \<times> ModelBackend list" where
  "seed_loop es k [] t = (Inr (), t)"
| "seed_loop es k (b # bs) t =
     (case backend_Upsert (es k) b t of
        (Inl err, t) \<Rightarrow> (Inl (SeedBackend (mb_Name b) err), t)
      | (Inr _, t) \<Rightarrow> seed_loop es (Suc k) bs t)"

definition seed_Run ::
  "(string \<Rightarrow> string \<Rightarrow> string) \<Rightarrow> postgres \<Rightarrow> app_Config \<Rightarrow> (nat \<Rightarrow> control_env) \<Rightarrow> control_tables
     \<Rightarrow> (seed_error + unit) \<times> control_tables" where
  "seed_Run hmac pg cfg es t =
     (case tenant_Upsert (es 0) demoTenantName (ct_tenants t) of
        (Inl err, tn) \<Rightarrow> (Inl (SeedTenant err), t\<lparr>ct_tenants := tn\<rparr>)
      | (Inr tenant, tn) \<Rightarrow>
     let t = t\<lparr>ct_tenants := tn\<rparr> in
     case apikey_Upsert (es 1) tn (tn_ID tenant) demoAPIKeyName (HashAPIKey hmac (AppKeyHashSecret cfg) (DevAPIKey cfg)) (ct_keys t) of
        (Inl err, ks) \<Rightarrow> (Inl (SeedAPIKey err), t\<lparr>ct_keys := ks\<rparr>)
      | (Inr _, ks) \<Rightarrow>
     let t = t\<lparr>ct_keys := ks\<rparr> in
     case seed_loop es 2 (seed_backends cfg) (ct_backends t) of
        (Inl err, bs) \<Rightarrow> (Inl err, t\<lparr>ct_backends := bs\<rparr>)
      | (Inr _, bs) \<Rightarrow>
     let t = t\<lparr>ct_backends := bs\<rparr> in
     case policy_Upsert pg (es 4) seed_policy (ct_policies t) of
        (Inl err, ps) \<Rightarrow> (Inl (SeedPolicy err), t\<lparr>ct_policies := ps\<rparr>)
      | (Inr _, ps) \<Rightarrow> (Inr (), t\<lparr>ct_policies := ps\<rparr>))"

subsection \<open>One upsert\<close>

text \<open>The row with a key, if there is one: tables with a unique key as maps.\<close>

definition row_with :: "('r \<Rightarrow> 'k) \<Rightarrow> 'k \<Rightarrow> 'r list \<Rightarrow> 'r option" where
  "row_with keyf k t = find (\<lambda>r. keyf r = k) t"

lemma find_replaced:
  assumes "\<And>x. keyf x = k \<Longrightarrow> keyf (f x) = k"
  shows "find (\<lambda>r. keyf r = k') (map (\<lambda>x. if keyf x = k then f x else x) t)
     = (if k' = k then map_option f (find (\<lambda>r. keyf r = k) t) else find (\<lambda>r. keyf r = k') t)"
  using assms by (induction t) auto

lemma find_append_other: "find P (t @ [r]) = (case find P t of None \<Rightarrow> (if P r then Some r else None) | Some x \<Rightarrow> Some x)"
  by (induction t) auto

text \<open>An upsert that succeeds sets exactly its own key: to the old row after the assignments, or to the new row.\<close>

lemma upsert_row_with:
  assumes "upsert_row idf keyf assign r t = (Inr x, t')" and "\<And>old. keyf old = keyf r \<Longrightarrow> keyf (assign old) = keyf r"
  shows "row_with keyf k t' = (if k = keyf r then Some (case row_with keyf (keyf r) t of None \<Rightarrow> r | Some old \<Rightarrow> assign old) else row_with keyf k t)
    \<and> x = (case row_with keyf (keyf r) t of None \<Rightarrow> r | Some old \<Rightarrow> assign old)"
proof (cases "find (\<lambda>x. keyf x = keyf r) t")
  case None
  then have "t' = t @ [r]" "x = r" using assms(1) by (auto simp: upsert_row_def insert_row_def split: if_splits)
  then show ?thesis using None by (auto simp: row_with_def find_append_other split: option.splits)
next
  case (Some old)
  then have "t' = map (\<lambda>x. if keyf x = keyf r then assign x else x) t" "x = assign old" using assms(1) by (auto simp: upsert_row_def)
  then show ?thesis using Some find_replaced [of keyf "keyf r" assign k t] assms(2) by (auto simp: row_with_def)
qed

lemma upsert_row_ok: "keyf r \<in> set (map keyf t) \<or> idf r \<notin> set (map idf t) \<Longrightarrow> \<exists>x t'. upsert_row idf keyf assign r t = (Inr x, t')"
  by (auto simp: upsert_row_def insert_row_def find_None_iff split: option.splits)

lemma scanned_Inr [simp]: "scanned res = (Inr x, t) \<longleftrightarrow> res = (Inr x, t)"
  by (auto simp: scanned_def split: prod.splits sum.splits)

lemma row_with_in: "row_with keyf k t = Some x \<Longrightarrow> x \<in> set t \<and> keyf x = k"
  by (auto simp: row_with_def find_Some_iff)

lemma row_with_None: "row_with keyf k t = None \<longleftrightarrow> k \<notin> keyf ` set t"
  by (auto simp: row_with_def find_None_iff)

subsection \<open>What a successful run has written\<close>

text \<open>The row an upsert of \<open>r\<close> leaves under the key of \<open>r\<close>.\<close>

definition upserted :: "('r \<Rightarrow> 'k) \<Rightarrow> ('r \<Rightarrow> 'r) \<Rightarrow> 'r \<Rightarrow> 'r list \<Rightarrow> 'r" where
  "upserted keyf assign r t = (case row_with keyf (keyf r) t of None \<Rightarrow> r | Some old \<Rightarrow> assign old)"

lemma upsert_row_Inr:
  assumes "upsert_row idf keyf assign r t = (Inr x, t')" and "\<And>old. keyf old = keyf r \<Longrightarrow> keyf (assign old) = keyf r"
  shows "row_with keyf k t' = (if k = keyf r then Some x else row_with keyf k t)" "x = upserted keyf assign r t"
  using upsert_row_with [OF assms] by (simp_all add: upserted_def)

lemma upsert_row_ids:
  assumes "upsert_row idf keyf assign r t = (Inr x, t')" and "\<And>old. idf (assign old) = idf old"
  shows "set (map idf t') \<subseteq> insert (idf r) (set (map idf t))"
  using assms by (auto simp: upsert_row_def insert_row_def split: option.splits if_splits)

lemma tenant_Upsert_Inr:
  assumes "tenant_Upsert e name t = (Inr x, t')"
  shows "row_with tn_Name k t' = (if k = name then Some x else row_with tn_Name k t)" "x \<in> set t'"
proof -
  have up: "upsert_row tn_ID tn_Name (\<lambda>old. old\<lparr>tn_Name := name, tn_UpdatedAt := cx_now e\<rparr>)
     \<lparr>tn_ID = cx_new e, tn_Name = name, tn_CreatedAt = cx_now e, tn_UpdatedAt = cx_now e\<rparr> t = (Inr x, t')"
    using assms by (simp add: tenant_Upsert_def exec_sql_Inr)
  show row: "row_with tn_Name k t' = (if k = name then Some x else row_with tn_Name k t)" for k
    using upsert_row_Inr(1) [OF up, of k] by simp
  show "x \<in> set t'" using row [of name] row_with_in by fastforce
qed

lemma apikey_Upsert_Inr:
  assumes "apikey_Upsert e tenants i name h t = (Inr x, t')"
  shows "row_with ak_KeyHash k t' = (if k = h then Some x else row_with ak_KeyHash k t)"
    "ak_Name x = name \<and> ak_KeyHash x = h \<and> ak_TenantID x = (case row_with ak_KeyHash h t of None \<Rightarrow> i | Some old \<Rightarrow> ak_TenantID old)"
proof -
  let ?assign = "\<lambda>old. old\<lparr>ak_Name := name, ak_UpdatedAt := cx_now e\<rparr>"
  let ?r = "\<lparr>ak_ID = cx_new e, ak_TenantID = i, ak_Name = name, ak_KeyHash = h, ak_CreatedAt = cx_now e, ak_UpdatedAt = cx_now e\<rparr>"
  have up: "upsert_row ak_ID ak_KeyHash ?assign ?r t = (Inr x, t')"
    using assms by (simp add: apikey_Upsert_def apikey_upsert_sql_def exec_sql_Inr split: if_splits)
  show "row_with ak_KeyHash k t' = (if k = h then Some x else row_with ak_KeyHash k t)"
    using upsert_row_Inr(1) [OF up, of k] by simp
  have "x = upserted ak_KeyHash ?assign ?r t" using upsert_row_Inr(2) [OF up] by simp
  then show "ak_Name x = name \<and> ak_KeyHash x = h \<and> ak_TenantID x = (case row_with ak_KeyHash h t of None \<Rightarrow> i | Some old \<Rightarrow> ak_TenantID old)"
    using row_with_in [of ak_KeyHash h t] by (auto simp: upserted_def split: option.splits)
qed

text \<open>Equal up to the generated id and the times.\<close>

definition same_backend :: "ModelBackend \<Rightarrow> ModelBackend \<Rightarrow> bool" where
  "same_backend b x \<longleftrightarrow> x = b\<lparr>mb_ID := mb_ID x, mb_CreatedAt := mb_CreatedAt x, mb_UpdatedAt := mb_UpdatedAt x\<rparr>"

definition same_policy :: "RoutingPolicy \<Rightarrow> RoutingPolicy \<Rightarrow> bool" where
  "same_policy p x \<longleftrightarrow> x = p\<lparr>rp_ID := rp_ID x, rp_CreatedAt := rp_CreatedAt x, rp_UpdatedAt := rp_UpdatedAt x\<rparr>"

lemma backend_Upsert_Inr:
  assumes "backend_Upsert e b t = (Inr x, t')"
  shows "row_with mb_Name k t' = (if k = mb_Name b then Some x else row_with mb_Name k t)" "same_backend b x"
proof -
  have up: "upsert_row mb_ID mb_Name (assign_backend (cx_now e) b) (fresh_backend e b) t = (Inr x, t')"
    using assms by (simp add: backend_Upsert_def checked_backend_def exec_sql_Inr split: if_splits)
  show "row_with mb_Name k t' = (if k = mb_Name b then Some x else row_with mb_Name k t)"
    using upsert_row_Inr(1) [OF up, of k] by (simp add: fresh_backend_def assign_backend_def)
  have "x = upserted mb_Name (assign_backend (cx_now e) b) (fresh_backend e b) t"
    using upsert_row_Inr(2) [OF up] by (simp add: fresh_backend_def assign_backend_def)
  then show "same_backend b x"
    by (simp add: upserted_def same_backend_def assign_backend_def fresh_backend_def split: option.splits)
qed

lemma policy_Upsert_Inr:
  assumes "policy_Upsert pg e p t = (Inr x, t')" and "pg_jsonb pg (rp_Config p) = Some (rp_Config p)" and "TrimSpace (rp_Config p) \<noteq> []"
  shows "row_with rp_Name k t' = (if k = rp_Name p then Some x else row_with rp_Name k t)" "same_policy p x"
proof -
  have "bound_policy pg p = Inr p" using assms(2,3) by (simp add: bound_policy_def bind_jsonb_def normalizeJSONB_def)
  then have up: "upsert_row rp_ID rp_Name (assign_policy (cx_now e) p) (fresh_policy e p) t = (Inr x, t')"
    using assms(1) by (simp add: policy_Upsert_def checked_policy_def exec_sql_Inr split: if_splits)
  show "row_with rp_Name k t' = (if k = rp_Name p then Some x else row_with rp_Name k t)"
    using upsert_row_Inr(1) [OF up, of k] by (simp add: fresh_policy_def assign_policy_def)
  have "x = upserted rp_Name (assign_policy (cx_now e) p) (fresh_policy e p) t"
    using upsert_row_Inr(2) [OF up] by (simp add: fresh_policy_def assign_policy_def)
  then show "same_policy p x"
    by (simp add: upserted_def same_policy_def assign_policy_def fresh_policy_def split: option.splits)
qed

text \<open>A successful run is five successful statements.\<close>

lemma seed_Run_Inr:
  "seed_Run hmac pg cfg es t = (Inr (), t') \<longleftrightarrow>
     (\<exists>tenant tn key ks b1 bs1 b2 bs2 pol ps. tenant_Upsert (es 0) demoTenantName (ct_tenants t) = (Inr tenant, tn)
       \<and> apikey_Upsert (es 1) tn (tn_ID tenant) demoAPIKeyName (HashAPIKey hmac (AppKeyHashSecret cfg) (DevAPIKey cfg)) (ct_keys t) = (Inr key, ks)
       \<and> backend_Upsert (es 2) (seed_backend fastBackendName (SeedBackendFastURL cfg) 10) (ct_backends t) = (Inr b1, bs1)
       \<and> backend_Upsert (es 3) (seed_backend cheapBackendName (SeedBackendCheapURL cfg) 20) bs1 = (Inr b2, bs2)
       \<and> policy_Upsert pg (es 4) seed_policy (ct_policies t) = (Inr pol, ps)
       \<and> t' = t\<lparr>ct_tenants := tn, ct_keys := ks, ct_backends := bs2, ct_policies := ps\<rparr>)"
  by (simp add: seed_Run_def seed_backends_def Let_def eval_nat_numeral split: prod.split sum.split) metis

lemmas seed_Run_steps = seed_Run_Inr [THEN iffD1]

subsection \<open>Success and repetition\<close>

lemma tenant_Upsert_ok:
  "cx_fault e = NoFault \<Longrightarrow> name \<in> set (map tn_Name t) \<or> cx_new e \<notin> set (map tn_ID t) \<Longrightarrow> \<exists>x t'. tenant_Upsert e name t = (Inr x, t')"
  unfolding tenant_Upsert_def scanned_Inr exec_sql_Inr by (simp add: upsert_row_ok)

lemma apikey_Upsert_ok:
  "cx_fault e = NoFault \<Longrightarrow> i \<in> set (map tn_ID tenants) \<Longrightarrow> h \<in> set (map ak_KeyHash t) \<or> cx_new e \<notin> set (map ak_ID t)
     \<Longrightarrow> \<exists>x t'. apikey_Upsert e tenants i name h t = (Inr x, t')"
  unfolding apikey_Upsert_def scanned_Inr exec_sql_Inr apikey_upsert_sql_def by (simp add: upsert_row_ok)

lemma backend_Upsert_ok:
  "cx_fault e = NoFault \<Longrightarrow> n \<in> set (map mb_Name t) \<or> cx_new e \<notin> set (map mb_ID t) \<Longrightarrow> p \<in> {10, 20}
     \<Longrightarrow> \<exists>x t'. backend_Upsert e (seed_backend n url p) t = (Inr x, t')"
  unfolding backend_Upsert_def scanned_Inr exec_sql_Inr checked_backend_def
  by (auto simp: upsert_row_ok fits_int4_def backend_checks_def seed_backend_def fresh_backend_def)

lemma backend_Upsert_ids: "backend_Upsert e b t = (Inr x, t') \<Longrightarrow> set (map mb_ID t') \<subseteq> insert (cx_new e) (set (map mb_ID t))"
  using upsert_row_ids [of mb_ID mb_Name "assign_backend (cx_now e) b" "fresh_backend e b" t x t']
  by (simp add: backend_Upsert_def checked_backend_def exec_sql_Inr assign_backend_def fresh_backend_def split: if_splits)

lemma policy_Upsert_ok:
  assumes "cx_fault e = NoFault" "rp_Name seed_policy \<in> set (map rp_Name t) \<or> cx_new e \<notin> set (map rp_ID t)" "pg_jsonb pg ''{}'' = Some ''{}''"
  shows "\<exists>x t'. policy_Upsert pg e seed_policy t = (Inr x, t')"
proof -
  have "bound_policy pg seed_policy = Inr seed_policy"
    using assms(3) by (simp add: bound_policy_def bind_jsonb_def normalizeJSONB_def seed_policy_def TrimSpace_def)
  then show ?thesis using assms(1,2) unfolding policy_Upsert_def scanned_Inr exec_sql_Inr checked_policy_def
    by (simp add: upsert_row_ok policy_checks_def fresh_policy_def) (simp add: seed_policy_def)
qed

text \<open>After an upsert all rows under its key have what the new row and the assignments have; other rows are old ones.\<close>

lemma upsert_row_all:
  assumes "upsert_row idf keyf assign r t = (Inr x, t')" and "P r" and "\<And>old. P (assign old)" and "y \<in> set t'"
  shows "if keyf y = keyf r then P y else y \<in> set t \<or> (\<exists>old \<in> set t. y = assign old \<and> keyf old = keyf r)"
proof (cases "find (\<lambda>x. keyf x = keyf r) t")
  case None
  then have "t' = t @ [r]" using assms(1) by (auto simp: upsert_row_def insert_row_def split: if_splits)
  then show ?thesis using None assms(2,4) by (auto simp: find_None_iff)
next
  case (Some old)
  then have "t' = map (\<lambda>x. if keyf x = keyf r then assign x else x) t" using assms(1) by (simp add: upsert_row_def)
  then show ?thesis using assms(3,4) by (auto split: if_splits)
qed

text \<open>An upsert that would not change what \<open>erase\<close> keeps of the rows under its key changes nothing of it.\<close>

lemma upsert_row_same:
  assumes "keyf r = k" and "k \<in> set (map keyf t)" and "\<And>x. x \<in> set t \<Longrightarrow> keyf x = k \<Longrightarrow> erase (assign x) = erase x"
  shows "\<exists>x t'. upsert_row idf keyf assign r t = (Inr x, t') \<and> map erase t' = map erase t"
proof -
  obtain old where "find (\<lambda>x. keyf x = keyf r) t = Some old"
    using assms(1,2) by (cases "find (\<lambda>x. keyf x = keyf r) t") (auto simp: find_None_iff)
  then show ?thesis using assms(1,3) by (simp add: upsert_row_def)
qed

lemma tenant_Upsert_again:
  assumes "tenant_Upsert e name t = (Inr x, t')" and "cx_fault e' = NoFault"
  shows "\<exists>x' t''. tenant_Upsert e' name t' = (Inr x', t'') \<and> map (\<lambda>r. r\<lparr>tn_UpdatedAt := 0\<rparr>) t'' = map (\<lambda>r. r\<lparr>tn_UpdatedAt := 0\<rparr>) t'"
proof -
  have "name \<in> set (map tn_Name t')" using tenant_Upsert_Inr(1) [OF assms(1), of name] row_with_None [of tn_Name name t'] by auto
  then show ?thesis unfolding tenant_Upsert_def scanned_Inr exec_sql_Inr
    using assms(2) by (auto intro!: upsert_row_same)
qed

lemma apikey_Upsert_again:
  assumes "apikey_Upsert e tenants i name h t = (Inr x, t')" and "cx_fault e' = NoFault"
  shows "\<exists>x' t''. apikey_Upsert e' tenants' i' name h t' = (Inr x', t'')
    \<and> map (\<lambda>r. r\<lparr>ak_UpdatedAt := 0\<rparr>) t'' = map (\<lambda>r. r\<lparr>ak_UpdatedAt := 0\<rparr>) t'"
proof -
  let ?assign = "\<lambda>e old. old\<lparr>ak_Name := name, ak_UpdatedAt := cx_now e\<rparr>"
  let ?r = "\<lambda>e i. \<lparr>ak_ID = cx_new e, ak_TenantID = i, ak_Name = name, ak_KeyHash = h, ak_CreatedAt = cx_now e, ak_UpdatedAt = cx_now e\<rparr>"
  have up: "upsert_row ak_ID ak_KeyHash (?assign e) (?r e i) t = (Inr x, t')"
    using assms by (simp add: apikey_Upsert_def apikey_upsert_sql_def exec_sql_Inr split: if_splits)
  have mem: "h \<in> set (map ak_KeyHash t')" using apikey_Upsert_Inr(1) [OF assms(1), of h] row_with_None [of ak_KeyHash h t'] by auto
  have "ak_Name y = name" if "y \<in> set t'" "ak_KeyHash y = h" for y
    using upsert_row_all [OF up, of "\<lambda>r. ak_Name r = name" y] that by simp
  then have "\<exists>x t''. upsert_row ak_ID ak_KeyHash (?assign e') (?r e' i') t' = (Inr x, t'')
      \<and> map (\<lambda>r. r\<lparr>ak_UpdatedAt := 0\<rparr>) t'' = map (\<lambda>r. r\<lparr>ak_UpdatedAt := 0\<rparr>) t'"
    by (intro upsert_row_same [OF _ mem]) simp_all
  then show ?thesis unfolding apikey_Upsert_def scanned_Inr exec_sql_Inr apikey_upsert_sql_def using assms(2) mem by simp
qed

text \<open>The backends named like \<open>b\<close> are there and carry its values.\<close>

definition backend_settled :: "ModelBackend \<Rightarrow> ModelBackend list \<Rightarrow> bool" where
  "backend_settled b t \<longleftrightarrow> mb_Name b \<in> set (map mb_Name t) \<and> list_all (\<lambda>x. mb_Name x = mb_Name b \<longrightarrow> same_backend b x) t"

lemma backend_Upsert_settles:
  assumes "backend_Upsert e b t = (Inr x, t')"
  shows "backend_settled b t'" "mb_Name b' \<noteq> mb_Name b \<Longrightarrow> backend_settled b' t \<Longrightarrow> backend_settled b' t'"
proof -
  have up: "upsert_row mb_ID mb_Name (assign_backend (cx_now e) b) (fresh_backend e b) t = (Inr x, t')"
    using assms by (simp add: backend_Upsert_def checked_backend_def exec_sql_Inr split: if_splits)
  have P: "same_backend b (fresh_backend e b)" "same_backend b (assign_backend (cx_now e) b old)" for old
    by (simp_all add: same_backend_def fresh_backend_def assign_backend_def)
  have names: "k \<in> mb_Name ` set t' \<longleftrightarrow> k = mb_Name b \<or> k \<in> mb_Name ` set t" for k
    using backend_Upsert_Inr(1) [OF assms, of k] row_with_None [of mb_Name k t'] row_with_None [of mb_Name k t]
    by (metis option.distinct(1))
  have all: "if mb_Name y = mb_Name b then same_backend b y else y \<in> set t" if "y \<in> set t'" for y
    using upsert_row_all [OF up, of "same_backend b" y, OF P that] by (auto simp: fresh_backend_def assign_backend_def split: if_splits)
  show "backend_settled b t'" using names [of "mb_Name b"] all unfolding backend_settled_def list_all_iff set_map by metis
  show "backend_settled b' t'" if "mb_Name b' \<noteq> mb_Name b" "backend_settled b' t"
    using names [of "mb_Name b'"] all that unfolding backend_settled_def list_all_iff set_map by metis
qed

lemma backend_Upsert_again:
  assumes "backend_settled (seed_backend n url p) t" and "cx_fault e = NoFault" and "p \<in> {10, 20}"
  shows "\<exists>x t'. backend_Upsert e (seed_backend n url p) t = (Inr x, t')
    \<and> map (\<lambda>r. r\<lparr>mb_UpdatedAt := 0\<rparr>) t' = map (\<lambda>r. r\<lparr>mb_UpdatedAt := 0\<rparr>) t"
proof -
  let ?b = "seed_backend n url p"
  have n: "mb_Name (fresh_backend e ?b) = mb_Name ?b" and mem: "mb_Name ?b \<in> set (map mb_Name t)"
    using assms(1) by (auto simp: fresh_backend_def backend_settled_def)
  have "assign_backend (cx_now e) ?b x\<lparr>mb_UpdatedAt := 0\<rparr> = x\<lparr>mb_UpdatedAt := 0\<rparr>" if row: "x \<in> set t" "mb_Name x = mb_Name ?b" for x
  proof -
    obtain i c u where "x = ?b\<lparr>mb_ID := i, mb_CreatedAt := c, mb_UpdatedAt := u\<rparr>"
      using row assms(1) unfolding backend_settled_def list_all_iff same_backend_def by blast
    then show ?thesis by (simp add: assign_backend_def)
  qed
  then have "\<exists>x t'. upsert_row mb_ID mb_Name (assign_backend (cx_now e) ?b) (fresh_backend e ?b) t = (Inr x, t')
      \<and> map (\<lambda>r. r\<lparr>mb_UpdatedAt := 0\<rparr>) t' = map (\<lambda>r. r\<lparr>mb_UpdatedAt := 0\<rparr>) t"
    by (rule upsert_row_same [OF n mem])
  moreover have "fits_int4 p" "backend_checks ?b" "fits_int4 1" "fits_int4 32" using assms(3) by (auto simp: fits_int4_def backend_checks_def seed_backend_def)
  then have "checked_backend ?b f t = f t" for f unfolding checked_backend_def by (simp add: seed_backend_def)
  ultimately show ?thesis unfolding backend_Upsert_def scanned_Inr exec_sql_Inr using assms(2) by simp
qed

lemma policy_Upsert_again:
  assumes "policy_Upsert pg e seed_policy t = (Inr x, t')" and "cx_fault e' = NoFault" and "pg_jsonb pg ''{}'' = Some ''{}''"
  shows "\<exists>x' t''. policy_Upsert pg e' seed_policy t' = (Inr x', t'')
    \<and> map (\<lambda>r. r\<lparr>rp_UpdatedAt := 0\<rparr>) t'' = map (\<lambda>r. r\<lparr>rp_UpdatedAt := 0\<rparr>) t'"
proof -
  let ?p = seed_policy
  have b: "bound_policy pg ?p = Inr ?p" using assms(3) by (simp add: bound_policy_def bind_jsonb_def normalizeJSONB_def seed_policy_def TrimSpace_def)
  then have up: "upsert_row rp_ID rp_Name (assign_policy (cx_now e) ?p) (fresh_policy e ?p) t = (Inr x, t')"
    using assms(1) by (simp add: policy_Upsert_def checked_policy_def exec_sql_Inr split: if_splits)
  have "row_with rp_Name (rp_Name ?p) t' = Some x" using upsert_row_Inr(1) [OF up] by (simp add: fresh_policy_def assign_policy_def)
  then have mem: "rp_Name ?p \<in> set (map rp_Name t')" using row_with_None [of rp_Name "rp_Name ?p" t'] by auto
  have n: "rp_Name (fresh_policy e' ?p) = rp_Name ?p" by (simp add: fresh_policy_def)
  have P: "same_policy ?p (fresh_policy e ?p)" "same_policy ?p (assign_policy (cx_now e) ?p old)" for old
    by (simp_all add: same_policy_def fresh_policy_def assign_policy_def)
  have "assign_policy (cx_now e') ?p y\<lparr>rp_UpdatedAt := 0\<rparr> = y\<lparr>rp_UpdatedAt := 0\<rparr>" if row: "y \<in> set t'" "rp_Name y = rp_Name ?p" for y
  proof -
    have "same_policy ?p y" using upsert_row_all [OF up, of "same_policy ?p" y, OF P row(1)] row(2) by (simp add: fresh_policy_def)
    then obtain i c u where "y = ?p\<lparr>rp_ID := i, rp_CreatedAt := c, rp_UpdatedAt := u\<rparr>" unfolding same_policy_def by blast
    then show ?thesis by (simp add: assign_policy_def)
  qed
  then have "\<exists>x t''. upsert_row rp_ID rp_Name (assign_policy (cx_now e') ?p) (fresh_policy e' ?p) t' = (Inr x, t'')
      \<and> map (\<lambda>r. r\<lparr>rp_UpdatedAt := 0\<rparr>) t'' = map (\<lambda>r. r\<lparr>rp_UpdatedAt := 0\<rparr>) t'"
    by (rule upsert_row_same [OF n mem])
  then show ?thesis unfolding policy_Upsert_def scanned_Inr exec_sql_Inr checked_policy_def
    using assms(2) b by (simp add: policy_checks_def) (simp add: seed_policy_def)
qed

subsection \<open>The demo state\<close>

text \<open>The declared rows: the tenant, the key by its hash, the two backends and the policy with the declared values.\<close>

definition demo_state :: "(string \<Rightarrow> string \<Rightarrow> string) \<Rightarrow> app_Config \<Rightarrow> control_tables \<Rightarrow> bool" where
  "demo_state hmac cfg t \<longleftrightarrow>
     row_with tn_Name demoTenantName (ct_tenants t) \<noteq> None
     \<and> (case row_with ak_KeyHash (HashAPIKey hmac (AppKeyHashSecret cfg) (DevAPIKey cfg)) (ct_keys t) of
          None \<Rightarrow> False | Some key \<Rightarrow> ak_Name key = demoAPIKeyName)
     \<and> list_all (\<lambda>b. case row_with mb_Name (mb_Name b) (ct_backends t) of None \<Rightarrow> False | Some x \<Rightarrow> same_backend b x) (seed_backends cfg)
     \<and> (case row_with rp_Name defaultPolicyName (ct_policies t) of None \<Rightarrow> False | Some x \<Rightarrow> same_policy seed_policy x)"

text \<open>Nothing else changed: every row under another key is the one that was there.\<close>

definition others_kept :: "(string \<Rightarrow> string \<Rightarrow> string) \<Rightarrow> app_Config \<Rightarrow> control_tables \<Rightarrow> control_tables \<Rightarrow> bool" where
  "others_kept hmac cfg t t' \<longleftrightarrow>
     (\<forall>k. (k \<noteq> demoTenantName \<longrightarrow> row_with tn_Name k (ct_tenants t') = row_with tn_Name k (ct_tenants t))
        \<and> (k \<noteq> HashAPIKey hmac (AppKeyHashSecret cfg) (DevAPIKey cfg) \<longrightarrow> row_with ak_KeyHash k (ct_keys t') = row_with ak_KeyHash k (ct_keys t))
        \<and> (k \<notin> {fastBackendName, cheapBackendName} \<longrightarrow> row_with mb_Name k (ct_backends t') = row_with mb_Name k (ct_backends t))
        \<and> (k \<noteq> defaultPolicyName \<longrightarrow> row_with rp_Name k (ct_policies t') = row_with rp_Name k (ct_policies t)))"

definition unused_ids :: "(nat \<Rightarrow> control_env) \<Rightarrow> control_tables \<Rightarrow> bool" where
  "unused_ids es t \<longleftrightarrow>
     cx_new (es 0) \<notin> set (map tn_ID (ct_tenants t)) \<and> cx_new (es 1) \<notin> set (map ak_ID (ct_keys t))
     \<and> cx_new (es 2) \<notin> set (map mb_ID (ct_backends t)) \<and> cx_new (es 3) \<notin> insert (cx_new (es 2)) (set (map mb_ID (ct_backends t)))
     \<and> cx_new (es 4) \<notin> set (map rp_ID (ct_policies t))"

definition untimed :: "control_tables \<Rightarrow> control_tables" where
  "untimed t = t\<lparr>ct_tenants := map (\<lambda>r. r\<lparr>tn_UpdatedAt := 0\<rparr>) (ct_tenants t), ct_keys := map (\<lambda>r. r\<lparr>ak_UpdatedAt := 0\<rparr>) (ct_keys t),
     ct_backends := map (\<lambda>r. r\<lparr>mb_UpdatedAt := 0\<rparr>) (ct_backends t), ct_policies := map (\<lambda>r. r\<lparr>rp_UpdatedAt := 0\<rparr>) (ct_policies t)\<rparr>"

lemmas seed_names = fastBackendName_def cheapBackendName_def defaultPolicyName_def

lemma seed_policy_config: "pg_jsonb pg ''{}'' = Some ''{}'' \<Longrightarrow> pg_jsonb pg (rp_Config seed_policy) = Some (rp_Config seed_policy) \<and> TrimSpace (rp_Config seed_policy) \<noteq> []"
proof -
  have "TrimSpace ''{}'' \<noteq> []" by code_simp
  then show "pg_jsonb pg ''{}'' = Some ''{}'' \<Longrightarrow> ?thesis" by (simp add: seed_policy_def)
qed

lemma seed_writes_demo_state:
  assumes "seed_Run hmac pg cfg es t = (Inr (), t')" and "pg_jsonb pg ''{}'' = Some ''{}''"
  shows "demo_state hmac cfg t'" "others_kept hmac cfg t t'"
proof -
  obtain tenant tn key ks b1 bs1 b2 bs2 pol ps where
    1: "tenant_Upsert (es 0) demoTenantName (ct_tenants t) = (Inr tenant, tn)" and
    2: "apikey_Upsert (es 1) tn (tn_ID tenant) demoAPIKeyName (HashAPIKey hmac (AppKeyHashSecret cfg) (DevAPIKey cfg)) (ct_keys t) = (Inr key, ks)" and
    3: "backend_Upsert (es 2) (seed_backend fastBackendName (SeedBackendFastURL cfg) 10) (ct_backends t) = (Inr b1, bs1)" and
    4: "backend_Upsert (es 3) (seed_backend cheapBackendName (SeedBackendCheapURL cfg) 20) bs1 = (Inr b2, bs2)" and
    5: "policy_Upsert pg (es 4) seed_policy (ct_policies t) = (Inr pol, ps)" and
    t': "t' = t\<lparr>ct_tenants := tn, ct_keys := ks, ct_backends := bs2, ct_policies := ps\<rparr>"
    using seed_Run_steps [OF assms(1)] by blast
  note pol = policy_Upsert_Inr [OF 5 seed_policy_config [OF assms(2), THEN conjunct1] seed_policy_config [OF assms(2), THEN conjunct2]]
  have n: "mb_Name (seed_backend n u p) = n" "rp_Name seed_policy = defaultPolicyName" for n u p by (simp_all add: seed_backend_def seed_policy_def)
  have d: "fastBackendName \<noteq> cheapBackendName" by (simp add: seed_names)
  note rows = tenant_Upsert_Inr(1) [OF 1] apikey_Upsert_Inr(1) [OF 2] backend_Upsert_Inr(1) [OF 3, unfolded n] backend_Upsert_Inr(1) [OF 4, unfolded n] pol(1) [unfolded n]
  show "demo_state hmac cfg t'" unfolding demo_state_def seed_backends_def t'
    using d apikey_Upsert_Inr(2) [OF 2] backend_Upsert_Inr(2) [OF 3] backend_Upsert_Inr(2) [OF 4] pol(2) by (simp add: rows n)
  show "others_kept hmac cfg t t'" unfolding others_kept_def t' by (simp add: rows)
qed

lemma seed_succeeds:
  assumes "\<And>k. cx_fault (es k) = NoFault" and "unused_ids es t" and "pg_jsonb pg ''{}'' = Some ''{}''"
  shows "\<exists>t'. seed_Run hmac pg cfg es t = (Inr (), t')"
proof -
  note ids = assms(2) [unfolded unused_ids_def]
  obtain tenant tn where 1: "tenant_Upsert (es 0) demoTenantName (ct_tenants t) = (Inr tenant, tn)"
    using tenant_Upsert_ok assms(1) ids by blast
  then have "tn_ID tenant \<in> set (map tn_ID tn)" using tenant_Upsert_Inr(2) by simp
  then obtain key ks where
    2: "apikey_Upsert (es 1) tn (tn_ID tenant) demoAPIKeyName (HashAPIKey hmac (AppKeyHashSecret cfg) (DevAPIKey cfg)) (ct_keys t) = (Inr key, ks)"
    using apikey_Upsert_ok assms(1) ids by blast
  obtain b1 bs1 where 3: "backend_Upsert (es 2) (seed_backend fastBackendName (SeedBackendFastURL cfg) 10) (ct_backends t) = (Inr b1, bs1)"
    using backend_Upsert_ok [of "es 2" fastBackendName "ct_backends t" 10] assms(1) ids by blast
  then have "cx_new (es 3) \<notin> set (map mb_ID bs1)" using backend_Upsert_ids [OF 3] ids by blast
  then obtain b2 bs2 where 4: "backend_Upsert (es 3) (seed_backend cheapBackendName (SeedBackendCheapURL cfg) 20) bs1 = (Inr b2, bs2)"
    using backend_Upsert_ok [of "es 3" cheapBackendName bs1 20] assms(1) by blast
  obtain pol ps where 5: "policy_Upsert pg (es 4) seed_policy (ct_policies t) = (Inr pol, ps)"
    using policy_Upsert_ok [of "es 4" "ct_policies t" pg] assms(1,3) ids by blast
  show ?thesis unfolding seed_Run_Inr using 1 2 3 4 5 by blast
qed

text \<open>Whatever an earlier run, complete or cut off by a failing statement, left in the tables: a run whose five
  statements meet no fault and get unused ids succeeds, leaves exactly the declared rows under the declared
  keys (the ids and times apart) and no other row of the four tables changed.\<close>

theorem seed_converges:
  assumes "\<And>k. cx_fault (es k) = NoFault" and "unused_ids es t" and "pg_jsonb pg ''{}'' = Some ''{}''"
  shows "\<exists>t'. seed_Run hmac pg cfg es t = (Inr (), t') \<and> demo_state hmac cfg t' \<and> others_kept hmac cfg t t'"
  using seed_succeeds [OF assms] seed_writes_demo_state [OF _ assms(3)] by blast

text \<open>C33: Seeding is idempotent: after a successful run a further one without faults succeeds whatever ids the
  database would draw, and the tables are the same rows in the same order, the update times apart: no id
  changes, no row is added.\<close>

theorem seed_is_idempotent:
  assumes "seed_Run hmac pg cfg es t = (Inr (), t')" and "\<And>k. cx_fault (es' k) = NoFault" and "pg_jsonb pg ''{}'' = Some ''{}''"
  shows "\<exists>t''. seed_Run hmac pg cfg es' t' = (Inr (), t'') \<and> untimed t'' = untimed t'"
proof -
  let ?h = "HashAPIKey hmac (AppKeyHashSecret cfg) (DevAPIKey cfg)"
  let ?fast = "seed_backend fastBackendName (SeedBackendFastURL cfg) 10" and ?cheap = "seed_backend cheapBackendName (SeedBackendCheapURL cfg) 20"
  obtain tenant tn key ks b1 bs1 b2 bs2 pol ps where
    1: "tenant_Upsert (es 0) demoTenantName (ct_tenants t) = (Inr tenant, tn)" and
    2: "apikey_Upsert (es 1) tn (tn_ID tenant) demoAPIKeyName ?h (ct_keys t) = (Inr key, ks)" and
    3: "backend_Upsert (es 2) ?fast (ct_backends t) = (Inr b1, bs1)" and 4: "backend_Upsert (es 3) ?cheap bs1 = (Inr b2, bs2)" and
    5: "policy_Upsert pg (es 4) seed_policy (ct_policies t) = (Inr pol, ps)" and
    t': "t' = t\<lparr>ct_tenants := tn, ct_keys := ks, ct_backends := bs2, ct_policies := ps\<rparr>"
    using seed_Run_steps [OF assms(1)] by blast
  obtain tenant' tn' where again1: "tenant_Upsert (es' 0) demoTenantName tn = (Inr tenant', tn')"
    "map (\<lambda>r. r\<lparr>tn_UpdatedAt := 0\<rparr>) tn' = map (\<lambda>r. r\<lparr>tn_UpdatedAt := 0\<rparr>) tn"
    using tenant_Upsert_again [OF 1 assms(2)] by blast
  obtain key' ks' where again2: "apikey_Upsert (es' 1) tn' (tn_ID tenant') demoAPIKeyName ?h ks = (Inr key', ks')"
    "map (\<lambda>r. r\<lparr>ak_UpdatedAt := 0\<rparr>) ks' = map (\<lambda>r. r\<lparr>ak_UpdatedAt := 0\<rparr>) ks"
    using apikey_Upsert_again [OF 2 assms(2)] by blast
  have "mb_Name ?fast \<noteq> mb_Name ?cheap" by (simp add: seed_backend_def seed_names)
  then have "backend_settled ?fast bs2" using backend_Upsert_settles(2) [OF 4] backend_Upsert_settles(1) [OF 3] by blast
  then obtain b1' bs1' where again3: "backend_Upsert (es' 2) ?fast bs2 = (Inr b1', bs1')"
    "map (\<lambda>r. r\<lparr>mb_UpdatedAt := 0\<rparr>) bs1' = map (\<lambda>r. r\<lparr>mb_UpdatedAt := 0\<rparr>) bs2"
    using backend_Upsert_again assms(2) by blast
  have "backend_settled ?cheap bs1'"
    using backend_Upsert_settles(2) [OF again3(1)] backend_Upsert_settles(1) [OF 4] \<open>mb_Name ?fast \<noteq> mb_Name ?cheap\<close> by metis
  then obtain b2' bs2' where again4: "backend_Upsert (es' 3) ?cheap bs1' = (Inr b2', bs2')"
    "map (\<lambda>r. r\<lparr>mb_UpdatedAt := 0\<rparr>) bs2' = map (\<lambda>r. r\<lparr>mb_UpdatedAt := 0\<rparr>) bs1'"
    using backend_Upsert_again assms(2) by blast
  obtain pol' ps' where again5: "policy_Upsert pg (es' 4) seed_policy ps = (Inr pol', ps')"
    "map (\<lambda>r. r\<lparr>rp_UpdatedAt := 0\<rparr>) ps' = map (\<lambda>r. r\<lparr>rp_UpdatedAt := 0\<rparr>) ps"
    using policy_Upsert_again [OF 5 assms(2,3)] by blast
  let ?t = "t'\<lparr>ct_tenants := tn', ct_keys := ks', ct_backends := bs2', ct_policies := ps'\<rparr>"
  have "seed_Run hmac pg cfg es' t' = (Inr (), ?t)" unfolding seed_Run_Inr using again1(1) again2(1) again3(1) again4(1) again5(1) t' by simp
  moreover have "untimed ?t = untimed t'" using again1(2) again2(2) again3(2) again4(2) again5(2) t' by (simp add: untimed_def)
  ultimately show ?thesis by blast
qed

text \<open>Seeding and verification agree: after a successful run a caller that presents the configured key is
  admitted, as the demo tenant when the run created the key; a key row that was there before keeps the tenant it had.\<close>

theorem seeded_key_authenticates:
  assumes "seed_Run hmac pg cfg es t = (Inr (), t')" and "bearerToken hdr = Some (DevAPIKey cfg)" and "cx_fault e = NoFault"
  shows "\<exists>tenant p. row_with tn_Name demoTenantName (ct_tenants t') = Some tenant
    \<and> BearerAuth hmac (AppKeyHashSecret cfg) (apikey_GetByHash e (ct_keys t')) hdr = Inr p
    \<and> pr_TenantID p = (case row_with ak_KeyHash (HashAPIKey hmac (AppKeyHashSecret cfg) (DevAPIKey cfg)) (ct_keys t) of
         None \<Rightarrow> tn_ID tenant | Some old \<Rightarrow> ak_TenantID old)"
proof -
  let ?h = "HashAPIKey hmac (AppKeyHashSecret cfg) (DevAPIKey cfg)"
  obtain tenant tn key ks where
    1: "tenant_Upsert (es 0) demoTenantName (ct_tenants t) = (Inr tenant, tn)" and
    2: "apikey_Upsert (es 1) tn (tn_ID tenant) demoAPIKeyName ?h (ct_keys t) = (Inr key, ks)" and t': "ct_tenants t' = tn" "ct_keys t' = ks"
    using seed_Run_steps [OF assms(1)] by auto
  have "find (\<lambda>x. ak_KeyHash x = hmac (AppKeyHashSecret cfg) (DevAPIKey cfg)) ks = Some key"
    using apikey_Upsert_Inr(1) [OF 2, of ?h] by (simp add: row_with_def HashAPIKey_def)
  then have "BearerAuth hmac (AppKeyHashSecret cfg) (apikey_GetByHash e ks) hdr = Inr \<lparr>pr_TenantID = ak_TenantID key, pr_APIKeyID = ak_ID key\<rparr>"
    using assms(2,3) by (simp add: BearerAuth_def apikey_GetByHash_def get_row_def scanned_def)
  then show ?thesis using apikey_Upsert_Inr(2) [OF 2] tenant_Upsert_Inr(1) [OF 1, of demoTenantName] t' by simp
qed

subsection \<open>Samples\<close>

definition sample_seed_env :: "time \<Rightarrow> uuid \<Rightarrow> nat \<Rightarrow> control_env" where
  "sample_seed_env now i k = \<lparr>cx_fault = NoFault, cx_now = now, cx_new = i + of_nat k\<rparr>"

definition empty_control :: control_tables where
  "empty_control = \<lparr>ct_tenants = [], ct_keys = [], ct_backends = [], ct_policies = []\<rparr>"

definition sample_seed_cfg :: app_Config where
  "sample_seed_cfg = (sample_app_config 3 5000)\<lparr>DevAPIKey := ''dev''\<rparr>"

definition sample_seed_pg :: postgres where
  "sample_seed_pg = \<lparr>pg_jsonb = Some, pg_interval = (\<lambda>d. d)\<rparr>"

definition seeded_control :: control_tables where
  "seeded_control = snd (seed_Run (\<lambda>s r. r) sample_seed_pg sample_seed_cfg (sample_seed_env 5 1) empty_control)"

lemma sample_seed_facts:
  "cx_fault (sample_seed_env now i k) = NoFault" "unused_ids (sample_seed_env now i) empty_control" "pg_jsonb sample_seed_pg ''{}'' = Some ''{}''"
  by (simp_all add: sample_seed_env_def unused_ids_def empty_control_def sample_seed_pg_def)

lemma sample_seed_run:
  "seed_Run (\<lambda>s r. r) sample_seed_pg sample_seed_cfg (sample_seed_env 5 1) empty_control = (Inr (), seeded_control)"
  using seed_succeeds [OF sample_seed_facts(1,2,3)] unfolding seeded_control_def by (metis snd_conv)

theorem seed_converges_witness:
  "unused_ids (sample_seed_env 5 1) empty_control \<and>
   (\<exists>t'. seed_Run (\<lambda>s r. r) sample_seed_pg sample_seed_cfg (sample_seed_env 5 1) empty_control = (Inr (), t')
      \<and> demo_state (\<lambda>s r. r) sample_seed_cfg t' \<and> others_kept (\<lambda>s r. r) sample_seed_cfg empty_control t')"
  using seed_converges [OF sample_seed_facts(1,2,3)] sample_seed_facts(2) by blast

theorem seed_is_idempotent_witness:
  "seed_Run (\<lambda>s r. r) sample_seed_pg sample_seed_cfg (sample_seed_env 5 1) empty_control = (Inr (), seeded_control)
   \<and> (\<exists>t''. seed_Run (\<lambda>s r. r) sample_seed_pg sample_seed_cfg (sample_seed_env 9 1) seeded_control = (Inr (), t'')
      \<and> untimed t'' = untimed seeded_control)"
  using seed_is_idempotent [of _ _ _ _ _ _ "sample_seed_env 9 1", OF sample_seed_run sample_seed_facts(1,3)] sample_seed_run by blast

theorem seeded_key_authenticates_witness:
  "\<exists>tenant p. row_with tn_Name demoTenantName (ct_tenants seeded_control) = Some tenant
    \<and> BearerAuth (\<lambda>s r. r) (AppKeyHashSecret sample_seed_cfg) (apikey_GetByHash (sample_seed_env 9 1 0) (ct_keys seeded_control)) (\<lambda>_. ''Bearer dev'') = Inr p
    \<and> pr_TenantID p = tn_ID tenant"
proof -
  have token: "bearerToken (\<lambda>_. ''Bearer dev'') = Some (DevAPIKey sample_seed_cfg)" by code_simp
  have "row_with ak_KeyHash h (ct_keys empty_control) = None" for h by (simp add: row_with_def empty_control_def)
  then show ?thesis using seeded_key_authenticates [OF sample_seed_run token sample_seed_facts(1)] by simp
qed

end
