(* ===== verification/Worker_Loops.thy ===== *)
theory Worker_Loops
  imports Worker
begin

section \<open>The loops of the worker (internal/worker: Run, consumeLoop, tick; internal/redisstore: Consume)\<close>

text \<open>
  \<open>Run\<close> starts three goroutines: the consume loop over \<open>StreamQueue.Consume\<close>, and two tickers around
  \<open>reclaimOnce\<close> and \<open>drainOutboxOnce\<close>. Each is a program counter here and a step of the whole is a step of one of
  them, or the end of the context, or a change of the store and the queue by another process. A message
  handler is an activity of its own (\<open>active\<close>): its pool steps interleave with everything else, so that
  the two loops that call \<open>handleMessage\<close> can be in it at the same time. A \<open>select\<close> with a ready context and a ready
  timer takes either: \<open>le_timer\<close> says which. A drain pass is one step.
\<close>

subsection \<open>A message handler in steps\<close>

record active =
  hd_msg :: Message
  hd_job :: uuid
  hd_gs :: "goroutine list"
  hd_broken :: bool

text \<open>Up to the start of the pool: returned, or active.\<close>

definition handler_begin ::
  "('e, 's, 'qe, 'q, 'r, 'x) Worker \<Rightarrow> ('e, 'qe) henv \<Rightarrow> Message \<Rightarrow> ('s, 'q, 'r) world
     \<Rightarrow> (active + (handle_error + unit)) \<times> ('s, 'q, 'r) world" where
  "handler_begin wk he msg w =
     (case markInFlight (msg_ID msg) w of
        (False, w) \<Rightarrow> (Inr (Inr ()), w)
      | (True, w) \<Rightarrow>
          (case handle_prologue wk he msg w of
             (Inl res, w) \<Rightarrow> (Inr res, release_inflight (msg_ID msg) w)
           | (Inr jobID, w) \<Rightarrow>
               (Inl \<lparr>hd_msg = msg, hd_job = jobID, hd_gs = p_gs (pool_start wk w), hd_broken = False\<rparr>, w)))"

definition active_done :: "active \<Rightarrow> bool" where
  "active_done h \<longleftrightarrow> list_all (\<lambda>g. g = GDone) (hd_gs h)"

definition handler_finish ::
  "('e, 's, 'qe, 'q, 'r, 'x) Worker \<Rightarrow> ('e, 'qe) henv \<Rightarrow> active \<Rightarrow> ('s, 'q, 'r) world
     \<Rightarrow> (handle_error + unit) \<times> ('s, 'q, 'r) world" where
  "handler_finish wk he h w =
     (case handle_epilogue wk he (hd_msg h) (hd_job h) \<lparr>p_gs = hd_gs h, p_broken = hd_broken h, p_world = w\<rparr> of
        (res, w) \<Rightarrow> (res, release_inflight (msg_ID (hd_msg h)) w))"

definition handler_pool_step ::
  "('e, 's, 'qe, 'q, 'r, 'x) Worker \<Rightarrow> nat \<Rightarrow> ('e, 'qe, 'x) genv \<Rightarrow> active \<Rightarrow> ('s, 'q, 'r) world \<Rightarrow> active \<times> ('s, 'q, 'r) world" where
  "handler_pool_step wk i ge h w =
     (let p = pool_step wk (hd_msg h) (hd_job h) \<lparr>p_gs = hd_gs h, p_broken = hd_broken h, p_world = w\<rparr> (Sched i ge)
      in (h\<lparr>hd_gs := p_gs p, hd_broken := p_broken p\<rparr>, p_world p))"

text \<open>One step: a goroutine of the pool moves, or \<open>wg.Wait()\<close> returns and the rest runs.\<close>

definition handler_step ::
  "('e, 's, 'qe, 'q, 'r, 'x) Worker \<Rightarrow> ('e, 'qe) henv \<Rightarrow> nat \<Rightarrow> ('e, 'qe, 'x) genv \<Rightarrow> active \<Rightarrow> ('s, 'q, 'r) world
     \<Rightarrow> (active + (handle_error + unit)) \<times> ('s, 'q, 'r) world" where
  "handler_step wk he i ge h w =
     (if active_done h then (case handler_finish wk he h w of (res, w) \<Rightarrow> (Inr res, w))
      else case handler_pool_step wk i ge h w of (h, w) \<Rightarrow> (Inl h, w))"

subsection \<open>The consume loop\<close>

datatype consume_error = CtxErr | GroupErr string

text \<open>
  In \<open>Consume\<close>: before \<open>ensureGroup\<close>, at the head of the loop, after a failed read, in the pause after it, handing
  over the messages of a read, in the handler of one. In \<open>consumeLoop\<close>: after \<open>Consume\<close> returned, in the
  back-off, returned.
\<close>

datatype consume_pc =
    CEnsure
  | CHead
  | CReadErr
  | CReadPause
  | CDeliver "Message list"
  | CHandle active "Message list"
  | CReturned consume_error
  | CBackoff
  | CExit

text \<open>What a step draws from its surroundings.\<close>

record ('e, 'qe, 'x) lenv =
  le_queue :: 'qe
  le_store :: 'e
  le_he :: "('e, 'qe) henv"
  le_i :: nat
  le_ge :: "('e, 'qe, 'x) genv"
  le_timer :: bool
  le_rows :: "uuid \<Rightarrow> 'qe \<times> 'e"

definition stream_read :: "'q redis_commands \<Rightarrow> StreamQueue \<Rightarrow> 'q \<Rightarrow> read_result \<times> 'q" where
  "stream_read rc q r =
     rc_XReadGroup rc (st_Group (sq_streams q)) (sq_consumer q) [st_Key (sq_streams q), ''>''] (sq_count q) (sq_block q) r"

fun consume_step ::
  "StreamQueue \<Rightarrow> ('e, 's, 'q redis_commands, 'q, 'r, 'x) Worker \<Rightarrow> ('e, 'q redis_commands, 'x) lenv \<Rightarrow> consume_pc
     \<Rightarrow> ('s, 'q, 'r) world \<Rightarrow> consume_pc \<times> ('s, 'q, 'r) world" where
  "consume_step sq wk le CEnsure w =
     (case on_queue (ensureGroup (le_queue le) sq) w of
        (Inl err, w) \<Rightarrow> (CReturned (GroupErr err), w)
      | (Inr _, w) \<Rightarrow> (CHead, w))"
| "consume_step sq wk le CHead w =
     (if w_ctx w then (CReturned CtxErr, w)
      else case on_queue (stream_read (le_queue le) sq) w of
        (ReadNil, w) \<Rightarrow> (CHead, w)
      | (ReadErr _, w) \<Rightarrow> (CReadErr, w)
      | (ReadStreams streams, w) \<Rightarrow> (CDeliver (concat (map (map messageFromX) streams)), w))"
| "consume_step sq wk le CReadErr w = (if w_ctx w then CReturned CtxErr else CReadPause, w)"
| "consume_step sq wk le CReadPause w = (if w_ctx w \<and> \<not> le_timer le then CReturned CtxErr else CHead, w)"
| "consume_step sq wk le (CDeliver []) w = (CHead, w)"
| "consume_step sq wk le (CDeliver (m # ms)) w =
     (case handler_begin wk (le_he le) m w of
        (Inl h, w) \<Rightarrow> (CHandle h ms, w)
      | (Inr _, w) \<Rightarrow> (CDeliver ms, w))"
| "consume_step sq wk le (CHandle h ms) w =
     (case handler_step wk (le_he le) (le_i le) (le_ge le) h w of
        (Inl h, w) \<Rightarrow> (CHandle h ms, w)
      | (Inr _, w) \<Rightarrow> (CDeliver ms, w))"
| "consume_step sq wk le (CReturned err) w = (if w_ctx w then (CExit, w) else (CBackoff, worker_failure w))"
| "consume_step sq wk le CBackoff w = (if w_ctx w \<and> \<not> le_timer le then CExit else CEnsure, w)"
| "consume_step sq wk le CExit w = (CExit, w)"

text \<open>\<open>MemQueue.Consume\<close>: the head of its loop, and the pause when nothing is pending.\<close>

definition mem_consume_head :: "time \<Rightarrow> ('s, MemQueue, 'r) world \<Rightarrow> consume_pc \<times> ('s, MemQueue, 'r) world" where
  "mem_consume_head now w =
     (case on_queue (takeOne now) w of (Some msg, w) \<Rightarrow> (CDeliver [msg], w) | (None, w) \<Rightarrow> (CReadPause, w))"

definition mem_consume_pause :: "bool \<Rightarrow> ('s, MemQueue, 'r) world \<Rightarrow> consume_pc \<times> ('s, MemQueue, 'r) world" where
  "mem_consume_pause timer w = (if w_ctx w \<and> \<not> timer then CReturned CtxErr else CHead, w)"

definition Published :: "MemQueue \<Rightarrow> string list" where "Published q = mq_published q"
definition DLQ :: "MemQueue \<Rightarrow> DLQEntry list" where "DLQ q = mq_dlq q"
definition Acked :: "MemQueue \<Rightarrow> Message list" where "Acked q = mq_acked q"

subsection \<open>The tickers\<close>

datatype reclaim_pc = RWait | RLoop "Message list" | RHandle active "Message list" | RExit

fun reclaim_step ::
  "('e, 's, 'qe, 'q, 'r, 'x) Worker \<Rightarrow> ('e, 'qe, 'x) lenv \<Rightarrow> reclaim_pc \<Rightarrow> ('s, 'q, 'r) world \<Rightarrow> reclaim_pc \<times> ('s, 'q, 'r) world" where
  "reclaim_step wk le RWait w =
     (if w_ctx w \<and> \<not> le_timer le then (RExit, w)
      else case on_queue (q_Claim (wk_queue wk) (le_queue le) (wc_ReclaimMinIdle (wk_cfg wk))) w of
        (Inl err, w) \<Rightarrow> (RWait, if w_ctx w then w else worker_failure w)
      | (Inr msgs, w) \<Rightarrow> (RLoop msgs, w))"
| "reclaim_step wk le (RLoop []) w = (RWait, w)"
| "reclaim_step wk le (RLoop (m # ms)) w =
     (if w_ctx w then (RWait, w)
      else if isInFlight (msg_ID m) w then (RLoop ms, w)
      else case handler_begin wk (le_he le) m w of
        (Inl h, w) \<Rightarrow> (RHandle h ms, w)
      | (Inr _, w) \<Rightarrow> (RLoop ms, w))"
| "reclaim_step wk le (RHandle h ms) w =
     (case handler_step wk (le_he le) (le_i le) (le_ge le) h w of
        (Inl h, w) \<Rightarrow> (RHandle h ms, w)
      | (Inr _, w) \<Rightarrow> (RLoop ms, w))"
| "reclaim_step wk le RExit w = (RExit, w)"

datatype outbox_pc = OWait | OExit

fun outbox_step ::
  "('e, 's, 'qe, 'q, 'r, 'x) Worker \<Rightarrow> ('e, 'qe, 'x) lenv \<Rightarrow> outbox_pc \<Rightarrow> ('s, 'q, 'r) world \<Rightarrow> outbox_pc \<times> ('s, 'q, 'r) world" where
  "outbox_step wk le OWait w =
     (if w_ctx w \<and> \<not> le_timer le then (OExit, w) else (OWait, drainOutboxOnce wk (le_store le) (le_rows le) w))"
| "outbox_step wk le OExit w = (OExit, w)"

subsection \<open>Run\<close>

record ('s, 'q, 'r) loops =
  lp_consume :: consume_pc
  lp_reclaim :: reclaim_pc
  lp_outbox :: outbox_pc
  lp_world :: "('s, 'q, 'r) world"

datatype ('e, 's, 'qe, 'q, 'x) loop_event =
    EConsume "('e, 'qe, 'x) lenv"
  | EReclaim "('e, 'qe, 'x) lenv"
  | EOutbox "('e, 'qe, 'x) lenv"
  | EStop
  | EOutside 's 'q

definition Run_start :: "('s, 'q, 'r) world \<Rightarrow> ('s, 'q, 'r) loops" where
  "Run_start w = \<lparr>lp_consume = CEnsure, lp_reclaim = RWait, lp_outbox = OWait, lp_world = w\<rparr>"

fun Run_step ::
  "StreamQueue \<Rightarrow> ('e, 's, 'q redis_commands, 'q, 'r, 'x) Worker \<Rightarrow> ('s, 'q, 'r) loops
     \<Rightarrow> ('e, 's, 'q redis_commands, 'q, 'x) loop_event \<Rightarrow> ('s, 'q, 'r) loops" where
  "Run_step sq wk l (EConsume le) = (case consume_step sq wk le (lp_consume l) (lp_world l) of (c, w) \<Rightarrow> l\<lparr>lp_consume := c, lp_world := w\<rparr>)"
| "Run_step sq wk l (EReclaim le) = (case reclaim_step wk le (lp_reclaim l) (lp_world l) of (c, w) \<Rightarrow> l\<lparr>lp_reclaim := c, lp_world := w\<rparr>)"
| "Run_step sq wk l (EOutbox le) = (case outbox_step wk le (lp_outbox l) (lp_world l) of (c, w) \<Rightarrow> l\<lparr>lp_outbox := c, lp_world := w\<rparr>)"
| "Run_step sq wk l EStop = l\<lparr>lp_world := (lp_world l)\<lparr>w_ctx := True\<rparr>\<rparr>"
| "Run_step sq wk l (EOutside s q) = l\<lparr>lp_world := (lp_world l)\<lparr>w_store := s, w_queue := q\<rparr>\<rparr>"

text \<open>\<open>wg.Wait()\<close> in \<open>Run\<close> returns.\<close>

definition Run_done :: "('s, 'q, 'r) loops \<Rightarrow> bool" where
  "Run_done l \<longleftrightarrow> lp_consume l = CExit \<and> lp_reclaim l = RExit \<and> lp_outbox l = OExit"

inductive Run_reaches ::
  "StreamQueue \<Rightarrow> ('e, 's, 'q redis_commands, 'q, 'r, 'x) Worker \<Rightarrow> ('s, 'q, 'r) world \<Rightarrow> ('s, 'q, 'r) loops \<Rightarrow> bool"
  for sq wk w where
  start: "Run_reaches sq wk w (Run_start w)"
| step: "Run_reaches sq wk w l \<Longrightarrow> Run_reaches sq wk w (Run_step sq wk l ev)"

subsection \<open>What the steps leave alone\<close>

lemma on_keep [simp]:
  "w_inflight (snd (on_queue f w)) = w_inflight w" "w_inflight (snd (on_store g w)) = w_inflight w" "w_ctx (snd (on_store g w)) = w_ctx w"
  by (simp_all add: on_queue_def on_store_def split: prod.splits)

lemma on_keep_eq:
  "on_queue f w = (a, w') \<Longrightarrow> w_inflight w' = w_inflight w \<and> w_ctx w' = w_ctx w"
  "on_store g w = (b, w') \<Longrightarrow> w_inflight w' = w_inflight w \<and> w_ctx w' = w_ctx w"
  by (auto simp: on_queue_def on_store_def split: prod.splits)

lemma counters_keep [simp]:
  "w_inflight (worker_failure w) = w_inflight w" "w_inflight (item_processed st w) = w_inflight w"
  by (simp_all add: worker_failure_def item_processed_def)

text \<open>The in-flight marks and the context of a world.\<close>

definition marks :: "('s, 'q, 'r) world \<Rightarrow> string list \<times> bool" where
  "marks w = (w_inflight w, w_ctx w)"

lemma marks_on [simp]:
  "marks (snd (on_queue f w)) = marks w" "marks (snd (on_store g w)) = marks w" "marks (worker_failure w) = marks w"
  "marks (item_processed st w) = marks w"
  by (simp_all add: marks_def)

lemma marks_on_eq [dest!]: "on_queue f w = (a, w') \<Longrightarrow> marks w' = marks w" "on_store g w = (b, w') \<Longrightarrow> marks w' = marks w"
  by (simp_all add: marks_def on_keep_eq)

lemma marks_upd [simp]:
  "marks (w\<lparr>w_sel := a\<rparr>) = marks w" "marks (w\<lparr>w_br := b\<rparr>) = marks w" "marks (w\<lparr>w_sel := a, w_br := b\<rparr>) = marks w"
  "marks (w\<lparr>w_store := s\<rparr>) = marks w" "marks (w\<lparr>w_queue := q\<rparr>) = marks w" "marks (w\<lparr>w_store := s, w_queue := q\<rparr>) = marks w"
  by (simp_all add: marks_def)

lemma dlq_marks: "dlq_and_ack wk he msg reason w = (res, w') \<Longrightarrow> marks w' = marks w"
  by (auto simp: dlq_and_ack_def split: prod.splits sum.splits)

lemma prologue_marks: "handle_prologue wk he msg w = (res, w') \<Longrightarrow> marks w' = marks w"
  by (auto simp: handle_prologue_def dropMissingJob_def failJobPass_def dest!: dlq_marks
      split: sum.splits prod.splits jobs_error.splits)

lemma epilogue_marks: "handle_epilogue wk he msg j p = (res, w') \<Longrightarrow> marks w' = marks (p_world p)"
  by (auto simp: handle_epilogue_def Let_def dropMissingJob_def failJobPass_def dest!: dlq_marks
      split: if_splits sum.splits prod.splits jobs_error.splits)

lemma finishItem_marks: "finishItem wk ge item st r m w = (res, w') \<Longrightarrow> marks w' = marks w"
  by (auto simp: finishItem_def split: sum.splits prod.splits jobs_error.splits)

lemma gstep_marks: "gstep wk msg j ge g w = (g', b, w') \<Longrightarrow> marks w' = marks w"
  by (cases g; auto simp: claim_step_def exhausted_step_def select_step_def report_step_def called_step_def Let_def dest!: finishItem_marks
      split: if_splits sum.splits prod.splits option.splits do_result.splits ClaimOutcome.splits)

lemma drain_loop_marks: "marks (drain_loop wk envs obs w) = marks w"
proof (induction obs arbitrary: w)
  case (Cons ob obs)
  show ?case by (auto simp: Cons.IH split: prod.splits sum.splits)
qed simp

lemma drain_marks: "marks (drainOutboxOnce wk e envs w) = marks w"
  by (simp add: drainOutboxOnce_def drain_loop_marks split: sum.splits)

lemma pool_step_marks: "handler_pool_step wk i ge h w = (h', w') \<Longrightarrow> marks w' = marks w \<and> hd_msg h' = hd_msg h \<and> hd_job h' = hd_job h"
  by (auto simp: handler_pool_step_def Let_def dest: gstep_marks split: prod.splits if_splits)

lemma begin_active:
  assumes "handler_begin wk he msg w = (Inl h, w')"
  shows "hd_msg h = msg \<and> msg_ID msg \<notin> set (w_inflight w) \<and> marks w' = (w_inflight w @ [msg_ID msg], w_ctx w)
    \<and> hd_gs h = replicate (nat (wc_Concurrency (wk_cfg wk))) GLoop"
  using assms by (auto simp: handler_begin_def markInFlight_def marks_def pool_start_def dest!: prologue_marks split: prod.splits if_splits sum.splits)

lemma begin_returned:
  assumes "handler_begin wk he msg w = (Inr res, w')"
  shows "marks w' = marks w"
proof (cases "msg_ID msg \<in> set (w_inflight w)")
  case True
  then show ?thesis using assms by (simp add: handler_begin_def markInFlight_def)
next
  case False
  then have "filter (\<lambda>m. m \<noteq> msg_ID msg) (w_inflight w) = w_inflight w" by (auto intro: filter_True)
  then show ?thesis using assms False
    by (auto simp: handler_begin_def markInFlight_def marks_def release_inflight_def dest!: prologue_marks split: prod.splits sum.splits)
qed

lemma step_active:
  assumes "handler_step wk he i ge h w = (Inl h', w')"
  shows "marks w' = marks w \<and> hd_msg h' = hd_msg h \<and> \<not> active_done h \<and> handler_pool_step wk i ge h w = (h', w')"
  using assms by (auto simp: handler_step_def dest: pool_step_marks split: if_splits prod.splits)

lemma step_returned:
  assumes "handler_step wk he i ge h w = (Inr res, w')"
  shows "marks w' = (filter (\<lambda>m. m \<noteq> msg_ID (hd_msg h)) (w_inflight w), w_ctx w) \<and> active_done h"
  using assms by (auto simp: handler_step_def handler_finish_def marks_def release_inflight_def dest!: epilogue_marks split: if_splits prod.splits)

subsection \<open>One handler per message\<close>

fun consume_actives :: "consume_pc \<Rightarrow> active list" where
  "consume_actives (CHandle h ms) = [h]"
| "consume_actives _ = []"

fun reclaim_actives :: "reclaim_pc \<Rightarrow> active list" where
  "reclaim_actives (RHandle h ms) = [h]"
| "reclaim_actives _ = []"

definition active_ids :: "('s, 'q, 'r) loops \<Rightarrow> string list" where
  "active_ids l = map (\<lambda>h. msg_ID (hd_msg h)) (consume_actives (lp_consume l) @ reclaim_actives (lp_reclaim l))"

definition loops_inv :: "('s, 'q, 'r) loops \<Rightarrow> bool" where
  [inv_defs]: "loops_inv l \<longleftrightarrow> distinct (active_ids l) \<and> set (w_inflight (lp_world l)) = set (active_ids l)"

text \<open>How one loop changes the marks and its own activity, \<open>a\<close> before and \<open>a'\<close> after.\<close>

definition marks_follow :: "active list \<Rightarrow> active list \<Rightarrow> ('s, 'q, 'r) world \<Rightarrow> ('s, 'q, 'r) world \<Rightarrow> bool" where
  "marks_follow a a' w w' \<longleftrightarrow>
     map hd_msg a' = map hd_msg a \<and> w_inflight w' = w_inflight w
     \<or> (\<exists>h. a = [] \<and> a' = [h] \<and> msg_ID (hd_msg h) \<notin> set (w_inflight w) \<and> w_inflight w' = w_inflight w @ [msg_ID (hd_msg h)])
     \<or> (\<exists>h. a = [h] \<and> a' = [] \<and> w_inflight w' = filter (\<lambda>m. m \<noteq> msg_ID (hd_msg h)) (w_inflight w))"

lemma consume_follow:
  assumes "consume_step sq wk le c w = (c', w')"
  shows "marks_follow (consume_actives c) (consume_actives c') w w' \<and> w_ctx w' = w_ctx w"
proof (cases "\<exists>m ms. c = CDeliver (m # ms)")
  case True
  then obtain m ms where c: "c = CDeliver (m # ms)" by blast
  obtain r w1 where b: "handler_begin wk (le_he le) m w = (r, w1)" by fastforce
  then show ?thesis using assms c begin_active [of wk "le_he le" m w] begin_returned [of wk "le_he le" m w]
    by (cases r) (auto simp: marks_follow_def marks_def)
next
  case no_delivery: False
  show ?thesis
  proof (cases "\<exists>h ms. c = CHandle h ms")
    case True
    then obtain h ms where c: "c = CHandle h ms" by blast
    obtain r w1 where b: "handler_step wk (le_he le) (le_i le) (le_ge le) h w = (r, w1)" by fastforce
    then show ?thesis using assms c step_active [of wk "le_he le" "le_i le" "le_ge le" h w] step_returned [of wk "le_he le" "le_i le" "le_ge le" h w]
      by (cases r) (auto simp: marks_follow_def marks_def)
  next
    case False
    then have "consume_actives c = [] \<and> consume_actives c' = [] \<and> marks w' = marks w"
      using assms no_delivery by (cases "(sq, wk, le, c, w)" rule: consume_step.cases) (auto split: prod.splits sum.splits if_splits read_result.splits)
    then show ?thesis by (simp add: marks_follow_def marks_def)
  qed
qed

lemma reclaim_follow:
  assumes "reclaim_step wk le c w = (c', w')"
  shows "marks_follow (reclaim_actives c) (reclaim_actives c') w w' \<and> w_ctx w' = w_ctx w"
proof (cases "\<exists>m ms. c = RLoop (m # ms)")
  case True
  then obtain m ms where c: "c = RLoop (m # ms)" by blast
  obtain r w1 where b: "handler_begin wk (le_he le) m w = (r, w1)" by fastforce
  then show ?thesis using assms c begin_active [of wk "le_he le" m w] begin_returned [of wk "le_he le" m w]
    by (cases r) (auto simp: marks_follow_def marks_def split: if_splits)
next
  case no_delivery: False
  show ?thesis
  proof (cases "\<exists>h ms. c = RHandle h ms")
    case True
    then obtain h ms where c: "c = RHandle h ms" by blast
    obtain r w1 where b: "handler_step wk (le_he le) (le_i le) (le_ge le) h w = (r, w1)" by fastforce
    then show ?thesis using assms c step_active [of wk "le_he le" "le_i le" "le_ge le" h w] step_returned [of wk "le_he le" "le_i le" "le_ge le" h w]
      by (cases r) (auto simp: marks_follow_def marks_def)
  next
    case False
    then have "reclaim_actives c = [] \<and> reclaim_actives c' = [] \<and> marks w' = marks w"
      using assms no_delivery by (cases "(wk, le, c, w)" rule: reclaim_step.cases) (auto split: prod.splits sum.splits if_splits)
    then show ?thesis by (simp add: marks_follow_def marks_def)
  qed
qed

lemma outbox_marks: "outbox_step wk le c w = (c', w') \<Longrightarrow> marks w' = marks w"
  by (cases c) (auto simp: drain_marks split: if_splits)

abbreviation ids_of :: "active list \<Rightarrow> string list" where "ids_of \<equiv> map (\<lambda>h. msg_ID (hd_msg h))"

lemma follow_inv:
  assumes "marks_follow a a' w w'" and "distinct (ids_of a @ bs)" and "set (w_inflight w) = set (ids_of a @ bs)"
  shows "distinct (ids_of a' @ bs) \<and> set (w_inflight w') = set (ids_of a' @ bs)"
proof -
  consider "map hd_msg a' = map hd_msg a" "w_inflight w' = w_inflight w"
    | h where "a = []" "a' = [h]" "msg_ID (hd_msg h) \<notin> set (w_inflight w)" "w_inflight w' = w_inflight w @ [msg_ID (hd_msg h)]"
    | h where "a = [h]" "a' = []" "w_inflight w' = filter (\<lambda>m. m \<noteq> msg_ID (hd_msg h)) (w_inflight w)"
    using assms(1) unfolding marks_follow_def by blast
  then show ?thesis
  proof cases
    case 1
    have "ids_of x = map msg_ID (map hd_msg x)" for x by simp
    then have "ids_of a' = ids_of a" using 1(1) by (simp only:)
    then show ?thesis using assms(2,3) 1(2) by (simp only:)
  qed (use assms(2,3) in auto)
qed

lemma Run_step_inv:
  assumes "loops_inv l"
  shows "loops_inv (Run_step sq wk l ev)"
proof (cases ev)
  case (EConsume le)
  obtain c w where s: "consume_step sq wk le (lp_consume l) (lp_world l) = (c, w)" by fastforce
  from follow_inv [OF conjunct1 [OF consume_follow [OF s]], of "ids_of (reclaim_actives (lp_reclaim l))"] assms
  show ?thesis using EConsume s by (simp add: loops_inv_def active_ids_def)
next
  case (EReclaim le)
  let ?bs = "ids_of (consume_actives (lp_consume l))"
  obtain c w where s: "reclaim_step wk le (lp_reclaim l) (lp_world l) = (c, w)" by fastforce
  have "distinct (ids_of (reclaim_actives (lp_reclaim l)) @ ?bs)"
    "set (w_inflight (lp_world l)) = set (ids_of (reclaim_actives (lp_reclaim l)) @ ?bs)"
    using assms by (auto simp: loops_inv_def active_ids_def)
  from follow_inv [OF conjunct1 [OF reclaim_follow [OF s]] this]
  show ?thesis using EReclaim s by (auto simp: loops_inv_def active_ids_def)
next
  case (EOutbox le)
  obtain c w where s: "outbox_step wk le (lp_outbox l) (lp_world l) = (c, w)" by fastforce
  from outbox_marks [OF s] show ?thesis using EOutbox s assms by (simp add: loops_inv_def active_ids_def marks_def)
qed (use assms in \<open>simp_all add: loops_inv_def active_ids_def\<close>)

text \<open>C11: Within one worker process the consume loop and the reclaim loop never work on the same delivery at the same
  time, however their steps, those of their pools, of the other loops and of other processes interleave; and a
  message is marked in flight exactly while one of them works on it, so a message whose handler returned,
  with an error or not, can be reclaimed later.\<close>

theorem one_handler_per_message:
  assumes "Run_reaches sq wk w l" and "w_inflight w = []"
  shows "distinct (active_ids l) \<and> set (w_inflight (lp_world l)) = set (active_ids l)"
proof -
  have "loops_inv l" using assms
  proof (induction rule: Run_reaches.induct)
    case start
    then show ?case by (simp add: loops_inv_def active_ids_def Run_start_def)
  next
    case (step l ev)
    then show ?case by (simp add: Run_step_inv)
  qed
  then show ?thesis by (simp add: loops_inv_def)
qed

subsection \<open>Shutdown\<close>

text \<open>An event that lets its loop move: no loop that returned, no goroutine that ended, and no tick wins against the
  ended context.\<close>

definition active_moves :: "('e, 'qe, 'x) lenv \<Rightarrow> active \<Rightarrow> bool" where
  "active_moves le h \<longleftrightarrow> active_done h \<or> le_i le < length (hd_gs h) \<and> hd_gs h ! le_i le \<noteq> GDone"

fun moves :: "('s, 'q, 'r) loops \<Rightarrow> ('e, 's, 'qe, 'q, 'x) loop_event \<Rightarrow> bool" where
  "moves l (EConsume le) \<longleftrightarrow> (case lp_consume l of CExit \<Rightarrow> False | CHandle h ms \<Rightarrow> active_moves le h | _ \<Rightarrow> True)"
| "moves l (EReclaim le) \<longleftrightarrow> (case lp_reclaim l of RExit \<Rightarrow> False | RHandle h ms \<Rightarrow> active_moves le h | RWait \<Rightarrow> \<not> le_timer le | _ \<Rightarrow> True)"
| "moves l (EOutbox le) \<longleftrightarrow> lp_outbox l = OWait \<and> \<not> le_timer le"
| "moves l EStop \<longleftrightarrow> False"
| "moves l (EOutside s q) \<longleftrightarrow> False"

fun goroutine_left :: "goroutine \<Rightarrow> nat" where
  "goroutine_left GDone = 0"
| "goroutine_left GLoop = 1"
| "goroutine_left (GExhausted item) = 2"
| "goroutine_left (GFinish item st r m) = 2"
| "goroutine_left (GItem item tried) = 3"
| "goroutine_left (GCalled item tried res failover) = 3"
| "goroutine_left (GRelease item tried k out) = 4"
| "goroutine_left (GReport item tried sel k res) = 5"
| "goroutine_left (GCall item tried sel k) = 6"

definition active_left :: "active \<Rightarrow> nat" where
  "active_left h = sum_list (map goroutine_left (hd_gs h)) + 1"

text \<open>\<open>n\<close> bounds the steps a handler takes once the context has ended.\<close>

fun consume_left :: "nat \<Rightarrow> consume_pc \<Rightarrow> nat" where
  "consume_left n CExit = 0"
| "consume_left n (CReturned err) = 1"
| "consume_left n CHead = 2"
| "consume_left n CReadErr = 2"
| "consume_left n CReadPause = 3"
| "consume_left n CEnsure = 3"
| "consume_left n CBackoff = 4"
| "consume_left n (CDeliver ms) = 3 + length ms * n"
| "consume_left n (CHandle h ms) = 3 + length ms * n + active_left h"

fun reclaim_left :: "nat \<Rightarrow> reclaim_pc \<Rightarrow> nat" where
  "reclaim_left n RExit = 0"
| "reclaim_left n RWait = 1"
| "reclaim_left n (RLoop ms) = 2 + length ms * n"
| "reclaim_left n (RHandle h ms) = 2 + length ms * n + active_left h"

fun outbox_left :: "outbox_pc \<Rightarrow> nat" where
  "outbox_left OExit = 0"
| "outbox_left OWait = 1"

definition steps_left :: "('e, 's, 'qe, 'q, 'r, 'x) Worker \<Rightarrow> ('s, 'q, 'r) loops \<Rightarrow> nat" where
  "steps_left wk l =
     (let n = nat (wc_Concurrency (wk_cfg wk)) + 2
      in consume_left n (lp_consume l) + reclaim_left n (lp_reclaim l) + outbox_left (lp_outbox l))"

lemma gstep_left:
  assumes "w_ctx w" and "g \<noteq> GDone" and "gstep wk msg j ge g w = (g', b, w')"
  shows "goroutine_left g' < goroutine_left g"
  using assms by (cases g; auto simp: claim_step_def exhausted_step_def select_step_def report_step_def called_step_def Let_def
      split: if_splits sum.splits prod.splits option.splits do_result.splits ClaimOutcome.splits)

lemma pool_left:
  assumes "w_ctx w" and "i < length (hd_gs h)" and "hd_gs h ! i \<noteq> GDone" and "handler_pool_step wk i ge h w = (h', w')"
  shows "active_left h' < active_left h"
proof -
  obtain g b w1 where g: "gstep wk (hd_msg h) (hd_job h) ge (hd_gs h ! i) w = (g, b, w1)" by (metis prod_cases3)
  then have gs: "hd_gs h' = (hd_gs h)[i := g]" using assms(2,4) by (auto simp: handler_pool_step_def Let_def)
  have "sum_list (map goroutine_left (hd_gs h)) = sum_list (map goroutine_left (take i (hd_gs h))) + goroutine_left (hd_gs h ! i) + sum_list (map goroutine_left (drop (Suc i) (hd_gs h)))"
    using arg_cong [OF id_take_nth_drop [OF assms(2)], of "\<lambda>x. sum_list (map goroutine_left x)"] by simp
  moreover have "sum_list (map goroutine_left (hd_gs h')) = sum_list (map goroutine_left (take i (hd_gs h))) + goroutine_left g + sum_list (map goroutine_left (drop (Suc i) (hd_gs h)))"
    unfolding gs using assms(2) by (simp add: upd_conv_take_nth_drop)
  ultimately show ?thesis using gstep_left [OF assms(1,3) g] by (simp add: active_left_def)
qed

lemma begin_left: "handler_begin wk he msg w = (Inl h, w') \<Longrightarrow> active_left h < nat (wc_Concurrency (wk_cfg wk)) + 2"
  using begin_active [of wk he msg w h w'] by (simp add: active_left_def sum_list_replicate)

lemma handler_left:
  assumes "w_ctx w" and "active_moves le h" and "handler_step wk he (le_i le) (le_ge le) h w = (Inl h', w')"
  shows "active_left h' < active_left h"
  using assms(2) step_active [OF assms(3)] pool_left [OF assms(1)] unfolding active_moves_def by blast

lemma consume_decreases:
  assumes "w_ctx w" and "case c of CExit \<Rightarrow> False | CHandle h ms \<Rightarrow> active_moves le h | _ \<Rightarrow> True"
    and "consume_step sq wk le c w = (c', w')" and "n = nat (wc_Concurrency (wk_cfg wk)) + 2"
  shows "consume_left n c' < consume_left n c"
proof (cases "(sq, wk, le, c, w)" rule: consume_step.cases)
  case (6 sq wk le m ms w)
  then show ?thesis using assms begin_left [of wk "le_he le" m w] by (force split: prod.splits sum.splits)
next
  case (7 sq wk le h ms w)
  then show ?thesis using assms handler_left [of w le h wk "le_he le"] by (auto simp: active_left_def split: prod.splits sum.splits)
qed (use assms in \<open>auto split: prod.splits sum.splits if_splits\<close>)

lemma reclaim_decreases:
  assumes "w_ctx w" and "case c of RExit \<Rightarrow> False | RHandle h ms \<Rightarrow> active_moves le h | RWait \<Rightarrow> \<not> le_timer le | _ \<Rightarrow> True"
    and "reclaim_step wk le c w = (c', w')" and "n = nat (wc_Concurrency (wk_cfg wk)) + 2"
  shows "reclaim_left n c' < reclaim_left n c"
proof (cases "(wk, le, c, w)" rule: reclaim_step.cases)
  case (4 wk le h ms w)
  then show ?thesis using assms handler_left [of w le h wk "le_he le"] by (auto simp: active_left_def split: prod.splits sum.splits)
qed (use assms in \<open>auto split: prod.splits sum.splits if_splits\<close>)

lemma Run_decreases:
  assumes "w_ctx (lp_world l)" and "moves l ev"
  shows "steps_left wk (Run_step sq wk l ev) < steps_left wk l" "w_ctx (lp_world (Run_step sq wk l ev))"
proof -
  have "steps_left wk (Run_step sq wk l ev) < steps_left wk l \<and> w_ctx (lp_world (Run_step sq wk l ev))"
  proof (cases ev)
    case (EConsume le)
    obtain c w where s: "consume_step sq wk le (lp_consume l) (lp_world l) = (c, w)" by fastforce
    then show ?thesis using EConsume assms consume_decreases [OF assms(1) _ s refl] consume_follow [OF s] by (simp add: steps_left_def Let_def)
  next
    case (EReclaim le)
    obtain c w where s: "reclaim_step wk le (lp_reclaim l) (lp_world l) = (c, w)" by fastforce
    then show ?thesis using EReclaim assms reclaim_decreases [OF assms(1) _ s refl] reclaim_follow [OF s] by (simp add: steps_left_def Let_def)
  qed (use assms in \<open>simp_all add: steps_left_def Let_def\<close>)
  then show "steps_left wk (Run_step sq wk l ev) < steps_left wk l" "w_ctx (lp_world (Run_step sq wk l ev))" by blast+
qed

fun all_move ::
  "StreamQueue \<Rightarrow> ('e, 's, 'q redis_commands, 'q, 'r, 'x) Worker \<Rightarrow> ('s, 'q, 'r) loops
     \<Rightarrow> ('e, 's, 'q redis_commands, 'q, 'x) loop_event list \<Rightarrow> bool" where
  "all_move sq wk l [] \<longleftrightarrow> True"
| "all_move sq wk l (ev # evs) \<longleftrightarrow> moves l ev \<and> all_move sq wk (Run_step sq wk l ev) evs"

lemma active_can_move: "\<exists>i. active_moves (le\<lparr>le_i := i\<rparr>) h"
  by (auto simp: active_moves_def active_done_def list_all_length)

lemma Run_can_move:
  assumes "\<not> Run_done l" and "\<not> le_timer le"
  shows "\<exists>i. moves l (EConsume (le\<lparr>le_i := i\<rparr>)) \<or> moves l (EReclaim (le\<lparr>le_i := i\<rparr>)) \<or> moves l (EOutbox (le\<lparr>le_i := i\<rparr>))"
proof -
  have "(\<exists>i. moves l (EConsume (le\<lparr>le_i := i\<rparr>))) \<or> lp_consume l = CExit" by (cases "lp_consume l") (simp_all add: active_can_move)
  moreover have "(\<exists>i. moves l (EReclaim (le\<lparr>le_i := i\<rparr>))) \<or> lp_reclaim l = RExit"
    using assms(2) by (cases "lp_reclaim l") (simp_all add: active_can_move)
  moreover have "moves l (EOutbox (le\<lparr>le_i := i\<rparr>)) \<or> lp_outbox l = OExit" for i using assms(2) by (cases "lp_outbox l") simp_all
  ultimately show ?thesis using assms(1) unfolding Run_done_def by blast
qed

lemma all_move_bound:
  "w_ctx (lp_world l) \<Longrightarrow> all_move sq wk l evs \<Longrightarrow> length evs + steps_left wk (foldl (Run_step sq wk) l evs) \<le> steps_left wk l"
proof (induction evs arbitrary: l)
  case (Cons ev evs)
  then have "length evs + steps_left wk (foldl (Run_step sq wk) (Run_step sq wk l ev) evs) \<le> steps_left wk (Run_step sq wk l ev)"
    using Run_decreases [of l ev] by simp
  then show ?case using Run_decreases(1) [of l ev wk sq] Cons.prems by simp
qed simp


subsection \<open>The steps compute the handler\<close>

lemma pool_eta: "\<lparr>p_gs = p_gs p, p_broken = p_broken p, p_world = p_world p\<rparr> = p"
  by (cases p) simp

lemma pool_sched_run:
  "foldl (\<lambda>(h, w) (i, ge). handler_pool_step wk i ge h w) (h, w) evs
     = (let p = foldl (pool_step wk (hd_msg h) (hd_job h)) \<lparr>p_gs = hd_gs h, p_broken = hd_broken h, p_world = w\<rparr> (map (\<lambda>(i, ge). Sched i ge) evs)
        in (h\<lparr>hd_gs := p_gs p, hd_broken := p_broken p\<rparr>, p_world p))"
proof (induction evs arbitrary: h w)
  case (Cons ev evs)
  obtain i ge where ev: "ev = (i, ge)" by fastforce
  let ?p = "pool_step wk (hd_msg h) (hd_job h) \<lparr>p_gs = hd_gs h, p_broken = hd_broken h, p_world = w\<rparr> (Sched i ge)"
  have "handler_pool_step wk i ge h w = (h\<lparr>hd_gs := p_gs ?p, hd_broken := p_broken ?p\<rparr>, p_world ?p)"
    by (simp only: handler_pool_step_def Let_def)
  then show ?case unfolding ev by (simp add: Cons.IH Let_def pool_eta del: pool_step.simps)
qed simp

text \<open>A handler that is stepped with nothing in between computes what \<open>handleMessage\<close> returns under the same
  schedule, result and world alike.\<close>

theorem handler_steps_are_handleMessage:
  "handleMessage wk he (map (\<lambda>(i, ge). Sched i ge) evs) msg w =
     (case handler_begin wk he msg w of
        (Inr res, w) \<Rightarrow> Some (res, w)
      | (Inl h, w) \<Rightarrow>
          (case foldl (\<lambda>(h, w) (i, ge). handler_pool_step wk i ge h w) (h, w) evs of
             (h, w) \<Rightarrow> if active_done h then Some (handler_finish wk he h w) else None))"
proof -
  have "\<lparr>p_gs = p_gs (pool_start wk w1), p_broken = False, p_world = w1\<rparr> = pool_start wk w1" for w1 by (simp add: pool_start_def)
  then show ?thesis
    by (simp add: pool_eta handleMessage_def handler_begin_def pool_sched_run Let_def active_done_def pool_done_def handler_finish_def split: prod.split bool.split sum.split)
qed

text \<open>The in-memory queue looks at the context only when nothing is pending: with messages pending it goes on
  delivering after the context ended.\<close>

lemma memq_consume_ignores_context:
  "mq_pending (w_queue w) = m # ms \<Longrightarrow> fst (mem_consume_head now w) = CDeliver [m]"
  by (simp add: mem_consume_head_def on_queue_def takeOne_def)

subsection \<open>Samples\<close>

text \<open>A server whose group exists, whose stream has one entry and whose pending list holds the same entry, idle.\<close>

definition sample_xm :: XMessage where "sample_xm = \<lparr>xm_ID = ''1-0'', xm_Values = [(fieldJobID, RStr ''j'')]\<rparr>"

definition sample_redis :: "unit redis_commands" where
  "sample_redis = \<lparr>rc_XAdd = (\<lambda>_ _ _ r. (Inr ''1-0'', r)), rc_XReadGroup = (\<lambda>_ _ _ _ _ r. (ReadStreams [[sample_xm]], r)),
     rc_XAck = (\<lambda>_ _ _ r. (Inr 1, r)), rc_XAutoClaim = (\<lambda>_ _ _ _ _ _ r. (Inr [sample_xm], r)),
     rc_XGroupCreateMkStream = (\<lambda>_ _ _ r. (Inl ''BUSYGROUP Consumer Group name already exists'', r))\<rparr>"

definition sample_sq :: StreamQueue where
  "sample_sq = NewStreamQueue \<lparr>st_Key = ''k'', st_Group = ''g''\<rparr> ''c'' []"

definition stream_worker :: "(repo_env, job_tables, unit redis_commands, unit, unit, unit) Worker" where
  "stream_worker = \<lparr>wk_queue = RedisQueue sample_sq, wk_store = sample_repo, wk_intn = zero_intn, wk_int63n = zero_int63n,
     wk_client = Inference.New sample_config, wk_lib = sample_lib,
     wk_cfg = \<lparr>wc_Concurrency = 2, wc_MaxItemAttempts = 3, wc_ReclaimMinIdle = 1, wc_ReclaimInterval = 1,
       wc_OutboxInterval = 1, wc_OutboxBatch = 1\<rparr>\<rparr>"

definition stream_world :: "bool \<Rightarrow> (job_tables, unit, unit) world" where
  "stream_world ctx = \<lparr>w_store = sample_tables ItemStatusQueued, w_queue = (), w_sel = NewSelector True (), w_br = sample_breaker,
     w_inflight = [], w_ctx = ctx, WorkerFailuresTotal = 0, BatchItemsProcessedTotal = (\<lambda>_. 0)\<rparr>"

definition sample_le :: "(repo_env, unit redis_commands, unit) lenv" where
  "sample_le = \<lparr>le_queue = sample_redis, le_store = sample_repo_env 6,
     le_he = \<lparr>he_mark = sample_repo_env 6, he_requeue = sample_repo_env 6, he_recompute = sample_repo_env 9, he_dlq = sample_redis, he_ack = sample_redis\<rparr>,
     le_i = 0, le_ge = \<lparr>ge_store = sample_repo_env 7, ge_queue = sample_redis, ge_policies = sample_policies, ge_backends = sample_backends,
       ge_clk = (\<lambda>_. 5), ge_now = 6, ge_attempts = ge_attempts sample_ge, ge_rng = (), ge_panic = False\<rparr>,
     le_timer = False, le_rows = (\<lambda>_. (sample_redis, sample_repo_env 8))\<rparr>"

text \<open>The consume loop is in the handler of the entry when the reclaim loop claims the same entry.\<close>

definition sample_loops :: "(job_tables, unit, unit) loops" where
  "sample_loops = foldl (Run_step sample_sq stream_worker) (Run_start (stream_world False))
     [EConsume sample_le, EConsume sample_le, EConsume sample_le, EReclaim sample_le, EReclaim sample_le]"

lemma reaches_foldl: "Run_reaches sq wk w l \<Longrightarrow> Run_reaches sq wk w (foldl (Run_step sq wk) l evs)"
  by (induction evs arbitrary: l) (simp_all add: Run_reaches.step del: Run_step.simps)

lemma sample_loops_actives: "active_ids sample_loops = [''1-0''] \<and> lp_reclaim sample_loops = RLoop []"
  by code_simp

theorem one_handler_per_message_witness:
  "Run_reaches sample_sq stream_worker (stream_world False) sample_loops \<and> active_ids sample_loops = [''1-0'']
   \<and> set (w_inflight (lp_world sample_loops)) = {''1-0''}"
proof -
  have reach: "Run_reaches sample_sq stream_worker (stream_world False) sample_loops"
    unfolding sample_loops_def by (intro reaches_foldl Run_reaches.start)
  show ?thesis using one_handler_per_message [OF reach] reach sample_loops_actives by (simp add: stream_world_def)
qed

lemma sample_stop_moves:
  "all_move sample_sq stream_worker (Run_step sample_sq stream_worker sample_loops EStop)
     [EConsume sample_le, EConsume (sample_le\<lparr>le_i := 1\<rparr>), EConsume sample_le, EConsume sample_le, EConsume sample_le, EConsume sample_le,
      EReclaim sample_le, EReclaim sample_le, EOutbox sample_le]"
  by code_simp


end
