(* ===== verification/Observability.thy ===== *)
theory Observability
  imports Queue Config
begin

section \<open>Logging and metrics (internal/observability, internal/metrics)\<close>

text \<open>
  The choice of the log level, the test for secret-bearing names, and the registry of collectors: a
  collector is its name and its labels, and registering a name twice is a panic of the client library. What the logger
  and the registry print is not modelled.
\<close>

subsection \<open>observability.go\<close>

datatype slog_level = LevelDebug | LevelInfo | LevelWarn | LevelError

definition NewLogger :: "string \<Rightarrow> slog_level" where
  "NewLogger level =
     (let l = ToLower level
      in if l = ''debug'' then LevelDebug else if l = ''warn'' then LevelWarn else if l = ''error'' then LevelError else LevelInfo)"

definition redactMarkers :: "string list" where
  "redactMarkers = [''authorization'', ''cookie'', ''token'', ''secret'', ''password'', ''api-key'', ''api_key'', ''x-admin-token'']"

definition Redact :: "string \<Rightarrow> bool" where
  "Redact name = list_ex (Contains (ToLower name)) redactMarkers"

subsection \<open>metrics.go\<close>

datatype collector_kind = Counter | CounterVec | GaugeVec | HistogramVec

record collector =
  co_name :: string
  co_kind :: collector_kind
  co_labels :: "string list"

definition collector_of :: "string \<Rightarrow> collector_kind \<Rightarrow> string list \<Rightarrow> collector" where
  "collector_of name kind labels = \<lparr>co_name = name, co_kind = kind, co_labels = labels\<rparr>"

definition all_collectors :: "collector list" where
  "all_collectors =
     [collector_of ''aegisroute_http_requests_total'' CounterVec [''route'', ''method'', ''status''],
      collector_of ''aegisroute_http_request_duration_seconds'' HistogramVec [''route'', ''method''],
      collector_of ''aegisroute_backend_requests_total'' CounterVec [''backend'', ''outcome''],
      collector_of ''aegisroute_backend_request_duration_seconds'' HistogramVec [''backend''],
      collector_of ''aegisroute_cache_events_total'' CounterVec [''result''],
      collector_of ''aegisroute_rate_limited_total'' Counter [],
      collector_of ''aegisroute_batch_jobs_created_total'' Counter [],
      collector_of ''aegisroute_batch_items_processed_total'' CounterVec [''outcome''],
      collector_of ''aegisroute_worker_failures_total'' Counter [],
      collector_of ''aegisroute_circuit_breaker_state'' GaugeVec [''backend''],
      collector_of ''aegisroute_chat_completion_duration_seconds'' HistogramVec [''cache''],
      collector_of ''aegisroute_backend_retries_total'' CounterVec [''backend''],
      collector_of ''aegisroute_circuit_breaker_short_circuits_total'' CounterVec [''backend''],
      collector_of ''aegisroute_circuit_breaker_transitions_total'' CounterVec [''backend'', ''to''],
      collector_of ''aegisroute_backend_in_flight'' GaugeVec [''backend'']]"

text \<open>The names of metrics and labels the client library accepts.\<close>

definition name_char :: "bool \<Rightarrow> char \<Rightarrow> bool" where
  "name_char start c \<longleftrightarrow>
     (let n = (of_char c :: nat)
      in (65 \<le> n \<and> n \<le> 90) \<or> (97 \<le> n \<and> n \<le> 122) \<or> c = CHR ''_'' \<or> (\<not> start \<and> 48 \<le> n \<and> n \<le> 57))"

definition metric_name :: "string \<Rightarrow> bool" where
  "metric_name s \<longleftrightarrow> (case s of [] \<Rightarrow> False | c # cs \<Rightarrow> name_char True c \<and> list_all (name_char False) cs)"

text \<open>\<open>MustRegister\<close>: \<open>None\<close> is its panic.\<close>

fun MustRegister :: "collector list \<Rightarrow> collector list \<Rightarrow> collector list option" where
  "MustRegister reg [] = Some reg"
| "MustRegister reg (c # cs) =
     (if \<not> metric_name (co_name c) \<or> \<not> list_all metric_name (co_labels c) \<or> \<not> distinct (co_labels c) \<or> co_name c \<in> co_name ` set reg then None
      else MustRegister (reg @ [c]) cs)"

definition metrics_New :: "collector list option" where
  "metrics_New = MustRegister [] all_collectors"

subsection \<open>Facts\<close>

lemma Contains_iff: "Contains s sub \<longleftrightarrow> sublist sub s"
proof (induction s)
  case (Cons c s)
  have "take (length sub) (c # s) = sub \<longleftrightarrow> prefix sub (c # s)" by (auto simp: prefix_def) (metis append_take_drop_id)
  then show ?case using Cons by (simp add: sublist_Cons_right)
qed simp

text \<open>A name is redacted exactly when, in lower case, it has one of the markers as a part; so are all the variables and
  headers that carry credentials, in any spelling of the letters.\<close>

theorem Redact_exact:
  "(Redact name \<longleftrightarrow> (\<exists>m \<in> set redactMarkers. sublist m (ToLower name)))
   \<and> list_all Redact [''APP_KEY_HASH_SECRET'', ''ADMIN_TOKEN'', ''DEV_API_KEY'', ''Authorization'', ''X-Admin-Token'', ''Set-Cookie'', ''X-Api-Key'']"
proof
  show "Redact name \<longleftrightarrow> (\<exists>m \<in> set redactMarkers. sublist m (ToLower name))" by (simp add: Redact_def list_ex_iff Contains_iff)
  show "list_all Redact [''APP_KEY_HASH_SECRET'', ''ADMIN_TOKEN'', ''DEV_API_KEY'', ''Authorization'', ''X-Admin-Token'', ''Set-Cookie'', ''X-Api-Key'']"
    by code_simp
qed

lemma metrics_New_registers: "metrics_New = Some all_collectors"
  by code_simp

end
