(* ===== verification/Mock_Llm.thy ===== *)
theory Mock_Llm
  imports Http Config Inference
begin

section \<open>The mock backend (cmd/mock-llm/main.go)\<close>

text \<open>
  The deterministic fake of an OpenAI-compatible backend: its configuration from the environment, the two
  handlers and the fault and latency injection. Its random generator is a state with the two draws the
  code makes; \<open>json.Unmarshal\<close> of a whole text to a value, \<open>strconv.ParseFloat\<close> and the verb \<open>%g\<close> are parameters
  (\<open>mock_lib\<close>). How \<open>main\<close> ends is in \<open>Startup\<close>.
\<close>

subsection \<open>float64\<close>

text \<open>The values of a \<open>float64\<close>, with the comparisons of IEEE 754.\<close>

datatype float64 = FNaN | FNegInf | FPosInf | FFin rat

fun f_less :: "float64 \<Rightarrow> float64 \<Rightarrow> bool" where
  "f_less (FFin a) (FFin b) \<longleftrightarrow> a < b"
| "f_less FNegInf (FFin b) \<longleftrightarrow> True"
| "f_less FNegInf FPosInf \<longleftrightarrow> True"
| "f_less (FFin a) FPosInf \<longleftrightarrow> True"
| "f_less _ _ \<longleftrightarrow> False"

definition f_le :: "float64 \<Rightarrow> float64 \<Rightarrow> bool" where
  "f_le a b \<longleftrightarrow> f_less a b \<or> (a = b \<and> a \<noteq> FNaN)"

subsection \<open>strings.Fields\<close>

function fields_from :: "string \<Rightarrow> string \<Rightarrow> string list" where
  "fields_from word s =
     (case find (\<lambda>p. p \<noteq> [] \<and> prefix p s) space_seqs of
        Some p \<Rightarrow> (if word = [] then [] else [word]) @ fields_from [] (drop (length p) s)
      | None \<Rightarrow> (case s of [] \<Rightarrow> (if word = [] then [] else [word]) | c # cs \<Rightarrow> fields_from (word @ [c]) cs))"
  by pat_completeness auto
termination
proof (relation "measure (\<lambda>(_, s). length s)")
  fix word s p
  assume "find (\<lambda>p. p \<noteq> [] \<and> prefix p s) space_seqs = Some p"
  then have "p \<noteq> []" and "prefix p s" by (auto simp: find_Some_iff)
  then show "(([], drop (length p) s), (word, s)) \<in> measure (\<lambda>(_, s). length s)"
    by (cases s) (auto simp: prefix_def)
qed simp_all

declare fields_from.simps [simp del]

definition Fields :: "string \<Rightarrow> string list" where
  "Fields s = fields_from [] s"

subsection \<open>Configuration\<close>

record mock_lib =
  ml_json :: json_lib
  ml_unmarshal :: "string \<Rightarrow> json option"
  ml_ParseFloat :: "string \<Rightarrow> float64 option"
  ml_fmt_g :: "float64 \<Rightarrow> string"

record mock_config =
  mk_port :: int
  mk_latency :: duration
  mk_jitter :: duration
  mk_failureRate :: float64
  mk_backendName :: string
  mk_modelName :: string

definition envString :: "(string \<Rightarrow> string) \<Rightarrow> string \<Rightarrow> string \<Rightarrow> string" where
  "envString env key def = (if env key \<noteq> [] then env key else def)"

definition envInt :: "mock_lib \<Rightarrow> (string \<Rightarrow> string) \<Rightarrow> string \<Rightarrow> int \<Rightarrow> int \<times> string list" where
  "envInt lib env key def =
     (if env key = [] then (def, [])
      else case Atoi (env key) of
             None \<Rightarrow> (def, [key @ '': not an integer: '' @ jl_quote (ml_json lib) (env key)])
           | Some n \<Rightarrow> (n, []))"

definition envFloat :: "mock_lib \<Rightarrow> (string \<Rightarrow> string) \<Rightarrow> string \<Rightarrow> float64 \<Rightarrow> float64 \<times> string list" where
  "envFloat lib env key def =
     (if env key = [] then (def, [])
      else case ml_ParseFloat lib (env key) of
             None \<Rightarrow> (def, [key @ '': not a number: '' @ jl_quote (ml_json lib) (env key)])
           | Some f \<Rightarrow> (f, []))"

text \<open>\<open>time.Duration(n) * time.Millisecond\<close>, in 64 bits.\<close>

definition millis :: "int \<Rightarrow> duration" where
  "millis n = int64 (n * 1000000)"

definition loadConfig :: "mock_lib \<Rightarrow> (string \<Rightarrow> string) \<Rightarrow> string + mock_config" where
  "loadConfig lib env =
     (let (port, e1) = envInt lib env ''MOCK_PORT'' 8081;
          (latency, e2) = envInt lib env ''MOCK_LATENCY_MS'' 0;
          (jitter, e3) = envInt lib env ''MOCK_JITTER_MS'' 0;
          (rate, e4) = envFloat lib env ''MOCK_FAILURE_RATE'' (FFin 0);
          cfg = \<lparr>mk_port = port, mk_latency = millis latency, mk_jitter = millis jitter, mk_failureRate = rate,
                 mk_backendName = envString env ''MOCK_BACKEND_NAME'' ''mock-llm'',
                 mk_modelName = envString env ''MOCK_MODEL_NAME'' ''llama-fast''\<rparr>;
          errs = e1 @ e2 @ e3 @ e4
            @ (if port < 1 \<or> port > 65535 then [''MOCK_PORT: must be a valid TCP port, got '' @ int_decimal port] else [])
            @ (if mk_latency cfg < 0 then [''MOCK_LATENCY_MS: must be >= 0''] else [])
            @ (if mk_jitter cfg < 0 then [''MOCK_JITTER_MS: must be >= 0''] else [])
            @ (if f_less rate (FFin 0) \<or> f_less (FFin 1) rate
               then [''MOCK_FAILURE_RATE: must be in [0,1], got '' @ ml_fmt_g lib rate] else [])
      in if errs \<noteq> [] then Inl (''mock-llm config: '' @ join_semi errs) else Inr cfg)"

subsection \<open>The request\<close>

record mock_message =
  mm_Role :: string
  mm_Content :: string

definition empty_message :: mock_message where
  "empty_message = \<lparr>mm_Role = [], mm_Content = []\<rparr>"

text \<open>Storing into a string field; \<open>None\<close>: a type error, after which \<open>Unmarshal\<close> fails whatever follows.\<close>

definition store_str :: "(string \<Rightarrow> 'a) \<Rightarrow> 'a \<Rightarrow> json \<Rightarrow> 'a option" where
  "store_str upd old v = (case v of JStr s \<Rightarrow> Some (upd s) | JNull \<Rightarrow> Some old | _ \<Rightarrow> None)"

fun message_members :: "(string \<times> json) list \<Rightarrow> mock_message \<Rightarrow> mock_message option" where
  "message_members [] m = Some m"
| "message_members ((k, v) # ms) m =
     (case (if names_field ''role'' k then store_str (\<lambda>s. m\<lparr>mm_Role := s\<rparr>) m v
            else if names_field ''content'' k then store_str (\<lambda>s. m\<lparr>mm_Content := s\<rparr>) m v
            else Some m) of
        None \<Rightarrow> None
      | Some m \<Rightarrow> message_members ms m)"

definition store_message :: "json \<Rightarrow> mock_message \<Rightarrow> mock_message option" where
  "store_message v m = (case v of JObj ms \<Rightarrow> message_members ms m | JNull \<Rightarrow> Some m | _ \<Rightarrow> None)"

text \<open>
  A slice is its backing elements and its length. An array is decoded element by element into the elements
  that are there, of an earlier member of the same name too; what is past the new length stays behind it.
\<close>

fun store_elems :: "json list \<Rightarrow> mock_message list \<Rightarrow> mock_message list option" where
  "store_elems [] backing = Some backing"
| "store_elems (v # vs) backing =
     (case store_message v (case backing of [] \<Rightarrow> empty_message | m # _ \<Rightarrow> m) of
        None \<Rightarrow> None
      | Some m \<Rightarrow> map_option ((#) m) (store_elems vs (tl backing)))"

definition store_messages :: "json \<Rightarrow> mock_message list \<times> nat \<Rightarrow> (mock_message list \<times> nat) option" where
  "store_messages v old =
     (case v of
        JArr [] \<Rightarrow> Some ([], 0)
      | JArr vs \<Rightarrow> map_option (\<lambda>b. (b, length vs)) (store_elems vs (fst old))
      | JNull \<Rightarrow> Some ([], 0)
      | _ \<Rightarrow> None)"

record chatRequest =
  rq_Model :: string
  rq_slice :: "mock_message list \<times> nat"

definition rq_Messages :: "chatRequest \<Rightarrow> mock_message list" where
  "rq_Messages r = take (snd (rq_slice r)) (fst (rq_slice r))"

fun request_members :: "(string \<times> json) list \<Rightarrow> chatRequest \<Rightarrow> chatRequest option" where
  "request_members [] r = Some r"
| "request_members ((k, v) # ms) r =
     (case (if names_field ''model'' k then store_str (\<lambda>s. r\<lparr>rq_Model := s\<rparr>) r v
            else if names_field ''messages'' k then map_option (\<lambda>x. r\<lparr>rq_slice := x\<rparr>) (store_messages v (rq_slice r))
            else Some r) of
        None \<Rightarrow> None
      | Some r \<Rightarrow> request_members ms r)"

definition Unmarshal_request :: "mock_lib \<Rightarrow> string \<Rightarrow> chatRequest option" where
  "Unmarshal_request lib body =
     (let zero = \<lparr>rq_Model = [], rq_slice = ([], 0)\<rparr>
      in case ml_unmarshal lib body of
           None \<Rightarrow> None
         | Some (JObj ms) \<Rightarrow> request_members ms zero
         | Some JNull \<Rightarrow> Some zero
         | Some _ \<Rightarrow> None)"

subsection \<open>Handlers\<close>

definition mockCreated :: int where "mockCreated = 1735689600"

definition mock_maxBodyBytes :: nat where "mock_maxBodyBytes = push_bit 20 1"

definition mock_writeJSON :: "json_lib \<Rightarrow> int \<Rightarrow> json \<Rightarrow> response_writer \<Rightarrow> response_writer" where
  "mock_writeJSON lib status v w =
     (let w = WriteHeader status (set_header ''Content-Type'' json_content_type w)
      in case marshal lib v of None \<Rightarrow> w | Some s \<Rightarrow> write_bytes (s @ [CHR 0x0A]) w)"

definition writeOpenAIError :: "json_lib \<Rightarrow> int \<Rightarrow> string \<Rightarrow> response_writer \<Rightarrow> response_writer" where
  "writeOpenAIError lib status message w =
     (let kind = (if status \<ge> 500 then ''server_error'' else ''invalid_request_error'')
      in mock_writeJSON lib status (JObj [(''error'', JObj [(''message'', JStr message), (''type'', JStr kind)])]) w)"

definition mock_healthz :: "json_lib \<Rightarrow> response_writer \<Rightarrow> response_writer" where
  "mock_healthz lib w = mock_writeJSON lib 200 (JObj [(''status'', JStr ''ok'')]) w"

text \<open>The two draws of \<open>rand.Rand\<close>.\<close>

record 'g mock_rng =
  mg_Float64 :: "'g \<Rightarrow> float64 \<times> 'g"
  mg_Int63n :: "'g int63n"

definition injectFailure :: "'g mock_rng \<Rightarrow> mock_config \<Rightarrow> 'g \<Rightarrow> bool \<times> 'g" where
  "injectFailure rng cfg g =
     (if f_le (mk_failureRate cfg) (FFin 0) then (False, g)
      else if f_le (FFin 1) (mk_failureRate cfg) then (True, g)
      else case mg_Float64 rng g of (x, g) \<Rightarrow> (f_less x (mk_failureRate cfg), g))"

text \<open>The time \<open>simulateLatency\<close> waits for, at most; \<open>None\<close> is the panic of \<open>Int63n\<close>.\<close>

definition simulateLatency :: "'g mock_rng \<Rightarrow> mock_config \<Rightarrow> 'g \<Rightarrow> (duration \<times> 'g) option" where
  "simulateLatency rng cfg g =
     (if mk_jitter cfg > 0
      then let bound = int64 (mk_jitter cfg + 1)
           in if bound \<le> 0 then None
              else case mg_Int63n rng g bound of (j, g) \<Rightarrow> Some (max 0 (int64 (mk_latency cfg + j)), g)
      else Some (max 0 (mk_latency cfg), g))"

definition completion_content :: "mock_config \<Rightarrow> string \<Rightarrow> string \<Rightarrow> string" where
  "completion_content cfg digest model = ''mock completion '' @ digest @ '' from '' @ mk_backendName cfg @ '' for model '' @ model"

text \<open>The members of Go maps are marshalled in the order of their keys.\<close>

definition completion_value :: "mock_lib \<Rightarrow> mock_config \<Rightarrow> string \<Rightarrow> chatRequest \<Rightarrow> json" where
  "completion_value lib cfg body req =
     (let digest = take 16 (sha256_hex (ml_json lib) body);
          content = completion_content cfg digest (rq_Model req);
          promptTokens = sum_list (map (\<lambda>m. length (Fields (mm_Content m))) (rq_Messages req));
          completionTokens = length (Fields content)
      in JObj [(''choices'', JArr [JObj [(''finish_reason'', JStr ''stop''), (''index'', JNum ''0''),
                 (''message'', JObj [(''content'', JStr content), (''role'', JStr ''assistant'')])]]),
               (''created'', JNum (int_decimal mockCreated)), (''id'', JStr (''chatcmpl-'' @ digest)), (''model'', JStr (mk_modelName cfg)),
               (''object'', JStr ''chat.completion''),
               (''usage'', JObj [(''completion_tokens'', JNum (nat_decimal completionTokens)), (''prompt_tokens'', JNum (nat_decimal promptTokens)),
                 (''total_tokens'', JNum (nat_decimal (promptTokens + completionTokens)))])])"

text \<open>The response, the time waited and the generator; \<open>None\<close>: a panic. \<open>readErr\<close>: the connection fails while the body is read.\<close>

definition completions ::
  "mock_lib \<Rightarrow> 'g mock_rng \<Rightarrow> mock_config \<Rightarrow> string \<Rightarrow> bool \<Rightarrow> response_writer \<Rightarrow> 'g \<Rightarrow> (response_writer \<times> duration \<times> 'g) option" where
  "completions lib rng cfg body readErr w g =
     (let js = ml_json lib in
      if length body > mock_maxBodyBytes \<or> readErr then Some (writeOpenAIError js 400 ''could not read request body'' w, 0, g)
      else case Unmarshal_request lib body of
        None \<Rightarrow> Some (writeOpenAIError js 400 ''request body is not valid JSON'' w, 0, g)
      | Some req \<Rightarrow>
          (if rq_Model req = [] \<or> rq_Messages req = [] then Some (writeOpenAIError js 400 ''model and messages are required'' w, 0, g)
           else case injectFailure rng cfg g of
             (True, g) \<Rightarrow> Some (writeOpenAIError js 503 ''mock backend injected failure'' w, 0, g)
           | (False, g) \<Rightarrow>
               (case simulateLatency rng cfg g of
                  None \<Rightarrow> None
                | Some (d, g) \<Rightarrow> Some (mock_writeJSON js 200 (completion_value lib cfg body req) w, d, g))))"

text \<open>\<open>http.Error\<close>.\<close>

definition http_Error :: "string \<Rightarrow> int \<Rightarrow> response_writer \<Rightarrow> response_writer" where
  "http_Error message code w =
     write_bytes (message @ [CHR 0x0A])
       (WriteHeader code (set_header ''X-Content-Type-Options'' ''nosniff'' (set_header ''Content-Type'' ''text/plain; charset=utf-8'' w)))"

text \<open>The mux of \<open>newHandler\<close> on a clean path: a pattern with GET takes HEAD too, another method is a 405.\<close>

definition newHandler ::
  "mock_lib \<Rightarrow> 'g mock_rng \<Rightarrow> mock_config \<Rightarrow> string \<Rightarrow> string \<Rightarrow> string \<Rightarrow> bool \<Rightarrow> response_writer \<Rightarrow> 'g
     \<Rightarrow> (response_writer \<times> duration \<times> 'g) option" where
  "newHandler lib rng cfg meth path body readErr w g =
     (let not_allowed = (\<lambda>allow. Some (http_Error ''Method Not Allowed'' 405 (set_header ''Allow'' allow w), 0, g)) in
      if path = ''/healthz'' then
        (if meth \<in> {''GET'', ''HEAD''} then Some (mock_healthz (ml_json lib) w, 0, g) else not_allowed ''GET, HEAD'')
      else if path = completionsPath then
        (if meth = ''POST'' then completions lib rng cfg body readErr w g else not_allowed ''POST'')
      else Some (http_Error ''404 page not found'' 404 w, 0, g))"

subsection \<open>No draw panics\<close>

text \<open>A configured jitter is a multiple of a millisecond, so that one more never wraps to a bound that is not positive.\<close>

lemma int64_even: "even i \<Longrightarrow> even (int64 i)"
  by (simp add: int64_def signed_of_int even_signed_take_bit_iff)

lemma millis_even: "even (millis n)"
  unfolding millis_def by (rule int64_even) simp

lemma loadConfig_ok:
  assumes "loadConfig lib env = Inr cfg"
  shows "0 \<le> mk_latency cfg" "0 \<le> mk_jitter cfg" "even (mk_jitter cfg)" "mk_jitter cfg < 2 ^ 63" "1 \<le> mk_port cfg" "mk_port cfg \<le> 65535"
    "\<not> f_less (mk_failureRate cfg) (FFin 0) \<and> \<not> f_less (FFin 1) (mk_failureRate cfg)"
  using assms millis_even int64_range(2)
  by (auto simp: loadConfig_def Let_def millis_def split: prod.splits if_splits)

lemma latency_ok:
  assumes "loadConfig lib env = Inr cfg"
  shows "\<exists>d g'. simulateLatency rng cfg g = Some (d, g') \<and> 0 \<le> d"
proof -
  note c = loadConfig_ok [OF assms]
  have "mk_jitter cfg \<noteq> 2 ^ 63 - 1"
  proof
    assume "mk_jitter cfg = 2 ^ 63 - 1"
    then have "odd (mk_jitter cfg)" by simp
    then show False using c(3) by simp
  qed
  then have "int64 (mk_jitter cfg + 1) = mk_jitter cfg + 1" using c(2,4) by (intro int64_id) auto
  then show ?thesis using c(2) by (simp add: simulateLatency_def Let_def split: prod.splits)
qed

subsection \<open>The answers\<close>

definition mock_accepts :: "mock_lib \<Rightarrow> string \<Rightarrow> bool \<Rightarrow> bool" where
  "mock_accepts lib body readErr \<longleftrightarrow> length body \<le> mock_maxBodyBytes \<and> \<not> readErr
     \<and> (case Unmarshal_request lib body of None \<Rightarrow> False | Some req \<Rightarrow> rq_Model req \<noteq> [] \<and> rq_Messages req \<noteq> [])"

text \<open>The specification: what a request gets, as a function of the configuration and the body alone.\<close>

definition mock_answer :: "mock_lib \<Rightarrow> mock_config \<Rightarrow> string \<Rightarrow> bool \<Rightarrow> int \<times> json" where
  "mock_answer lib cfg body readErr =
     (let bad = (\<lambda>m. (400, JObj [(''error'', JObj [(''message'', JStr m), (''type'', JStr ''invalid_request_error'')])]))
      in if length body > mock_maxBodyBytes \<or> readErr then bad ''could not read request body''
         else case Unmarshal_request lib body of
                None \<Rightarrow> bad ''request body is not valid JSON''
              | Some req \<Rightarrow> (if rq_Model req = [] \<or> rq_Messages req = [] then bad ''model and messages are required''
                             else (200, completion_value lib cfg body req)))"

definition injected_answer :: "int \<times> json" where
  "injected_answer = (503, JObj [(''error'', JObj [(''message'', JStr ''mock backend injected failure''), (''type'', JStr ''server_error'')])])"

lemma inject_exact:
  "mk_failureRate cfg = FFin 0 \<Longrightarrow> \<not> fst (injectFailure rng cfg g)" "mk_failureRate cfg = FFin 1 \<Longrightarrow> fst (injectFailure rng cfg g)"
  by (simp_all add: injectFailure_def f_le_def)

text \<open>A backend that came up with its configuration answers every request without a panic, and by a function of the
  request body alone: identical bodies get identical responses, except that an acceptable request is answered
  503 when the draw says so; at rate 0 it never does, at rate 1 always. The wait is never negative.\<close>

theorem mock_is_deterministic:
  assumes "loadConfig lib env = Inr cfg"
  shows "\<exists>d g'. completions lib rng cfg body readErr w g =
      Some (case (if mock_accepts lib body readErr \<and> fst (injectFailure rng cfg g) then injected_answer else mock_answer lib cfg body readErr) of
              (status, v) \<Rightarrow> mock_writeJSON (ml_json lib) status v w, d, g') \<and> 0 \<le> d
    \<and> (mk_failureRate cfg = FFin 0 \<longrightarrow> \<not> fst (injectFailure rng cfg g)) \<and> (mk_failureRate cfg = FFin 1 \<longrightarrow> fst (injectFailure rng cfg g))"
proof -
  obtain inj g1 where inj: "injectFailure rng cfg g = (inj, g1)" by (cases "injectFailure rng cfg g")
  obtain d g2 where lat: "simulateLatency rng cfg g1 = Some (d, g2)" "0 \<le> d" using latency_ok [OF assms, of rng g1] by blast
  have "mk_failureRate cfg = FFin 0 \<longrightarrow> \<not> inj" "mk_failureRate cfg = FFin 1 \<longrightarrow> inj"
    using inject_exact [of cfg rng g] unfolding inj fst_conv by blast+
  moreover have "\<exists>d g'. completions lib rng cfg body readErr w g =
      Some (case (if mock_accepts lib body readErr \<and> inj then injected_answer else mock_answer lib cfg body readErr) of
              (status, v) \<Rightarrow> mock_writeJSON (ml_json lib) status v w, d, g') \<and> 0 \<le> d"
  proof (cases "mock_accepts lib body readErr")
    case True
    then obtain req where "length body \<le> mock_maxBodyBytes" "\<not> readErr" "Unmarshal_request lib body = Some req" "rq_Model req \<noteq> []" "rq_Messages req \<noteq> []"
      by (auto simp: mock_accepts_def split: option.splits)
    then show ?thesis using True inj lat
      by (cases inj) (auto simp: completions_def mock_answer_def injected_answer_def writeOpenAIError_def Let_def)
  next
    case False
    then show ?thesis by (auto simp: mock_accepts_def completions_def mock_answer_def writeOpenAIError_def Let_def split: option.splits)
  qed
  ultimately show ?thesis using inj by simp
qed

subsection \<open>The gateway's client against the mock\<close>

definition upstream_of :: "response_writer \<Rightarrow> upstream" where
  "upstream_of w = \<lparr>up_Status = fst (the (rw_sent w)), up_Bytes = rw_body w, up_ReadErr = None, up_CloseErr = None\<rparr>"

text \<open>The world of the \<open>i\<close>-th attempt of a client whose network works: the mock with its generator in state \<open>gs i\<close>;
  a handler that panicked closes the connection.\<close>

definition mock_env :: "mock_lib \<Rightarrow> 'g mock_rng \<Rightarrow> mock_config \<Rightarrow> string \<Rightarrow> (int \<Rightarrow> 'g) \<Rightarrow> int \<Rightarrow> attempt_env" where
  "mock_env lib rng cfg body gs i =
     \<lparr>env_Sleep = None, env_NewRequest = None,
      env_Do = (case completions lib rng cfg body False fresh_writer (gs i) of
                  None \<Rightarrow> Inl (OtherErr ''EOF'') | Some (w, _, _) \<Rightarrow> Inr (upstream_of w)),
      env_CtxErr = None, env_CtxErrAfter = None, env_Elapsed = 0\<rparr>"

lemma upstream_of_write:
  "up_Status (upstream_of (mock_writeJSON lib st v fresh_writer)) = st" "up_ReadErr (upstream_of w) = None" "up_CloseErr (upstream_of w) = None"
  "marshal lib v = Some s \<Longrightarrow> up_Bytes (upstream_of (mock_writeJSON lib st v fresh_writer)) = s @ [CHR 0x0A]"
  by (simp_all add: upstream_of_def mock_writeJSON_def fresh_writer_def WriteHeader_def set_header_def write_bytes_def Let_def split: option.splits)

lemma attempt_answer:
  assumes "env_NewRequest e = None" and "env_Do e = Inr u" and "up_ReadErr u = None" and "up_CloseErr u = None"
    and "int (length (up_Bytes u)) \<le> maxResponseBytes c" and "0 < maxResponseBytes c" and "maxResponseBytes c < 2 ^ 63 - 1"
  shows "up_Status u = 200 \<Longrightarrow> fst (attempt c e backend []) = (Some \<lparr>resp_StatusCode = 200, resp_Body = up_Bytes u\<rparr>, None)"
    "up_Status u = 503 \<Longrightarrow> fst (attempt c e backend [])
       = (None, Some \<lparr>err_Backend = mb_Name backend, err_Status = 503, err_Transient = True, err_Err = None\<rparr>)"
proof -
  have "int64 (maxResponseBytes c + 1) = maxResponseBytes c + 1" using assms(6,7) by (intro int64_id) auto
  then show "up_Status u = 200 \<Longrightarrow> fst (attempt c e backend []) = (Some \<lparr>resp_StatusCode = 200, resp_Body = up_Bytes u\<rparr>, None)"
    "up_Status u = 503 \<Longrightarrow> fst (attempt c e backend [])
       = (None, Some \<lparr>err_Backend = mb_Name backend, err_Status = 503, err_Transient = True, err_Err = None\<rparr>)"
    using assms by (simp_all add: attempt_def ReadAll_LimitReader_def Let_def)
qed

text \<open>One attempt against the mock, by the draw.\<close>

lemma mock_attempt:
  assumes "loadConfig lib env = Inr mcfg" and "mock_accepts lib body False"
    and "marshal (ml_json lib) (snd (mock_answer lib mcfg body False)) = Some s" and "int (length s) < maxResponseBytes c"
    and "marshal (ml_json lib) (snd injected_answer) = Some f" and "int (length f) < maxResponseBytes c" and "maxResponseBytes c < 2 ^ 63 - 1"
  shows "attempt_result c (mock_env lib rng mcfg body gs) backend i =
     (if fst (injectFailure rng mcfg (gs i)) then (None, Some \<lparr>err_Backend = mb_Name backend, err_Status = 503, err_Transient = True, err_Err = None\<rparr>)
      else (Some \<lparr>resp_StatusCode = 200, resp_Body = s @ [CHR 0x0A]\<rparr>, None))"
proof -
  let ?e = "mock_env lib rng mcfg body gs i"
  let ?inj = "fst (injectFailure rng mcfg (gs i))"
  let ?w = "\<lambda>a. mock_writeJSON (ml_json lib) (fst a) (snd a) fresh_writer"
  obtain req where req: "length body \<le> mock_maxBodyBytes" "Unmarshal_request lib body = Some req" "rq_Model req \<noteq> []" "rq_Messages req \<noteq> []"
    using assms(2) by (auto simp: mock_accepts_def split: option.splits)
  obtain b g1 where inj: "injectFailure rng mcfg (gs i) = (b, g1)" by (cases "injectFailure rng mcfg (gs i)")
  obtain d g2 where lat: "simulateLatency rng mcfg g1 = Some (d, g2)" using latency_ok [OF assms(1), of rng g1] by blast
  have ok: "fst (mock_answer lib mcfg body False) = 200" using req by (simp add: mock_answer_def Let_def)
  have do: "env_NewRequest ?e = None" "env_Do ?e = Inr (upstream_of (if ?inj then ?w injected_answer else ?w (mock_answer lib mcfg body False)))"
    using inj lat req by (simp_all add: mock_env_def completions_def mock_answer_def injected_answer_def writeOpenAIError_def Let_def split: bool.split)
  have pos: "0 < maxResponseBytes c" using assms(4) by simp
  show ?thesis
  proof (cases ?inj)
    case True
    have "fst injected_answer = 503" by (simp add: injected_answer_def)
    then show ?thesis unfolding attempt_result_def using True attempt_answer(2) [OF do(1) do(2) _ _ _ pos assms(7)] assms(5,6)
      by (simp add: upstream_of_write)
  next
    case False
    then show ?thesis unfolding attempt_result_def using ok attempt_answer(1) [OF do(1) do(2) _ _ _ pos assms(7)] assms(3,4)
      by (simp add: upstream_of_write)
  qed
qed


text \<open>A rate that is not a number passes the range check, and then never fails a request.\<close>

lemma nan_rate_accepted:
  assumes "\<And>k. env k = (if k = ''MOCK_FAILURE_RATE'' then ''NaN'' else [])" and "ml_ParseFloat lib ''NaN'' = Some FNaN"
  shows "\<exists>cfg. loadConfig lib env = Inr cfg \<and> mk_failureRate cfg = FNaN \<and> (\<forall>rng g. \<not> fst (injectFailure rng cfg g))"
  using assms by (simp add: loadConfig_def envInt_def envFloat_def envString_def millis_def int64_id injectFailure_def f_le_def Let_def split: prod.split)

subsection \<open>Samples\<close>

definition sample_mock_lib :: mock_lib where
  "sample_mock_lib = \<lparr>ml_json = sample_json_lib,
     ml_unmarshal = (\<lambda>_. Some (JObj [(''model'', JStr ''m''), (''messages'', JArr [JObj [(''role'', JStr ''user''), (''content'', JStr ''hi you'')]])])),
     ml_ParseFloat = (\<lambda>_. Some (FFin (1 / 2))), ml_fmt_g = (\<lambda>_. [])\<rparr>"

definition sample_mock_env :: "string \<Rightarrow> string" where
  "sample_mock_env k = (if k = ''MOCK_FAILURE_RATE'' then ''0.5'' else [])"

definition sample_mock_config :: mock_config where
  "sample_mock_config = \<lparr>mk_port = 8081, mk_latency = 0, mk_jitter = 0, mk_failureRate = FFin (1 / 2),
     mk_backendName = ''mock-llm'', mk_modelName = ''llama-fast''\<rparr>"

text \<open>A generator whose next draw is low in the state \<open>True\<close>.\<close>

definition sample_mock_rng :: "bool mock_rng" where
  "sample_mock_rng = \<lparr>mg_Float64 = (\<lambda>g. (if g then FFin 0 else FFin (3 / 4), g)), mg_Int63n = (\<lambda>g n. (0, g))\<rparr>"

lemma sample_mock_loads: "loadConfig sample_mock_lib sample_mock_env = Inr sample_mock_config"
  by (simp add: loadConfig_def envInt_def envFloat_def envString_def sample_mock_env_def sample_mock_lib_def sample_mock_config_def
      millis_def int64_id Let_def)

lemma sample_mock_accepts: "mock_accepts sample_mock_lib ''b'' False"
proof -
  have "Unmarshal_request sample_mock_lib ''b'' = Some \<lparr>rq_Model = ''m'', rq_slice = ([\<lparr>mm_Role = ''user'', mm_Content = ''hi you''\<rparr>], 1)\<rparr>"
    by code_simp
  then show ?thesis by (simp add: mock_accepts_def mock_maxBodyBytes_def push_bit_eq_mult rq_Messages_def)
qed

lemma sample_mock_inject: "fst (injectFailure sample_mock_rng sample_mock_config g) \<longleftrightarrow> g"
  by (simp add: injectFailure_def sample_mock_rng_def sample_mock_config_def f_le_def)

theorem mock_is_deterministic_witness:
  "\<exists>d g'. completions sample_mock_lib sample_mock_rng sample_mock_config ''b'' False fresh_writer False =
      Some (case mock_answer sample_mock_lib sample_mock_config ''b'' False of
              (status, v) \<Rightarrow> mock_writeJSON (ml_json sample_mock_lib) status v fresh_writer, d, g') \<and> 0 \<le> d"
  using mock_is_deterministic [OF sample_mock_loads, of sample_mock_rng "''b''" False fresh_writer False] sample_mock_inject [of False] by auto

lemma sample_mock_marshal: "marshal (ml_json sample_mock_lib) v = Some ''{}''"
  by (simp add: sample_mock_lib_def sample_json_lib_def)

lemma sample_client_limit: "int (length ''{}'') < maxResponseBytes (Inference.New sample_config)" "maxResponseBytes (Inference.New sample_config) < 2 ^ 63 - 1"
  "maxAttempts (Inference.New sample_config) = 3"
  by (simp_all add: Inference.New_def sample_config_def DefaultMaxResponseBytes_def push_bit_eq_mult Let_def)


end
