(* ===== verification/Startup.thy ===== *)
theory Startup
  imports Seed Worker_Loops Observability Cache Ledger Ratelimit Idempotency Mock_Llm
begin

section \<open>The binaries (cmd/gateway-api, cmd/control-worker, internal/db: pool and migrate)\<close>

text \<open>
  Start-up, wiring and shutdown of the two services as functions from what they meet (\<open>start_env\<close>: the process
  environment, how opening, migrating and serving turn out, the database of the seeder) to their result and the
  trace of what they did, deferred calls included in the order Go runs them. The wiring is the parameters
  the constructors of the components get. Log lines and what goose and the drivers do inside are not modelled.
\<close>

subsection \<open>Surroundings and traces\<close>

datatype resource = PoolR | RedisR | LedgerR | MigrationConnR

text \<open>How the listening goroutine and the signal race: the listener failed, ended cleanly, or a signal came first and the
  shutdown of the server returned an error or none.\<close>

datatype serve_end = ListenFailed string | ListenClosed | Signalled "string option"

record migrate_env =
  me_open :: "string option"
  me_dialect :: "string option"
  me_up :: "string option"

record start_env =
  se_quote :: "string \<Rightarrow> string"
  se_getenv :: "string \<Rightarrow> string"
  se_parse_url :: parse_url
  se_duration :: "duration \<Rightarrow> string"
  se_migrate :: migrate_env
  se_pool :: "string option"
  se_seed_error :: "seed_error \<Rightarrow> string"
  se_hmac :: "string \<Rightarrow> string \<Rightarrow> string"
  se_pg :: postgres
  se_statements :: "nat \<Rightarrow> control_env"
  se_serve :: serve_end

text \<open>The parameters of the components of the gateway.\<close>

record gateway_wiring =
  gwr_breaker :: Breaker
  gwr_client :: Client
  gwr_ledger :: AsyncLedger
  gwr_secret :: string
  gwr_admin :: string
  gwr_cache_ttl :: duration
  gwr_limiter :: Limiter
  gwr_idem_ttl :: duration
  gwr_lock_ttl :: duration
  gwr_queue :: StreamQueue
  gwr_budget :: duration
  gwr_port :: int

record worker_wiring =
  wwr_breaker :: Breaker
  wwr_client :: Client
  wwr_queue :: StreamQueue
  wwr_config :: worker_Config
  wwr_port :: int

datatype start_event =
    Opened resource
  | Closed resource
  | Migrated
  | Seeded
  | ServedGateway gateway_wiring
  | RanWorker worker_wiring
  | LoopsStopped
  | ServerStopped

subsection \<open>internal/db/pool.go, internal/db/migrate.go, internal/redisstore/redisstore.go\<close>

definition db_Connect :: "start_env \<Rightarrow> app_Config \<Rightarrow> string option" where
  "db_Connect se cfg =
     (if DatabaseURL cfg = [] then Some ''db: connect: DATABASE_URL is empty''
      else case se_pool se of None \<Rightarrow> None | Some err \<Rightarrow> Some (''db: connect: '' @ err))"

definition redis_Connect :: "app_Config \<Rightarrow> string option" where
  "redis_Connect cfg = (if RedisAddr cfg = [] then Some ''redisstore: connect: REDIS_ADDR is empty'' else None)"

text \<open>The pings of the readiness check, on what the driver's ping returned.\<close>

definition db_Ping :: "string option \<Rightarrow> string option" where
  "db_Ping pinged = (case pinged of Some err \<Rightarrow> Some (''db: ping: '' @ err) | None \<Rightarrow> None)"

definition redis_Ping :: "string option \<Rightarrow> string option" where
  "redis_Ping pinged = (case pinged of Some err \<Rightarrow> Some (''redisstore: ping: '' @ err) | None \<Rightarrow> None)"

definition StreamsFromConfig :: "app_Config \<Rightarrow> Streams" where
  "StreamsFromConfig cfg = \<lparr>st_Key = StreamKey cfg, st_Group = StreamGroup cfg\<rparr>"

definition RunMigrations :: "start_env \<Rightarrow> (string + unit) \<times> start_event list" where
  "RunMigrations se =
     (let me = se_migrate se
      in case me_open me of
           Some err \<Rightarrow> (Inl (''db: migrate: open: '' @ err), [])
         | None \<Rightarrow>
             (case me_dialect me of
                Some err \<Rightarrow> (Inl (''db: migrate: set dialect: '' @ err), [Opened MigrationConnR, Closed MigrationConnR])
              | None \<Rightarrow>
                  (case me_up me of
                     Some err \<Rightarrow> (Inl (''db: migrate: up: '' @ err), [Opened MigrationConnR, Closed MigrationConnR])
                   | None \<Rightarrow> (Inr (), [Opened MigrationConnR, Migrated, Closed MigrationConnR]))))"

subsection \<open>Wiring\<close>

definition ledgerWorkers :: int where "ledgerWorkers = 4"
definition ledgerBuffer :: int where "ledgerBuffer = 2048"
definition idempotencyLockTTL :: duration where "idempotencyLockTTL = 2 * ServerWriteTimeout"

definition ms_of :: "int \<Rightarrow> duration" where "ms_of n = int64 (n * 1000000)"
definition sec_of :: "int \<Rightarrow> duration" where "sec_of n = int64 (n * 1000000000)"

definition wired_breaker :: "app_Config \<Rightarrow> Breaker" where
  "wired_breaker cfg = NewBreaker (CBFailureThreshold cfg) (ms_of (CBCooldownMS cfg)) True"

definition wired_client :: "app_Config \<Rightarrow> Client" where
  "wired_client cfg = Inference.New \<lparr>Timeout = ms_of (BackendTimeoutMS cfg), MaxAttempts = RetryMaxAttempts cfg,
     BackoffBase = ms_of (RetryBaseMS cfg), BackoffMax = ms_of (RetryMaxMS cfg), Metrics = True, MaxResponseBytes = 0\<rparr>"

text \<open>\<open>host\<close> and \<open>pid\<close> are the process's own.\<close>

definition wire_gateway :: "string option \<Rightarrow> nat \<Rightarrow> app_Config \<Rightarrow> gateway_wiring" where
  "wire_gateway host pid cfg =
     \<lparr>gwr_breaker = wired_breaker cfg, gwr_client = wired_client cfg, gwr_ledger = NewAsyncLedger [] ledgerWorkers ledgerBuffer,
      gwr_secret = AppKeyHashSecret cfg, gwr_admin = AdminToken cfg, gwr_cache_ttl = sec_of (CacheTTLSeconds cfg),
      gwr_limiter = \<lparr>lim_limit = RateLimitQPS cfg, lim_window = 1000000000\<rparr>, gwr_idem_ttl = sec_of (IdempotencyTTLSeconds cfg),
      gwr_lock_ttl = idempotencyLockTTL, gwr_queue = NewStreamQueue (StreamsFromConfig cfg) (ConsumerName host pid) [],
      gwr_budget = InferenceBudget, gwr_port = AppPort cfg\<rparr>"

definition wire_worker :: "string option \<Rightarrow> nat \<Rightarrow> app_Config \<Rightarrow> worker_wiring" where
  "wire_worker host pid cfg =
     \<lparr>wwr_breaker = wired_breaker cfg, wwr_client = wired_client cfg,
      wwr_queue = NewStreamQueue (StreamsFromConfig cfg) (ConsumerName host pid) [],
      wwr_config = \<lparr>wc_Concurrency = WorkerConcurrency cfg, wc_MaxItemAttempts = WorkerMaxItemAttempts cfg, wc_ReclaimMinIdle = 0,
        wc_ReclaimInterval = 0, wc_OutboxInterval = 0, wc_OutboxBatch = 0\<rparr>,
      wwr_port = WorkerMetricsPort cfg\<rparr>"

subsection \<open>cmd/gateway-api\<close>

definition serve :: "start_env \<Rightarrow> string + unit" where
  "serve se =
     (case se_serve se of
        ListenFailed err \<Rightarrow> Inl err
      | ListenClosed \<Rightarrow> Inr ()
      | Signalled None \<Rightarrow> Inr ()
      | Signalled (Some err) \<Rightarrow> Inl (''graceful shutdown: '' @ err))"

type_synonym start_result = "(string + unit) \<times> start_event list \<times> control_tables"

definition runMigrate :: "start_env \<Rightarrow> control_tables \<Rightarrow> start_result" where
  "runMigrate se t =
     (case Load (se_quote se) (se_getenv se) of
        Inl err \<Rightarrow> (Inl err, [], t)
      | Inr cfg \<Rightarrow>
          (case ValidateForMigrate cfg of
             Some err \<Rightarrow> (Inl err, [], t)
           | None \<Rightarrow> (case RunMigrations se of (res, tr) \<Rightarrow> (res, tr, t))))"

definition seed_step :: "start_env \<Rightarrow> app_Config \<Rightarrow> control_tables \<Rightarrow> (string + unit) \<times> control_tables" where
  "seed_step se cfg t =
     (case seed_Run (se_hmac se) (se_pg se) cfg (se_statements se) t of
        (Inl err, t) \<Rightarrow> (Inl (se_seed_error se err), t)
      | (Inr _, t) \<Rightarrow> (Inr (), t))"

definition runSeed :: "start_env \<Rightarrow> control_tables \<Rightarrow> start_result" where
  "runSeed se t =
     (case Load (se_quote se) (se_getenv se) of
        Inl err \<Rightarrow> (Inl err, [], t)
      | Inr cfg \<Rightarrow>
          (case ValidateForSeed (se_parse_url se) cfg of
             Some err \<Rightarrow> (Inl err, [], t)
           | None \<Rightarrow>
               (case db_Connect se cfg of
                  Some err \<Rightarrow> (Inl err, [], t)
                | None \<Rightarrow>
                    (case seed_step se cfg t of
                       (Inl err, t) \<Rightarrow> (Inl err, [Opened PoolR, Closed PoolR], t)
                     | (Inr _, t) \<Rightarrow> (Inr (), [Opened PoolR, Seeded, Closed PoolR], t)))))"

text \<open>From the clients on: the optional seeding, the ledger, serving; the trace without the deferred closes of the clients.\<close>

definition serve_gateway :: "string option \<Rightarrow> nat \<Rightarrow> start_env \<Rightarrow> app_Config \<Rightarrow> control_tables \<Rightarrow> start_result" where
  "serve_gateway host pid se cfg t =
     (case (if AutoSeed cfg
            then case ValidateForSeed (se_parse_url se) cfg of
                   Some err \<Rightarrow> (Inl err, [], t)
                 | None \<Rightarrow> (case seed_step se cfg t of (Inl err, t) \<Rightarrow> (Inl err, [], t) | (Inr _, t) \<Rightarrow> (Inr (), [Seeded], t))
            else (Inr (), [], t)) of
        (Inl err, tr, t) \<Rightarrow> (Inl err, tr, t)
      | (Inr _, tr, t) \<Rightarrow> (serve se, tr @ [Opened LedgerR, ServedGateway (wire_gateway host pid cfg), Closed LedgerR], t))"

definition runServe :: "string option \<Rightarrow> nat \<Rightarrow> start_env \<Rightarrow> control_tables \<Rightarrow> start_result" where
  "runServe host pid se t =
     (case Load (se_quote se) (se_getenv se) of
        Inl err \<Rightarrow> (Inl err, [], t)
      | Inr cfg \<Rightarrow>
          (case ValidateForServe (se_duration se) cfg of
             Some err \<Rightarrow> (Inl err, [], t)
           | None \<Rightarrow>
               (case (if AutoMigrate cfg then RunMigrations se else (Inr (), [])) of
                  (Inl err, tr) \<Rightarrow> (Inl err, tr, t)
                | (Inr _, tr) \<Rightarrow>
                    (case db_Connect se cfg of
                       Some err \<Rightarrow> (Inl err, tr, t)
                     | None \<Rightarrow>
                         (case redis_Connect cfg of
                            Some err \<Rightarrow> (Inl err, tr @ [Opened PoolR, Closed PoolR], t)
                          | None \<Rightarrow>
                              (case serve_gateway host pid se cfg t of
                                 (res, tr', t) \<Rightarrow> (res, tr @ [Opened PoolR, Opened RedisR] @ tr' @ [Closed RedisR, Closed PoolR], t)))))))"

datatype gateway_mode = ModeMigrate | ModeSeed | ModeServe

definition gateway_mode_of :: "bool \<Rightarrow> bool \<Rightarrow> gateway_mode" where
  "gateway_mode_of migrate seed = (if migrate then ModeMigrate else if seed then ModeSeed else ModeServe)"

text \<open>The exit code with the rest.\<close>

definition gateway_main :: "bool \<Rightarrow> bool \<Rightarrow> string option \<Rightarrow> nat \<Rightarrow> start_env \<Rightarrow> control_tables \<Rightarrow> nat \<times> start_event list \<times> control_tables" where
  "gateway_main migrate seed host pid se t =
     (case (case gateway_mode_of migrate seed of
              ModeMigrate \<Rightarrow> runMigrate se t | ModeSeed \<Rightarrow> runSeed se t | ModeServe \<Rightarrow> runServe host pid se t) of
        (Inl err, tr, t) \<Rightarrow> (1, tr, t)
      | (Inr _, tr, t) \<Rightarrow> (0, tr, t))"

subsection \<open>cmd/control-worker\<close>

definition worker_end :: "start_env \<Rightarrow> (string + unit) \<times> start_event list" where
  "worker_end se =
     (case se_serve se of
        ListenFailed err \<Rightarrow> (Inl (''metrics server: '' @ err), [LoopsStopped])
      | ListenClosed \<Rightarrow> (Inl (''metrics server: %!w(<nil>)''), [LoopsStopped])
      | Signalled None \<Rightarrow> (Inr (), [LoopsStopped, ServerStopped])
      | Signalled (Some err) \<Rightarrow> (Inl (''graceful shutdown: '' @ err), [LoopsStopped, ServerStopped]))"

definition worker_run :: "string option \<Rightarrow> nat \<Rightarrow> start_env \<Rightarrow> (string + unit) \<times> start_event list" where
  "worker_run host pid se =
     (case Load (se_quote se) (se_getenv se) of
        Inl err \<Rightarrow> (Inl err, [])
      | Inr cfg \<Rightarrow>
          (case ValidateForWorker cfg of
             Some err \<Rightarrow> (Inl err, [])
           | None \<Rightarrow>
               (case db_Connect se cfg of
                  Some err \<Rightarrow> (Inl err, [])
                | None \<Rightarrow>
                    (case redis_Connect cfg of
                       Some err \<Rightarrow> (Inl err, [Opened PoolR, Closed PoolR])
                     | None \<Rightarrow>
                         (case worker_end se of
                            (res, tr) \<Rightarrow> (res, [Opened PoolR, Opened RedisR, RanWorker (wire_worker host pid cfg)] @ tr @ [Closed RedisR, Closed PoolR]))))))"

text \<open>The worker's own endpoint on a clean path; \<open>scrape\<close> is what the Prometheus handler does.\<close>

definition worker_mux :: "(response_writer \<Rightarrow> response_writer) \<Rightarrow> string \<Rightarrow> response_writer \<Rightarrow> response_writer" where
  "worker_mux scrape path w =
     (if path = ''/healthz''
      then write_bytes [CHR ''{'', CHR 0x22, CHR ''s'', CHR ''t'', CHR ''a'', CHR ''t'', CHR ''u'', CHR ''s'', CHR 0x22, CHR '':'',
               CHR 0x22, CHR ''o'', CHR ''k'', CHR 0x22, CHR ''}'']
             (WriteHeader 200 (set_header ''Content-Type'' json_content_type w))
      else if path = ''/metrics'' then scrape w
      else http_Error ''404 page not found'' 404 w)"

definition worker_main :: "string option \<Rightarrow> nat \<Rightarrow> start_env \<Rightarrow> nat" where
  "worker_main host pid se = (case worker_run host pid se of (Inl err, _) \<Rightarrow> 1 | (Inr _, _) \<Rightarrow> 0)"

subsection \<open>cmd/mock-llm\<close>

text \<open>The exit code. After a signal the error of the shutdown is dropped.\<close>

definition mock_main :: "mock_lib \<Rightarrow> (string \<Rightarrow> string) \<Rightarrow> serve_end \<Rightarrow> nat" where
  "mock_main lib env ending =
     (case loadConfig lib env of
        Inl err \<Rightarrow> 1
      | Inr cfg \<Rightarrow> (case ending of ListenFailed err \<Rightarrow> 1 | ListenClosed \<Rightarrow> 0 | Signalled _ \<Rightarrow> 0))"

subsection \<open>Start-up and shutdown order\<close>

text \<open>
  Resources are closed in the reverse order of their opening and none stays open; work happens while what it
  uses is open: migrating on its own connection, seeding on the pool, serving with pool, Redis and ledger, the worker
  with pool and Redis until its loops have stopped.
\<close>

fun well_nested :: "resource list \<Rightarrow> start_event list \<Rightarrow> bool" where
  "well_nested st [] \<longleftrightarrow> st = []"
| "well_nested st (Opened r # tr) \<longleftrightarrow> r \<notin> set st \<and> well_nested (r # st) tr"
| "well_nested st (Closed r # tr) \<longleftrightarrow> (case st of [] \<Rightarrow> False | r' # st' \<Rightarrow> r' = r \<and> well_nested st' tr)"
| "well_nested st (Migrated # tr) \<longleftrightarrow> MigrationConnR \<in> set st \<and> well_nested st tr"
| "well_nested st (Seeded # tr) \<longleftrightarrow> PoolR \<in> set st \<and> well_nested st tr"
| "well_nested st (ServedGateway wd # tr) \<longleftrightarrow> {PoolR, RedisR, LedgerR} \<subseteq> set st \<and> well_nested st tr"
| "well_nested st (RanWorker wd # tr) \<longleftrightarrow> {PoolR, RedisR} \<subseteq> set st \<and> well_nested st tr"
| "well_nested st (LoopsStopped # tr) \<longleftrightarrow> {PoolR, RedisR} \<subseteq> set st \<and> well_nested st tr"
| "well_nested st (ServerStopped # tr) \<longleftrightarrow> {PoolR, RedisR} \<subseteq> set st \<and> well_nested st tr"

lemma migrations_nested:
  assumes "RunMigrations se = (res, tr)"
  shows "well_nested [] tr" "well_nested [] tr' \<Longrightarrow> well_nested [] (tr @ tr')" "ServedGateway wd \<notin> set tr"
  using assms by (auto simp: RunMigrations_def Let_def split: option.splits)

lemma serve_gateway_cases:
  assumes "serve_gateway host pid se cfg t = (res, tr, t')"
  shows "(\<exists>err. res = Inl err \<and> tr = [])
    \<or> (\<exists>sd. tr = sd @ [Opened LedgerR, ServedGateway (wire_gateway host pid cfg), Closed LedgerR]
         \<and> (if AutoSeed cfg then sd = [Seeded] \<and> ValidateForSeed (se_parse_url se) cfg = None
                 \<and> seed_Run (se_hmac se) (se_pg se) cfg (se_statements se) t = (Inr (), t')
            else sd = [] \<and> t' = t))"
proof (cases "AutoSeed cfg")
  case True
  obtain sr t1 where sr: "seed_Run (se_hmac se) (se_pg se) cfg (se_statements se) t = (sr, t1)" by (cases "seed_Run (se_hmac se) (se_pg se) cfg (se_statements se) t")
  show ?thesis
  proof (cases "ValidateForSeed (se_parse_url se) cfg")
    case None
    show ?thesis using assms True None sr by (cases sr) (auto simp: serve_gateway_def seed_step_def)
  qed (use assms True in \<open>auto simp: serve_gateway_def\<close>)
qed (use assms in \<open>auto simp: serve_gateway_def\<close>)

lemma runServe_nested: "runServe host pid se t = (res, tr, t') \<Longrightarrow> well_nested [] tr"
proof -
  assume r: "runServe host pid se t = (res, tr, t')"
  have "well_nested [] ([Opened PoolR, Opened RedisR] @ tr' @ [Closed RedisR, Closed PoolR])"
    if "serve_gateway host pid se cfg t = (res', tr', t'')" for res' tr' t'' cfg
    using serve_gateway_cases [OF that] by (auto split: if_splits)
  moreover have "well_nested [] [Opened PoolR, Closed PoolR]" "well_nested [] []" by simp_all
  ultimately show ?thesis using r migrations_nested
    by (auto simp: runServe_def simp del: well_nested.simps split: sum.splits option.splits prod.splits if_splits)
qed


subsection \<open>What is served is configured\<close>

text \<open>A gateway that serves was validated for serving and is wired from that configuration; with auto-seed its database
  holds the demo state, seeded from validated inputs, before the first request. A run that never served
  ended with an error.\<close>

theorem served_gateway_is_ready:
  assumes "runServe host pid se t = (res, tr, t')" and "pg_jsonb (se_pg se) ''{}'' = Some ''{}''"
  shows "(ServedGateway wd \<in> set tr \<longrightarrow>
      (\<exists>cfg. Load (se_quote se) (se_getenv se) = Inr cfg \<and> ValidateForServe (se_duration se) cfg = None \<and> wd = wire_gateway host pid cfg
         \<and> (AutoSeed cfg \<longrightarrow> ValidateForSeed (se_parse_url se) cfg = None \<and> demo_state (se_hmac se) cfg t')
         \<and> (\<not> AutoSeed cfg \<longrightarrow> t' = t)))
    \<and> ((\<exists>wd. ServedGateway wd \<in> set tr) \<or> (\<exists>err. res = Inl err))"
proof -
  have served: "(ServedGateway wd \<in> set tr' \<longrightarrow> wd = wire_gateway host pid cfg
         \<and> (AutoSeed cfg \<longrightarrow> ValidateForSeed (se_parse_url se) cfg = None \<and> demo_state (se_hmac se) cfg t'')
         \<and> (\<not> AutoSeed cfg \<longrightarrow> t'' = t))
      \<and> ((\<exists>wd. ServedGateway wd \<in> set tr') \<or> (\<exists>err. res' = Inl err))"
    if "serve_gateway host pid se cfg t = (res', tr', t'')" for res' tr' t'' cfg wd
    using serve_gateway_cases [OF that] seed_writes_demo_state(1) [OF _ assms(2)] by (auto split: if_splits)
  show ?thesis
  proof (cases "Load (se_quote se) (se_getenv se)")
    case (Inr cfg)
    show ?thesis
    proof (cases "ValidateForServe (se_duration se) cfg")
      case None
      obtain mr mt where m: "(if AutoMigrate cfg then RunMigrations se else (Inr (), [])) = (mr, mt)" by (cases "if AutoMigrate cfg then RunMigrations se else (Inr (), [])")
      have mt: "ServedGateway wd \<notin> set mt" for wd using m migrations_nested(3) by (auto split: if_splits)
      obtain res' tr' t'' where sg: "serve_gateway host pid se cfg t = (res', tr', t'')" by (cases "serve_gateway host pid se cfg t")
      show ?thesis using assms(1) Inr None m mt sg served [OF sg]
        by (cases mr; cases "db_Connect se cfg"; cases "redis_Connect cfg") (auto simp: runServe_def)
    qed (use assms(1) Inr in \<open>auto simp: runServe_def\<close>)
  qed (use assms(1) in \<open>auto simp: runServe_def\<close>)
qed

text \<open>A worker that runs was validated, keeps the configured concurrency, and has positive periods for its tickers, whose
  constructor panics otherwise.\<close>

lemma started_worker_is_ready:
  assumes "worker_run host pid se = (res, tr)" and "RanWorker ww \<in> set tr"
  shows "\<exists>cfg. Load (se_quote se) (se_getenv se) = Inr cfg \<and> ValidateForWorker cfg = None \<and> ww = wire_worker host pid cfg
    \<and> 0 < wc_ReclaimInterval (wk_cfg (Worker.New deps (wwr_config ww))) \<and> 0 < wc_OutboxInterval (wk_cfg (Worker.New deps (wwr_config ww)))"
  using assms by (auto simp: worker_run_def worker_end_def wire_worker_def Worker.New_def Let_def split: sum.splits option.splits prod.splits serve_end.splits)

subsection \<open>The lock of a keyed request\<close>

text \<open>
  The coordinator as \<open>runServe\<close> wires it. The lock is meant to outlast every live request; but a record can also be taken
  over when it has expired, and its lifetime comes from the configuration, which is only checked to be positive.
\<close>

definition wired_coordinator :: "postgres \<Rightarrow> app_Config \<Rightarrow> (idem_env, idem_table) Coordinator" where
  "wired_coordinator pg cfg = NewCoordinator (IdempotencyRepo pg) (sec_of (IdempotencyTTLSeconds cfg)) idempotencyLockTTL"

text \<open>C17: With a configured lifetime of at least the lock, a keyed request that started is alone for twice the write timeout:
  until then no other \<open>Begin\<close> for its key starts, whatever happens to the table in between, unless it completes or
  releases its record itself.\<close>

theorem lock_outlives_the_request:
  assumes "60 \<le> IdempotencyTTLSeconds cfg" and "IdempotencyTTLSeconds cfg < 2 ^ 63 div 10 ^ 9" and "\<And>d. pg_interval pg d = d"
    and "idem_inv t" and "key \<noteq> []" and "Begin hj (wired_coordinator pg cfg) e e1 scope key h t = (Inr d, t')" and "d_Action d = ActionStarted"
    and "list_all (respects_lock (d_RecordID d) (ie_db_now e + 2 * ServerWriteTimeout)) evs" and "ie_db_now e' < ie_db_now e + 2 * ServerWriteTimeout"
    and "Begin hj (wired_coordinator pg cfg) e' e2 scope key h' (idem_run pg t' evs) = (Inr d', t'')"
  shows "d_Action d' \<noteq> ActionStarted \<and> t'' = idem_run pg t' evs"
proof -
  let ?ttl = "sec_of (IdempotencyTTLSeconds cfg)" and ?lk = idempotencyLockTTL
  have ttl: "?ttl = IdempotencyTTLSeconds cfg * 10 ^ 9" unfolding sec_of_def using assms(1,2) by (subst int64_id) auto
  have T: "min (pg_interval pg ?lk) (pg_interval pg ?ttl) = 2 * ServerWriteTimeout"
    using assms(1,3) ttl by (simp add: idempotencyLockTTL_def ServerWriteTimeout_def)
  have store: "st_Begin (co_store (wired_coordinator pg cfg)) = repo_Begin pg" "co_ttl (wired_coordinator pg cfg) = ?ttl"
    "co_lockTTL (wired_coordinator pg cfg) = ?lk" by (simp_all add: wired_coordinator_def NewCoordinator_def IdempotencyRepo_def)
  have decide: "d_Action x \<noteq> ActionStarted" if "decideFromLookup hj r ActionInProgress = Inr x" for r x
    using that by (auto simp: decideFromLookup_def decision_def split: Outcome.splits sum.splits)
  obtain i where b: "repo_Begin pg e scope key h ?ttl ?lk t = (Inr i, t')" "d_RecordID d = i"
    using assms(5,6,7) store decide
    by (auto simp: Begin_def decision_def split: prod.splits sum.splits begin_error.splits)
  let ?row = "pending_row pg e scope key h ?ttl ?lk"
  from repo_Begin_Inr [OF assms(4) b(1)] have i: "i = ie_new_id e" and row: "?row \<in> set t'" and inv: "idem_inv t'" by auto
  have "list_all (leaves_row ?row) evs"
    using assms(8) respects_lock_leaves_row [of e pg ?lk ?ttl _ scope key h] b(2) unfolding i T by (auto simp: list_all_iff)
  then have kept: "?row \<in> set (idem_run pg t' evs)" "idem_inv (idem_run pg t' evs)"
    using idem_run_keeps_row [OF inv row] idem.run_inv [OF inv] by auto
  have "\<not> reclaimable (ie_db_now e') ?row" using pending_row_not_reclaimable [of "ie_db_now e'" e pg ?lk ?ttl scope key h] assms(9) T by simp
  then have no: "snd (repo_Begin pg e' scope key h' ?ttl ?lk (idem_run pg t' evs)) = idem_run pg t' evs"
    "\<nexists>i. fst (repo_Begin pg e' scope key h' ?ttl ?lk (idem_run pg t' evs)) = Inr i"
    using repo_Begin_refused [OF kept(2,1), of scope key e'] by (auto simp: row_key_def pending_row_def Let_def)
  have "t'' = idem_run pg t' evs" if "repo_Lookup e2 scope key h' (idem_run pg t' evs) = (r, t'')" for r
    using repo_Lookup_pure [of e2 scope key h'] that by (metis snd_conv)
  then show ?thesis using assms(5,10) no store decide
    by (auto simp: Begin_def decision_def repo_Lookup_pure IdempotencyRepo_def wired_coordinator_def NewCoordinator_def
        split: prod.splits sum.splits begin_error.splits)
qed

definition short_lived_config :: app_Config where
  "short_lived_config = (sample_app_config 3 5000)\<lparr>IdempotencyTTLSeconds := 1\<rparr>"

text \<open>A configured lifetime below the lock defeats it: with one second, which \<open>ValidateForServe\<close> accepts, a second \<open>Begin\<close> for
  the key starts one second after the first, 59 seconds before the lock of the first is over.\<close>

theorem short_lifetime_defeats_the_lock:
  "ValidateForServe (\<lambda>_. []) short_lived_config = None
   \<and> (\<exists>d t. Begin sample_hj (wired_coordinator sample_pg short_lived_config) (env_at 0 1) (env_at 0 0) ''s'' ''k'' ''h'' [] = (Inr d, t)
        \<and> d_Action d = ActionStarted
        \<and> (\<exists>d' t'. Begin sample_hj (wired_coordinator sample_pg short_lived_config) (env_at 1000000000 2) (env_at 0 0) ''s'' ''k'' ''h'' t = (Inr d', t')
             \<and> d_Action d' = ActionStarted))"
proof -
  have ok: "ValidateForServe (\<lambda>_. []) short_lived_config = None" by code_simp
  have "sec_of 1 = 1000000000" unfolding sec_of_def by (subst int64_id) auto
  then have co: "wired_coordinator sample_pg short_lived_config = NewCoordinator (IdempotencyRepo sample_pg) 1000000000 60000000000"
    by (simp add: wired_coordinator_def short_lived_config_def idempotencyLockTTL_def ServerWriteTimeout_def)
  let ?t = "[pending_row sample_pg (env_at 0 1) ''s'' ''k'' ''h'' 1000000000 60000000000]"
  have "repo_Begin sample_pg (env_at 0 1) ''s'' ''k'' ''h'' 1000000000 60000000000 [] = (Inr 1, ?t)"
    "repo_Begin sample_pg (env_at 1000000000 2) ''s'' ''k'' ''h'' 1000000000 60000000000 ?t
       = (Inr 2, [pending_row sample_pg (env_at 1000000000 2) ''s'' ''k'' ''h'' 1000000000 60000000000])" by code_simp+
  then show ?thesis using ok unfolding co by (simp add: Begin_def NewCoordinator_def IdempotencyRepo_def decision_def)
qed

subsection \<open>Witnesses\<close>

theorem lock_outlives_the_request_witness:
  "\<exists>d t. Begin sample_hj (wired_coordinator sample_pg (sample_app_config 3 5000)) (env_at 0 1) (env_at 0 0) ''s'' ''k'' ''h'' [] = (Inr d, t)
     \<and> d_Action d = ActionStarted
     \<and> (\<exists>d' t'. Begin sample_hj (wired_coordinator sample_pg (sample_app_config 3 5000)) (env_at 59000000000 7) (env_at 59000000000 0) ''s'' ''k'' ''h''
                 (idem_run sample_pg t [EvComplete (env_at 3 9) 4 200 ''{}'' ''{}'']) = (Inr d', t')
          \<and> d_Action d' \<noteq> ActionStarted)"
proof -
  let ?cfg = "sample_app_config 3 5000" and ?evs = "[EvComplete (env_at 3 9) 4 200 ''{}'' ''{}'']"
  let ?row = "pending_row sample_pg (env_at 0 1) ''s'' ''k'' ''h'' 86400000000000 60000000000"
  have "sec_of 86400 = 86400000000000" unfolding sec_of_def by (subst int64_id) auto
  then have co: "wired_coordinator sample_pg ?cfg = NewCoordinator (IdempotencyRepo sample_pg) 86400000000000 60000000000"
    by (simp add: wired_coordinator_def sample_app_config_def idempotencyLockTTL_def ServerWriteTimeout_def)
  let ?d = "(decision ActionStarted)\<lparr>d_RecordID := 1\<rparr>"
  have d: "Begin sample_hj (wired_coordinator sample_pg ?cfg) (env_at 0 1) (env_at 0 0) ''s'' ''k'' ''h'' [] = (Inr ?d, [?row])"
    "d_Action ?d = ActionStarted" unfolding co by code_simp+
  have run: "idem_run sample_pg [?row] ?evs = [?row]" by code_simp
  have d': "Begin sample_hj (wired_coordinator sample_pg ?cfg) (env_at 59000000000 7) (env_at 59000000000 0) ''s'' ''k'' ''h''
      (idem_run sample_pg [?row] ?evs) = (Inr (decision ActionInProgress), [?row])" unfolding co run by code_simp
  have c: "60 \<le> IdempotencyTTLSeconds ?cfg" "IdempotencyTTLSeconds ?cfg < 2 ^ 63 div 10 ^ 9" "\<And>d. pg_interval sample_pg d = d"
    by (simp_all add: sample_app_config_def sample_pg_def)
  have "list_all (respects_lock (d_RecordID ?d) (ie_db_now (env_at 0 1) + 2 * ServerWriteTimeout)) ?evs"
    "ie_db_now (env_at 59000000000 7) < ie_db_now (env_at 0 1) + 2 * ServerWriteTimeout" by (simp_all add: env_at_def ServerWriteTimeout_def)
  from lock_outlives_the_request [OF c idem_inv_Nil _ d(1,2) this d'] show ?thesis using d d' by blast
qed

definition sample_vars :: "(string \<times> string) list" where
  "sample_vars = [(''DATABASE_URL'', ''postgres://db''), (''APP_KEY_HASH_SECRET'', replicate 32 CHR ''s''), (''ADMIN_TOKEN'', ''t''),
     (''DEV_API_KEY'', ''dev''), (''AEGISROUTE_AUTO_SEED'', ''true''), (''SEED_BACKEND_FAST_URL'', ''http://fast''),
     (''SEED_BACKEND_CHEAP_URL'', ''http://cheap'')]"

definition sample_start :: start_env where
  "sample_start = \<lparr>se_quote = (\<lambda>s. s), se_getenv = (\<lambda>k. case map_of sample_vars k of None \<Rightarrow> [] | Some v \<Rightarrow> v),
     se_parse_url = (\<lambda>u. Some (''http'', ''h'')), se_duration = (\<lambda>_. []),
     se_migrate = \<lparr>me_open = None, me_dialect = None, me_up = None\<rparr>, se_pool = None, se_seed_error = (\<lambda>_. ''seed''), se_hmac = (\<lambda>s r. r),
     se_pg = sample_seed_pg, se_statements = sample_seed_env 5 1, se_serve = Signalled None\<rparr>"

definition sample_loaded :: app_Config where
  "sample_loaded = (case Load (se_quote sample_start) (se_getenv sample_start) of Inr c \<Rightarrow> c | Inl _ \<Rightarrow> sample_seed_cfg)"

lemma sample_start_facts:
  "Load (se_quote sample_start) (se_getenv sample_start) = Inr sample_loaded"
  "ValidateForServe (se_duration sample_start) sample_loaded = None"
  "ValidateForSeed (se_parse_url sample_start) sample_loaded = None"
  "db_Connect sample_start sample_loaded = None" "redis_Connect sample_loaded = None"
  "AutoSeed sample_loaded" "\<not> AutoMigrate sample_loaded" "serve sample_start = Inr ()"
  by code_simp+

theorem served_gateway_is_ready_witness:
  "\<exists>tr t'. runServe None 7 sample_start empty_control = (Inr (), tr, t')
     \<and> ServedGateway (wire_gateway None 7 sample_loaded) \<in> set tr \<and> demo_state (\<lambda>s r. r) sample_loaded t'"
proof -
  have env: "se_hmac sample_start = (\<lambda>s r. r)" "se_pg sample_start = sample_seed_pg" "se_statements sample_start = sample_seed_env 5 1"
    by (simp_all add: sample_start_def)
  obtain t1 where s: "seed_Run (\<lambda>s r. r) sample_seed_pg sample_loaded (sample_seed_env 5 1) empty_control = (Inr (), t1)"
    using seed_succeeds [OF sample_seed_facts(1,2,3)] by blast
  then obtain tr where r: "runServe None 7 sample_start empty_control = (Inr (), tr, t1)"
    and w: "ServedGateway (wire_gateway None 7 sample_loaded) \<in> set tr"
    using sample_start_facts by (simp add: runServe_def serve_gateway_def seed_step_def env)
  from served_gateway_is_ready [OF r, of "wire_gateway None 7 sample_loaded"] w have "demo_state (\<lambda>s r. r) sample_loaded t1"
    using sample_start_facts(1,6) by (auto simp: env sample_seed_facts(3))
  with r w show ?thesis by blast
qed

end
