(* ===== verification/Row_Scan.thy ===== *)
theory Row_Scan
  imports Job_Repo
begin

section \<open>Reading rows (the scan functions of internal/db/job_repo.go)\<close>

text \<open>
  The job repository keeps its tables as structs with parsed statuses. Here are the rows as the database has them, with
  status columns of type text under the CHECK constraints of migrations/00005_batch.sql, and the functions that
  read them. Rows that pass the constraints and structs correspond one to one, which is what lets the
  repository be stated on structs. Counts are never negative under the constraints, so they are natural numbers.
\<close>

record job_row =
  jr_id :: uuid
  jr_tenant_id :: uuid
  jr_api_key_id :: uuid
  jr_model :: string
  jr_status :: string
  jr_total_items :: nat
  jr_completed_items :: nat
  jr_failed_items :: nat
  jr_created_at :: time
  jr_updated_at :: time

record item_row =
  ir_id :: uuid
  ir_job_id :: uuid
  ir_custom_id :: string
  ir_request :: string
  ir_status :: string
  ir_attempts :: int
  ir_response :: "string option"
  ir_error :: "string option"
  ir_created_at :: time
  ir_updated_at :: time

text \<open>An error of the driver, or the row whose status does not parse.\<close>

datatype scan_error = ScanDb db_error | BadStatus uuid string

definition scanBatchJob :: "pg_error + job_row \<Rightarrow> scan_error + BatchJob" where
  "scanBatchJob row =
     (case row of
        Inl err \<Rightarrow> Inl (ScanDb (mapNotFound err))
      | Inr r \<Rightarrow>
          (case ParseJobStatus (jr_status r) of
             None \<Rightarrow> Inl (BadStatus (jr_id r) (jr_status r))
           | Some parsed \<Rightarrow>
               Inr \<lparr>job_ID = jr_id r, job_TenantID = jr_tenant_id r, job_APIKeyID = jr_api_key_id r, job_Model = jr_model r,
                    job_Status = parsed, job_TotalItems = jr_total_items r, job_CompletedItems = jr_completed_items r,
                    job_FailedItems = jr_failed_items r, job_CreatedAt = jr_created_at r, job_UpdatedAt = jr_updated_at r\<rparr>))"

definition scanBatchItem :: "pg_error + item_row \<Rightarrow> scan_error + BatchJobItem" where
  "scanBatchItem row =
     (case row of
        Inl err \<Rightarrow> Inl (ScanDb (mapNotFound err))
      | Inr r \<Rightarrow>
          (case ParseItemStatus (ir_status r) of
             None \<Rightarrow> Inl (BadStatus (ir_id r) (ir_status r))
           | Some parsed \<Rightarrow>
               Inr \<lparr>item_ID = ir_id r, item_JobID = ir_job_id r, item_CustomID = ir_custom_id r, item_Request = ir_request r,
                    item_Status = parsed, item_Attempts = ir_attempts r, item_Response = ir_response r, item_Error = ir_error r,
                    item_CreatedAt = ir_created_at r, item_UpdatedAt = ir_updated_at r\<rparr>))"

text \<open>The outbox row has the columns of its struct.\<close>

definition scanOutbox :: "pg_error + BatchJobOutbox \<Rightarrow> scan_error + BatchJobOutbox" where
  "scanOutbox row =
     (case row of
        Inl err \<Rightarrow> Inl (ScanDb (mapNotFound err))
      | Inr ob \<Rightarrow>
          (if ob_Status ob \<in> {OutboxStatusPending, OutboxStatusPublished, OutboxStatusFailed} then Inr ob
           else Inl (BadStatus (ob_ID ob) (ob_Status ob))))"

subsection \<open>The constraints and what the statements bind\<close>

definition job_status_check :: "string \<Rightarrow> bool" where
  "job_status_check s \<longleftrightarrow> s \<in> {''queued'', ''running'', ''succeeded'', ''partially_failed'', ''failed''}"

definition item_status_check :: "string \<Rightarrow> bool" where
  "item_status_check s \<longleftrightarrow> s \<in> {''queued'', ''running'', ''succeeded'', ''failed''}"

definition outbox_status_check :: "string \<Rightarrow> bool" where
  "outbox_status_check s \<longleftrightarrow> s \<in> {''pending'', ''published'', ''failed''}"

definition job_row_of :: "BatchJob \<Rightarrow> job_row" where
  "job_row_of j = \<lparr>jr_id = job_ID j, jr_tenant_id = job_TenantID j, jr_api_key_id = job_APIKeyID j, jr_model = job_Model j,
     jr_status = JobStatus_String (job_Status j), jr_total_items = job_TotalItems j, jr_completed_items = job_CompletedItems j,
     jr_failed_items = job_FailedItems j, jr_created_at = job_CreatedAt j, jr_updated_at = job_UpdatedAt j\<rparr>"

definition item_row_of :: "BatchJobItem \<Rightarrow> item_row" where
  "item_row_of it = \<lparr>ir_id = item_ID it, ir_job_id = item_JobID it, ir_custom_id = item_CustomID it, ir_request = item_Request it,
     ir_status = ItemStatus_String (item_Status it), ir_attempts = item_Attempts it, ir_response = item_Response it,
     ir_error = item_Error it, ir_created_at = item_CreatedAt it, ir_updated_at = item_UpdatedAt it\<rparr>"

subsection \<open>Rows and structs correspond\<close>

lemma job_status_text:
  "ParseJobStatus (JobStatus_String s) = Some s" "ParseJobStatus x = Some s \<Longrightarrow> JobStatus_String s = x"
  "ParseJobStatus x = None \<longleftrightarrow> \<not> job_status_check x"
  by (cases s) (auto simp: ParseJobStatus_def JobStatus_IsValid_def job_status_check_def split: if_splits)

lemma item_status_text:
  "ParseItemStatus (ItemStatus_String s) = Some s" "ParseItemStatus x = Some s \<Longrightarrow> ItemStatus_String s = x"
  "ParseItemStatus x = None \<longleftrightarrow> \<not> item_status_check x"
  by (cases s) (auto simp: ParseItemStatus_def ItemStatus_IsValid_def item_status_check_def split: if_splits)

text \<open>What the repository writes it reads back, and a row is readable exactly when its status passes the CHECK
  constraint of its table: the constraints and the parsers accept the same texts, so no row the
  database accepts makes a read fail, and a row whose status was corrupted is reported, never misread.\<close>

theorem rows_read_back:
  "scanBatchJob (Inr (job_row_of j)) = Inr j \<and> scanBatchItem (Inr (item_row_of it)) = Inr it
   \<and> (if job_status_check (jr_status r) then \<exists>j. scanBatchJob (Inr r) = Inr j \<and> job_row_of j = r
      else scanBatchJob (Inr r) = Inl (BadStatus (jr_id r) (jr_status r)))
   \<and> (if item_status_check (ir_status q) then \<exists>it. scanBatchItem (Inr q) = Inr it \<and> item_row_of it = q
      else scanBatchItem (Inr q) = Inl (BadStatus (ir_id q) (ir_status q)))
   \<and> (if outbox_status_check (ob_Status ob) then scanOutbox (Inr ob) = Inr ob
      else scanOutbox (Inr ob) = Inl (BadStatus (ob_ID ob) (ob_Status ob)))"
proof (intro conjI)
  show "scanBatchJob (Inr (job_row_of j)) = Inr j" by (simp add: scanBatchJob_def job_row_of_def job_status_text(1))
  show "scanBatchItem (Inr (item_row_of it)) = Inr it" by (simp add: scanBatchItem_def item_row_of_def item_status_text(1))
  show "if job_status_check (jr_status r) then \<exists>j. scanBatchJob (Inr r) = Inr j \<and> job_row_of j = r
      else scanBatchJob (Inr r) = Inl (BadStatus (jr_id r) (jr_status r))"
    using job_status_text(2,3) [of "jr_status r"] by (cases "ParseJobStatus (jr_status r)") (auto simp: scanBatchJob_def job_row_of_def)
  show "if item_status_check (ir_status q) then \<exists>it. scanBatchItem (Inr q) = Inr it \<and> item_row_of it = q
      else scanBatchItem (Inr q) = Inl (BadStatus (ir_id q) (ir_status q))"
    using item_status_text(2,3) [of "ir_status q"] by (cases "ParseItemStatus (ir_status q)") (auto simp: scanBatchItem_def item_row_of_def)
  show "if outbox_status_check (ob_Status ob) then scanOutbox (Inr ob) = Inr ob
      else scanOutbox (Inr ob) = Inl (BadStatus (ob_ID ob) (ob_Status ob))"
    by (simp add: scanOutbox_def outbox_status_check_def OutboxStatusPending_def OutboxStatusPublished_def OutboxStatusFailed_def)
qed

end
